(* ===== verification/Prelude.thy ===== *)
theory Prelude
  imports Main "HOL-Library.Word" "HOL-Library.Finite_Map"
    "HOL-Library.Code_Target_Nat"
begin

text \<open>
  Shared vocabulary of the development.

  A Go call that returns \<open>(T, error)\<close> is a value of the sum type \<open>'e + 'a\<close>: \<open>Inl\<close> is
  the error, \<open>Inr\<close> the result.  \<open>bindE\<close> is the idiom \<^verbatim>\<open>if err != nil { return err }\<close>
  and \<open>wrapE\<close> is \<^verbatim>\<open>fmt.Errorf("...: %w", err)\<close>.  A Go \<^verbatim>\<open>int\<close>, \<^verbatim>\<open>int64\<close> or
  \<^verbatim>\<open>time.Duration\<close> is an \<open>int\<close> whose 64-bit range is written out wherever the source
  depends on it; a Go string is a \<open>string\<close>, one \<open>char\<close> per byte.
\<close>

section \<open>Collections of facts\<close>

named_theorems go_text \<open>equations of the Go string functions used for evaluation\<close>
named_theorems result_elims \<open>inversion rules for computations in the error sum\<close>

section \<open>Types\<close>

type_synonym byte = "8 word"
type_synonym bytes = "8 word list"

text \<open>A duration and an instant, both in nanoseconds; instants count from the zero time.\<close>

type_synonym duration = int
type_synonym instant = int

section \<open>Errors as values\<close>

definition bindE :: "'e + 'a \<Rightarrow> ('a \<Rightarrow> 'e + 'b) \<Rightarrow> 'e + 'b" where
  "bindE r f = (case r of Inl e \<Rightarrow> Inl e | Inr a \<Rightarrow> f a)"

definition wrapE :: "('e \<Rightarrow> 'e) \<Rightarrow> 'e + 'a \<Rightarrow> 'e + 'a" where
  "wrapE w r = (case r of Inl e \<Rightarrow> Inl (w e) | Inr a \<Rightarrow> Inr a)"

lemma bindE_simps [simp]:
  "bindE (Inl e) f = Inl e"
  "bindE (Inr a) f = f a"
  by (simp_all add: bindE_def)

lemma wrapE_simps [simp]:
  "wrapE w (Inl e) = Inl (w e)"
  "wrapE w (Inr a) = Inr a"
  by (simp_all add: wrapE_def)

lemma bindE_Inr_iff [simp]: "bindE r f = Inr b \<longleftrightarrow> (\<exists>a. r = Inr a \<and> f a = Inr b)"
  by (cases r) auto

lemma wrapE_Inr_iff [simp]: "wrapE w r = Inr a \<longleftrightarrow> r = Inr a"
  by (cases r) auto

lemma bindE_Inl_iff: "bindE r f = Inl e \<longleftrightarrow> r = Inl e \<or> (\<exists>a. r = Inr a \<and> f a = Inl e)"
  by (cases r) auto

lemma wrapE_Inl_iff: "wrapE w r = Inl e \<longleftrightarrow> (\<exists>e'. r = Inl e' \<and> e = w e')"
  by (cases r) auto

lemma bindE_InrE [result_elims]:
  assumes "bindE r f = Inr b"
  obtains a where "r = Inr a" and "f a = Inr b"
  using assms by auto

lemma bindE_split:
  "P (bindE r f) \<longleftrightarrow> (\<forall>e. r = Inl e \<longrightarrow> P (Inl e)) \<and> (\<forall>a. r = Inr a \<longrightarrow> P (f a))"
  by (cases r) auto

text \<open>A loop whose body may fail, threading a state: the first error ends it.\<close>

fun foldE :: "('x \<Rightarrow> 's \<Rightarrow> 'e + 's) \<Rightarrow> 'x list \<Rightarrow> 's \<Rightarrow> 'e + 's" where
  "foldE f [] s = Inr s"
| "foldE f (x # xs) s = bindE (f x s) (foldE f xs)"

lemma foldE_append: "foldE f (xs @ ys) s = bindE (foldE f xs s) (foldE f ys)"
  by (induction xs arbitrary: s) (auto split: sum.splits simp: bindE_def)

lemma foldE_invariant:
  assumes "foldE f xs s = Inr t" and "P s"
    and "\<And>x u v. x \<in> set xs \<Longrightarrow> P u \<Longrightarrow> f x u = Inr v \<Longrightarrow> P v"
  shows "P t"
  using assms
proof (induction xs arbitrary: s)
  case Nil
  then show ?case by simp
next
  case (Cons x xs)
  from Cons.prems(1) obtain u where u: "f x s = Inr u" "foldE f xs u = Inr t"
    by auto
  from u(1) Cons.prems(2,3) have "P u" by (meson list.set_intros(1))
  with u(2) show ?case
    by (rule Cons.IH) (meson Cons.prems(3) list.set_intros(2))
qed

text \<open>An error of the loop is an error of its body, at the first element that has one.\<close>

lemma foldE_Inl:
  assumes "foldE f xs s = Inl e"
  shows "\<exists>i < length xs. \<exists>t. foldE f (take i xs) s = Inr t \<and> f (xs ! i) t = Inl e"
  using assms
proof (induction xs arbitrary: s)
  case Nil
  then show ?case by simp
next
  case (Cons x xs)
  show ?case
  proof (cases "f x s")
    case (Inl e')
    with Cons.prems show ?thesis by (intro exI [of _ 0]) simp
  next
    case (Inr u)
    with Cons.prems obtain i t where
      "i < length xs" "foldE f (take i xs) u = Inr t" "f (xs ! i) t = Inl e"
      using Cons.IH [of u] by auto
    with Inr show ?thesis by (intro exI [of _ "Suc i"]) auto
  qed
qed

section \<open>Machine integers\<close>

definition int64_min :: int where "int64_min = - (2 ^ 63)"
definition int64_max :: int where "int64_max = 2 ^ 63 - 1"

definition in_int64 :: "int \<Rightarrow> bool" where
  "in_int64 i \<longleftrightarrow> int64_min \<le> i \<and> i \<le> int64_max"

text \<open>\<^verbatim>\<open>Time.Sub\<close> saturates at the limits of a duration.\<close>

definition time_sub :: "instant \<Rightarrow> instant \<Rightarrow> duration" where
  "time_sub t u = max int64_min (min int64_max (t - u))"

lemma time_sub_eq: "in_int64 (t - u) \<Longrightarrow> time_sub t u = t - u"
  by (auto simp: time_sub_def in_int64_def)

lemma time_sub_in_int64 [simp]: "in_int64 (time_sub t u)"
  by (auto simp: time_sub_def in_int64_def int64_min_def int64_max_def)

lemma time_sub_le_iff:
  "int64_min \<le> d \<Longrightarrow> d < int64_max \<Longrightarrow> time_sub t u \<le> d \<longleftrightarrow> t - u \<le> d"
  by (auto simp: time_sub_def int64_min_def int64_max_def)

lemma time_sub_pos_iff: "0 < time_sub t u \<longleftrightarrow> u < t"
  by (auto simp: time_sub_def int64_min_def int64_max_def)

definition milliseconds :: duration where "milliseconds = 1000000"
definition seconds :: duration where "seconds = 1000000000"

text \<open>\<^verbatim>\<open>Duration.Milliseconds\<close>: integer division, truncating towards zero.\<close>

definition Milliseconds_of :: "duration \<Rightarrow> int" where
  "Milliseconds_of d = sgn d * (\<bar>d\<bar> div milliseconds)"

lemma Milliseconds_of_nonneg: "0 \<le> d \<Longrightarrow> Milliseconds_of d = d div milliseconds"
  by (cases "d = 0") (auto simp: Milliseconds_of_def milliseconds_def)

section \<open>Finite maps\<close>

text \<open>The size of a Go map: \<^verbatim>\<open>len(m)\<close>.\<close>

definition map_len :: "('k, 'v) fmap \<Rightarrow> nat" where
  "map_len m = fcard (fmdom m)"

lemma map_len_empty [simp]: "map_len fmempty = 0"
  by (simp add: map_len_def)

lemma map_len_upd:
  "map_len (fmupd k v m) = (if k |\<in>| fmdom m then map_len m else Suc (map_len m))"
  by (simp add: map_len_def fcard_finsert_if)

lemma map_len_upd_le: "map_len (fmupd k v m) \<le> Suc (map_len m)"
  by (simp add: map_len_upd)

lemma map_len_drop_le: "map_len (fmdrop k m) \<le> map_len m"
  by (auto simp: map_len_def intro!: fcard_mono)

lemma map_len_filter_le: "map_len (fmfilter P m) \<le> map_len m"
  by (auto simp: map_len_def intro!: fcard_mono)

lemma map_len_zero_iff: "map_len m = 0 \<longleftrightarrow> m = fmempty"
proof
  assume "map_len m = 0"
  then have "fmdom m = {||}" by (simp add: map_len_def)
  then have "fmlookup m x = None" for x by (metis fempty_iff fmdom_notD)
  then show "m = fmempty" by (simp add: fmap_ext)
qed simp

lemma fmdrop_upd_empty [simp]: "fmdrop k (fmupd k v fmempty) = fmempty"
  by (rule fmap_ext) simp

lemma map_len_pos_upd [simp]: "0 < map_len (fmupd k v m)"
  by (metis fmdom_fmupd fmdom_empty fempty_not_finsert gr0I map_len_zero_iff)

section \<open>Codecs\<close>

text \<open>
  What a reader owes a writer: on the values the writer is used on, reading back gives the value.
  The formats of the program (keys, integers, UAPI documents, framed messages) are instances.
\<close>

locale codec =
  fixes valid :: "'a \<Rightarrow> bool"
    and enc :: "'a \<Rightarrow> 'b list"
    and dec :: "'b list \<Rightarrow> 'a option"
  assumes dec_enc: "valid x \<Longrightarrow> dec (enc x) = Some x"
begin

lemma enc_inject: "valid x \<Longrightarrow> valid y \<Longrightarrow> enc x = enc y \<longleftrightarrow> x = y"
  by (metis dec_enc option.inject)

lemma inj_on_enc: "inj_on enc {x. valid x}"
  by (auto simp: inj_on_def enc_inject)

lemma dec_unique: "valid x \<Longrightarrow> dec (enc x) = Some y \<longleftrightarrow> y = x"
  by (auto simp: dec_enc)

end

section \<open>Bounded histories\<close>

text \<open>
  A list that keeps the last few of what is put into it: the lines of the log, the round trips of
  the meter.  The contract is what one push does below the capacity and at it; the promise is that
  the list is always the end of the history.
\<close>

locale bounded_history =
  fixes cap :: nat
    and push :: "'a \<Rightarrow> 'a list \<Rightarrow> 'a list"
  assumes cap_pos: "0 < cap"
    and push_below: "length xs < cap \<Longrightarrow> push x xs = xs @ [x]"
    and push_full: "length xs = cap \<Longrightarrow> push x xs = tl xs @ [x]"
begin

definition recent :: "'a list \<Rightarrow> 'a list" where
  "recent h = drop (length h - cap) h"

lemma length_recent: "length (recent h) = min cap (length h)"
  by (auto simp: recent_def)

lemma push_recent: "push x (recent h) = recent (h @ [x])"
proof (cases "length h < cap")
  case True
  then show ?thesis by (simp add: recent_def push_below)
next
  case False
  then have "push x (recent h) = tl (recent h) @ [x]"
    by (intro push_full) (simp add: length_recent)
  also have "tl (recent h) = drop (Suc (length h - cap)) h"
    by (simp add: recent_def drop_Suc tl_drop)
  finally show ?thesis using False cap_pos by (simp add: recent_def Suc_diff_le)
qed

lemma fold_push: "fold push xs (recent h) = recent (h @ xs)"
  by (induction xs arbitrary: h) (simp_all add: push_recent)

lemma fold_push_Nil: "fold push xs [] = recent xs"
  using fold_push [of xs "[]"] by (simp add: recent_def)

lemma push_length: "length xs \<le> cap \<Longrightarrow> length (push x xs) \<le> cap"
  using cap_pos by (cases "length xs < cap") (auto simp: push_below push_full)

end

end
