(* ===== verification/Go_Encoding.thy ===== *)
theory Go_Encoding
  imports Go_Text
begin

text \<open>
  Go's \<^verbatim>\<open>encoding/hex\<close> and \<^verbatim>\<open>encoding/base64\<close> (\<^verbatim>\<open>StdEncoding\<close>), as the core uses
  them for key material.  The decoder follows \<^verbatim>\<open>decodeQuantum\<close>: carriage returns and newlines
  are skipped wherever they stand, padding is required, and the unused low bits of the last
  quantum are not checked.
\<close>

section \<open>Hexadecimal\<close>

definition hex_char :: "nat \<Rightarrow> char" where
  "hex_char n = (if n < 10 then char_of (48 + n) else char_of (87 + n))"

definition hex_encode :: "bytes \<Rightarrow> string" where
  "hex_encode bs = concat (map (\<lambda>b. [hex_char (unat b div 16), hex_char (unat b mod 16)]) bs)"

text \<open>The lower-case hexadecimal digits, and reading them back.\<close>

definition is_hex :: "char \<Rightarrow> bool" where
  "is_hex c \<longleftrightarrow> (48 \<le> code c \<and> code c \<le> 57) \<or> (97 \<le> code c \<and> code c \<le> 102)"

definition hex_val :: "char \<Rightarrow> nat" where
  "hex_val c = (if code c \<le> 57 then code c - 48 else code c - 87)"

fun hex_decode :: "string \<Rightarrow> bytes option" where
  "hex_decode [] = Some []"
| "hex_decode [c] = None"
| "hex_decode (c # d # s) =
     (if is_hex c \<and> is_hex d
      then map_option ((#) (word_of_nat (16 * hex_val c + hex_val d))) (hex_decode s)
      else None)"

lemma hex_char_facts [simp]:
  "n < 16 \<Longrightarrow> is_hex (hex_char n)"
  "n < 16 \<Longrightarrow> hex_val (hex_char n) = n"
  by (auto simp: hex_char_def is_hex_def hex_val_def)

lemma unat_byte_less [simp]: "unat (b :: byte) < 256"
  using unsigned_less [of b] by simp

lemma unat_byte_div16 [simp]: "unat (b :: byte) div 16 < 16"
  using unat_byte_less [of b] by linarith

lemma hex_encode_simps [simp]:
  "hex_encode [] = []"
  "hex_encode (b # bs) = hex_char (unat b div 16) # hex_char (unat b mod 16) # hex_encode bs"
  by (simp_all add: hex_encode_def)

lemma length_hex_encode [simp]: "length (hex_encode bs) = 2 * length bs"
  by (induction bs) auto

lemma hex_encode_chars: "list_all is_hex (hex_encode bs)"
  by (induction bs) auto

lemma hex_decode_encode [simp]: "hex_decode (hex_encode bs) = Some bs"
  by (induction bs) (auto simp: mult.commute [of 16])

lemma hex_encode_inject: "hex_encode a = hex_encode b \<longleftrightarrow> a = b"
  by (metis hex_decode_encode option.inject)

section \<open>Base64\<close>

text \<open>The value of a character of the standard alphabet.\<close>

definition b64_val :: "char \<Rightarrow> nat option" where
  "b64_val c =
     (let n = code c in
      if 65 \<le> n \<and> n \<le> 90 then Some (n - 65)
      else if 97 \<le> n \<and> n \<le> 122 then Some (n - 71)
      else if 48 \<le> n \<and> n \<le> 57 then Some (n + 4)
      else if n = 43 then Some 62
      else if n = 47 then Some 63
      else None)"

definition b64_char :: "nat \<Rightarrow> char" where
  "b64_char v =
     (if v < 26 then char_of (v + 65)
      else if v < 52 then char_of (v + 71)
      else if v < 62 then char_of (v - 4)
      else if v = 62 then CHR ''+'' else CHR ''/'')"

abbreviation pad :: char where "pad \<equiv> CHR ''=''"

definition quantum3 :: "nat \<Rightarrow> nat \<Rightarrow> nat \<Rightarrow> nat \<Rightarrow> bytes" where
  "quantum3 a b c d =
     (let v = ((a * 64 + b) * 64 + c) * 64 + d
      in [word_of_nat (v div 65536), word_of_nat (v div 256), word_of_nat v])"

fun b64_quanta :: "string \<Rightarrow> bytes option" where
  "b64_quanta [] = Some []"
| "b64_quanta (a # b # c # d # rest) =
     (case (b64_val a, b64_val b) of
        (Some va, Some vb) \<Rightarrow>
          (if c = pad then
             (if d = pad \<and> rest = [] then Some (take 1 (quantum3 va vb 0 0)) else None)
           else (case b64_val c of
             None \<Rightarrow> None
           | Some vc \<Rightarrow>
               (if d = pad then
                  (if rest = [] then Some (take 2 (quantum3 va vb vc 0)) else None)
                else (case b64_val d of
                  None \<Rightarrow> None
                | Some vd \<Rightarrow> map_option ((@) (quantum3 va vb vc vd)) (b64_quanta rest)))))
      | _ \<Rightarrow> None)"
| "b64_quanta _ = None"

definition b64_decode :: "string \<Rightarrow> bytes option" where
  "b64_decode s = b64_quanta (filter (\<lambda>c. c \<noteq> CHR 0x0A \<and> c \<noteq> CHR 0x0D) s)"

text \<open>The standard encoder, for stating round trips.\<close>

fun b64_encode :: "bytes \<Rightarrow> string" where
  "b64_encode [] = []"
| "b64_encode [x] =
     (let v = unat x * 16 in [b64_char (v div 64), b64_char (v mod 64), pad, pad])"
| "b64_encode [x, y] =
     (let v = (unat x * 256 + unat y) * 4
      in [b64_char (v div 4096), b64_char (v div 64 mod 64), b64_char (v mod 64), pad])"
| "b64_encode (x # y # z # rest) =
     (let v = (unat x * 256 + unat y) * 256 + unat z
      in b64_char (v div 262144) # b64_char (v div 4096 mod 64) # b64_char (v div 64 mod 64)
         # b64_char (v mod 64) # b64_encode rest)"

lemma b64_val_char [simp]: "v < 64 \<Longrightarrow> b64_val (b64_char v) = Some v"
proof -
  assume v: "v < 64"
  consider "v < 26" | "26 \<le> v" "v < 52" | "52 \<le> v" "v < 62" | "v = 62" | "v = 63"
    using v by linarith
  then show ?thesis
    by cases (auto simp: b64_val_def b64_char_def Let_def code_def [of "CHR ''+''"] code_def [of "CHR ''/''"])
qed

lemma b64_val_pad [simp]: "b64_val pad = None"
  by (simp add: b64_val_def code_def)

lemma b64_char_neq_pad [simp]: "v < 64 \<Longrightarrow> b64_char v \<noteq> pad"
  by (metis b64_val_char b64_val_pad option.distinct(1))

lemma b64_val_newline [simp]: "b64_val (CHR 0x0A) = None" "b64_val (CHR 0x0D) = None"
  by (simp_all add: b64_val_def code_def)

lemma b64_char_not_newline [simp]:
  "v < 64 \<Longrightarrow> b64_char v \<noteq> CHR 0x0A" "v < 64 \<Longrightarrow> b64_char v \<noteq> CHR 0x0D"
  by (metis b64_val_char b64_val_newline option.distinct(1))+

lemma word_of_nat_eq_byte_iff: "word_of_nat n = (b :: byte) \<longleftrightarrow> n mod 256 = unat b"
  by (simp add: word_unat_eq_iff unat_of_nat)

lemma sextets:
  fixes v :: nat
  shows "((v div 262144 * 64 + v div 4096 mod 64) * 64 + v div 64 mod 64) * 64 + v mod 64 = v"
proof -
  have "v div 262144 = v div 4096 div 64" "v div 4096 = v div 64 div 64"
    by (simp_all flip: div_mult2_eq)
  then show ?thesis by (metis div_mult_mod_eq)
qed

lemma sextets3:
  fixes v :: nat
  shows "(v div 4096 * 64 + v div 64 mod 64) * 64 + v mod 64 = v"
proof -
  have "v div 4096 = v div 64 div 64" by (simp flip: div_mult2_eq)
  then show ?thesis by (metis div_mult_mod_eq)
qed

lemma byte_digits:
  fixes x y z :: nat
  assumes "x < 256" "y < 256" "z < 256"
  shows "((x * 256 + y) * 256 + z) div 65536 = x"
    and "((x * 256 + y) * 256 + z) div 256 = x * 256 + y"
    and "((x * 256 + y) * 256 + z) div 262144 < 64"
  using assms by auto

lemma quantum3_bytes:
  assumes "((a * 64 + b) * 64 + c) * 64 + d = (unat x * 256 + unat y) * 256 + unat z"
  shows "quantum3 a b c d = [x, y, z]"
proof -
  note d = byte_digits [OF unat_byte_less [of x] unat_byte_less [of y] unat_byte_less [of z]]
  have "(word_of_nat (unat x) :: byte) = x" by simp
  moreover have "(word_of_nat (unat x * 256 + unat y) :: byte) = y"
    by (simp only: word_of_nat_eq_byte_iff) (simp add: mod_mult_self3)
  moreover have "(word_of_nat ((unat x * 256 + unat y) * 256 + unat z) :: byte) = z"
    by (simp only: word_of_nat_eq_byte_iff mod_mult_self3) simp
  ultimately show ?thesis
    using assms by (simp only: quantum3_def Let_def d)
qed

lemma b64_quanta_encode: "b64_quanta (b64_encode bs) = Some bs"
proof (induction bs rule: b64_encode.induct)
  case 1
  then show ?case by simp
next
  case (2 x)
  let ?v = "unat x * 16"
  have "?v div 64 < 64" by (simp add: div_less_iff_less_mult)
  moreover have "quantum3 (?v div 64) (?v mod 64) 0 0 = [x, 0, 0]"
    by (rule quantum3_bytes) (simp only: div_mult_mod_eq, simp)
  ultimately show ?case by (simp add: Let_def)
next
  case (3 x y)
  let ?v = "(unat x * 256 + unat y) * 4"
  have "?v div 4096 < 64" 
    using unat_byte_less [of x] unat_byte_less [of y]
    by (simp add: div_less_iff_less_mult del: unat_byte_less)
  moreover have "quantum3 (?v div 4096) (?v div 64 mod 64) (?v mod 64) 0 = [x, y, 0]"
    by (rule quantum3_bytes) (simp only: sextets3, simp)
  ultimately show ?case by (simp add: Let_def)
next
  case (4 x y z rest)
  let ?v = "(unat x * 256 + unat y) * 256 + unat z"
  have "?v div 262144 < 64" by (rule byte_digits(3)) simp_all
  moreover have
    "quantum3 (?v div 262144) (?v div 4096 mod 64) (?v div 64 mod 64) (?v mod 64) = [x, y, z]"
    by (rule quantum3_bytes) (rule sextets)
  ultimately show ?case using 4 by (simp add: Let_def)
qed

lemma b64_encode_no_newline:
  "c \<in> set (b64_encode bs) \<Longrightarrow> c \<noteq> CHR 0x0A \<and> c \<noteq> CHR 0x0D"
proof (induction bs rule: b64_encode.induct)
  case (2 x)
  have "unat x * 16 div 64 < 64" by (simp add: div_less_iff_less_mult)
  then show ?case using 2 by (auto simp: Let_def)
next
  case (3 x y)
  have "(unat x * 256 + unat y) * 4 div 4096 < 64"
    using unat_byte_less [of x] unat_byte_less [of y]
    by (simp add: div_less_iff_less_mult del: unat_byte_less)
  then show ?case using 3 by (auto simp: Let_def)
next
  case (4 x y z rest)
  have "((unat x * 256 + unat y) * 256 + unat z) div 262144 < 64"
    by (rule byte_digits(3)) simp_all
  then show ?case using 4 by (auto simp: Let_def)
qed simp

lemma b64_decode_encode [simp]: "b64_decode (b64_encode bs) = Some bs"
proof -
  have "filter (\<lambda>c. c \<noteq> CHR 0x0A \<and> c \<noteq> CHR 0x0D) (b64_encode bs) = b64_encode bs"
    using b64_encode_no_newline by (intro filter_True) blast
  then show ?thesis by (simp add: b64_decode_def b64_quanta_encode)
qed

end
