(* ===== verification/Go_Netip.thy ===== *)
theory Go_Netip
  imports Go_Encoding
begin

text \<open>
  Go's \<^verbatim>\<open>net/netip\<close> as the core uses it: addresses, \<^verbatim>\<open>ParseAddr\<close>, \<^verbatim>\<open>ParsePrefix\<close> and
  \<^verbatim>\<open>Addr.String\<close>.  An IPv4 address is its four bytes; an IPv6 address is its sixteen bytes and
  its zone, the empty string standing for no zone.
\<close>

datatype addr = V4 byte byte byte byte | V6 bytes string

definition Is6 :: "addr \<Rightarrow> bool" where
  "Is6 a = (case a of V4 _ _ _ _ \<Rightarrow> False | V6 _ _ \<Rightarrow> True)"

section \<open>Reading an address\<close>

text \<open>
  \<^verbatim>\<open>parseIPv4Fields\<close>: the value and the number of digits of the field being read, and the
  fields before it.
\<close>

fun ipv4_fields :: "nat \<Rightarrow> nat \<Rightarrow> nat list \<Rightarrow> string \<Rightarrow> nat list option" where
  "ipv4_fields v len fs [] = (if length fs < 3 then None else Some (fs @ [v]))"
| "ipv4_fields v len fs (c # cs) =
     (if is_digit c then
        (if len = 1 \<and> v = 0 then None
         else if 255 < v * 10 + digit_val c then None
         else ipv4_fields (v * 10 + digit_val c) (Suc len) fs cs)
      else if c = CHR ''.'' then
        (if len = 0 \<or> cs = [] then None
         else if length fs = 3 then None
         else ipv4_fields 0 0 (fs @ [v]) cs)
      else None)"

definition parseIPv4 :: "string \<Rightarrow> addr option" where
  "parseIPv4 s =
     (case ipv4_fields 0 0 [] s of
        Some [a, b, c, d] \<Rightarrow> Some (V4 (word_of_nat a) (word_of_nat b) (word_of_nat c) (word_of_nat d))
      | _ \<Rightarrow> None)"

definition is_hex_digit :: "char \<Rightarrow> bool" where
  "is_hex_digit c \<longleftrightarrow> is_hex c \<or> (65 \<le> code c \<and> code c \<le> 70)"

definition hex_digit_val :: "char \<Rightarrow> nat" where
  "hex_digit_val c = (if 65 \<le> code c \<and> code c \<le> 70 then code c - 55 else hex_val c)"

fun nat_of_hex :: "nat \<Rightarrow> string \<Rightarrow> nat" where
  "nat_of_hex acc [] = acc"
| "nat_of_hex acc (c # cs) = nat_of_hex (16 * acc + hex_digit_val c) cs"

text \<open>
  The loop of \<^verbatim>\<open>parseIPv6\<close>: the bytes read so far, the position of the ellipsis, and the
  rest of the input.  Each turn adds two bytes, so at most eight are taken.
\<close>

function v6_loop ::
  "bytes \<Rightarrow> nat option \<Rightarrow> string \<Rightarrow> (bytes \<times> nat option \<times> string) option" where
  "v6_loop bs ell s =
     (if 16 \<le> length bs then Some (bs, ell, s)
      else
        let ds = takeWhile is_hex_digit s;
            rest = dropWhile is_hex_digit s;
            v = nat_of_hex 0 ds;
            bs' = bs @ [word_of_nat (v div 256), word_of_nat v]
        in if ds = [] \<or> 4 < length ds then None
           else if HasPrefix rest ''.'' then
             (if ell = None \<and> length bs \<noteq> 12 then None
              else if 16 < length bs + 4 then None
              else (case ipv4_fields 0 0 [] s of
                      None \<Rightarrow> None
                    | Some fs \<Rightarrow> Some (bs @ map word_of_nat fs, ell, [])))
           else if rest = [] then Some (bs', ell, [])
           else if hd rest \<noteq> CHR '':'' \<or> tl rest = [] then None
           else if HasPrefix (tl rest) '':'' then
             (if ell \<noteq> None then None
              else if tl (tl rest) = [] then Some (bs', Some (length bs'), [])
              else v6_loop bs' (Some (length bs')) (tl (tl rest)))
           else v6_loop bs' ell (tl rest))"
  by pat_completeness auto
termination
  by (relation "measure (\<lambda>(bs, ell, s). 16 - length bs)") auto

declare v6_loop.simps [simp del]

definition parseIPv6 :: "string \<Rightarrow> addr option" where
  "parseIPv6 input =
     (let (s, zone, bad) =
            (case Cut (CHR ''%'') input of
               None \<Rightarrow> (input, [], False)
             | Some (a, z) \<Rightarrow> (a, z, z = []));
          lead = HasPrefix s ''::'';
          s' = (if lead then drop 2 s else s)
      in if bad then None
         else if lead \<and> s' = [] then Some (V6 (replicate 16 0) zone)
         else (case v6_loop [] (if lead then Some 0 else None) s' of
                 None \<Rightarrow> None
               | Some (bs, ell, rest) \<Rightarrow>
                   (if rest \<noteq> [] then None
                    else if length bs < 16 then
                      (case ell of
                         None \<Rightarrow> None
                       | Some e \<Rightarrow>
                           Some (V6 (take e bs @ replicate (16 - length bs) 0 @ drop e bs) zone))
                    else if ell \<noteq> None then None
                    else Some (V6 bs zone))))"

definition ParseAddr :: "string \<Rightarrow> addr option" where
  "ParseAddr s =
     (case find (\<lambda>c. c = CHR ''.'' \<or> c = CHR '':'' \<or> c = CHR ''%'') s of
        None \<Rightarrow> None
      | Some c \<Rightarrow>
          (if c = CHR ''.'' then parseIPv4 s
           else if c = CHR '':'' then parseIPv6 s
           else None))"

text \<open>The address of \<^verbatim>\<open>ParsePrefix\<close>; the length of the prefix is checked and dropped.\<close>

definition ParsePrefixAddr :: "string \<Rightarrow> addr option" where
  "ParsePrefixAddr s =
     (case Cut (CHR ''/'') (rev s) of
        None \<Rightarrow> None
      | Some (rbits, rip) \<Rightarrow>
          (case ParseAddr (rev rip) of
             None \<Rightarrow> None
           | Some a \<Rightarrow>
               (let bits = rev rbits;
                    zoned = (case a of V4 _ _ _ _ \<Rightarrow> False | V6 _ z \<Rightarrow> z \<noteq> [])
                in if zoned then None
                   else if 1 < length bits \<and> \<not> (49 \<le> code (hd bits) \<and> code (hd bits) \<le> 57)
                   then None
                   else (case ParseInt64 bits of
                           None \<Rightarrow> None
                         | Some n \<Rightarrow>
                             (if n < 0 \<or> (if Is6 a then 128 else 32) < n then None
                              else Some a)))))"

section \<open>Writing an address\<close>

definition v4_string :: "byte \<Rightarrow> byte \<Rightarrow> byte \<Rightarrow> byte \<Rightarrow> string" where
  "v4_string a b c d = Join (map (\<lambda>x. nat_digits (unat x)) [a, b, c, d]) ''.''"

text \<open>A 16-bit group in hexadecimal, without leading zeros.\<close>

definition hex_group :: "nat \<Rightarrow> string" where
  "hex_group g =
     (let ds = map hex_char [g div 4096, g div 256 mod 16, g div 16 mod 16, g mod 16];
          short = dropWhile (\<lambda>c. c = CHR ''0'') ds
      in if short = [] then ''0'' else short)"

fun groups :: "bytes \<Rightarrow> nat list" where
  "groups (a # b # bs) = (256 * unat a + unat b) # groups bs"
| "groups _ = []"

text \<open>The first longest run of at least two zero groups, as start and length.\<close>

definition zero_run :: "nat list \<Rightarrow> nat \<times> nat" where
  "zero_run gs =
     foldl (\<lambda>(s, l) i.
         let n = length (takeWhile (\<lambda>g. g = 0) (drop i gs))
         in if 2 \<le> n \<and> l < n then (i, n) else (s, l))
       (length gs, 0) [0 ..< length gs]"

definition v6_string :: "bytes \<Rightarrow> string" where
  "v6_string bs =
     (let gs = groups bs; (s, l) = zero_run gs
      in if l = 0 then Join (map hex_group gs) '':''
         else Join (map hex_group (take s gs)) '':'' @ ''::''
              @ Join (map hex_group (drop (s + l) gs)) '':'')"

definition Is4In6 :: "bytes \<Rightarrow> bool" where
  "Is4In6 bs \<longleftrightarrow> length bs = 16 \<and> take 10 bs = replicate 10 0 \<and> take 2 (drop 10 bs) = [255, 255]"

definition Addr_String :: "addr \<Rightarrow> string" where
  "Addr_String a =
     (case a of
        V4 p q r s \<Rightarrow> v4_string p q r s
      | V6 bs zone \<Rightarrow>
          (if Is4In6 bs
           then ''::ffff:'' @ v4_string (bs ! 12) (bs ! 13) (bs ! 14) (bs ! 15)
           else v6_string bs)
          @ (if zone = [] then [] else CHR ''%'' # zone))"

section \<open>Round trip of IPv4 addresses\<close>

lemma ipv4_field_digits:
  assumes "n < 256" and "rest = [] \<or> hd rest = CHR ''.''"
  shows "ipv4_fields 0 0 fs (nat_digits n @ rest) = ipv4_fields n (length (nat_digits n)) fs rest"
proof -
  consider "n < 10" | "10 \<le> n" "n < 100" | "100 \<le> n" by linarith
  then show ?thesis
  proof cases
    case 1
    then show ?thesis by (simp add: nat_digits.simps [of n])
  next
    case 2
    then have "n div 10 < 10" "n div 10 \<noteq> 0" by auto
    then show ?thesis
      using 2 by (simp add: nat_digits.simps [of n] nat_digits.simps [of "n div 10"])
  next
    case 3
    define a b c where "a = n div 10 div 10" and "b = n div 10 mod 10" and "c = n mod 10"
    have n: "n = (a * 10 + b) * 10 + c"
      unfolding a_def b_def c_def by presburger
    have abc: "a < 10" "b < 10" "c < 10" "a \<noteq> 0"
      using 3 assms(1) unfolding a_def b_def c_def by auto
    have "nat_digits n = nat_digits (n div 10) @ [digit_char c]"
      using 3 by (subst nat_digits.simps) (simp add: c_def)
    also have "nat_digits (n div 10) = nat_digits a @ [digit_char b]"
      using 3 by (subst nat_digits.simps) (simp add: a_def b_def)
    also have "nat_digits a = [digit_char a]"
      using abc by (subst nat_digits.simps) simp
    finally have "nat_digits n = [digit_char a, digit_char b, digit_char c]" by simp
    then show ?thesis
      using abc assms(1) unfolding n by simp
  qed
qed

lemma dot_not_digit [simp]: "\<not> is_digit CHR ''.''"
  by (simp add: is_digit_def code_def)

lemma ipv4_fields_dot:
  "n < 256 \<Longrightarrow> rest \<noteq> [] \<Longrightarrow> length fs < 3 \<Longrightarrow>
   ipv4_fields 0 0 fs (nat_digits n @ CHR ''.'' # rest) = ipv4_fields 0 0 (fs @ [n]) rest"
  by (subst ipv4_field_digits) auto

lemma ipv4_fields_last:
  "n < 256 \<Longrightarrow> length fs = 3 \<Longrightarrow> ipv4_fields 0 0 fs (nat_digits n) = Some (fs @ [n])"
  using ipv4_field_digits [of n "[]" fs] by simp

lemma parseIPv4_string: "parseIPv4 (v4_string a b c d) = Some (V4 a b c d)"
proof -
  have "ipv4_fields 0 0 [] (v4_string a b c d) = Some [unat a, unat b, unat c, unat d]"
    by (simp add: v4_string_def ipv4_fields_dot ipv4_fields_last)
  then show ?thesis by (simp add: parseIPv4_def)
qed

lemma find_dot:
  "list_all is_digit ds \<Longrightarrow>
   find (\<lambda>c. c = CHR ''.'' \<or> c = CHR '':'' \<or> c = CHR ''%'') (ds @ CHR ''.'' # s) = Some CHR ''.''"
  by (induction ds) (auto simp: is_digit_def code_def)

theorem ParseAddr_v4_string: "ParseAddr (v4_string a b c d) = Some (V4 a b c d)"
  using find_dot [OF nat_digits_digits, of "unat a"]
  by (simp add: ParseAddr_def parseIPv4_string [symmetric]) (simp add: v4_string_def)

end
