(* ===== verification/Awg_Config.thy ===== *)
theory Awg_Config
  imports Go_Netip
begin

text \<open>
  \<^verbatim>\<open>core/internal/awg/config.go\<close>: the internal form of a tunnel, the reader of the
  \<^verbatim>\<open>.conf\<close> format and the rendering in the device's UAPI form.  The records have the fields of
  the Go structs; the map of obfuscation parameters is a finite map.  A method that changes its
  receiver returns the changed record, in the error sum where the method returns an error.
\<close>

section \<open>Data\<close>

record Peer =
  PublicKey :: string
  PresharedKey :: string
  Endpoint :: string
  AllowedIPs :: "string list"
  Keepalive :: int

record Config =
  PrivateKey :: string
  Addresses :: "addr list"
  MTU :: int
  DNS :: "addr list"
  Obfuscation :: "(string, string) fmap"
  peer :: Peer

definition empty_Peer :: Peer where
  "empty_Peer =
     \<lparr>PublicKey = [], PresharedKey = [], Endpoint = [], AllowedIPs = [], Keepalive = 0\<rparr>"

text \<open>The value both readers start from: \<^verbatim>\<open>Config{MTU: 1420, Obfuscation: map[...]{}}\<close>.\<close>

definition empty_Config :: Config where
  "empty_Config =
     \<lparr>PrivateKey = [], Addresses = [], MTU = 1420, DNS = [], Obfuscation = fmempty,
      peer = empty_Peer\<rparr>"

text \<open>One constructor per error the two readers return; \<open>AtLine\<close> and \<open>InField\<close> wrap.\<close>

datatype awg_error =
    AtLine nat awg_error
  | InField string awg_error
  | ExpectedKeyValue string
  | OutsideSection string
  | NotBase64
  | WrongKeyLength nat
  | NotAddress string
  | NotInteger string
  | NoPrivateKey
  | NoPublicKey
  | NoAddress
  | BadEndpointJSON
  | WrongEndpointType string
  | NoPeers
  | ManyPeers nat
  | PeerWithoutAddress

section \<open>Obfuscation parameters\<close>

definition obfuscationKeys :: "string list" where
  "obfuscationKeys =
     [''jc'', ''jmin'', ''jmax'',
      ''s1'', ''s2'', ''s3'', ''s4'',
      ''h1'', ''h2'', ''h3'', ''h4'',
      ''i1'', ''i2'', ''i3'', ''i4'', ''i5'',
      ''headerprotectionkey'', ''contentpaddingaddition'',
      ''rekeyaftertime'', ''rekeytimeout'', ''rejectaftertime'',
      ''keepalivetimeout'', ''maxhandshakeattempts'',
      ''randomtrailers'', ''disablecookies'']"

definition keyToHex :: "string \<Rightarrow> awg_error + string" where
  "keyToHex v =
     (case b64_decode v of
        None \<Rightarrow> Inl NotBase64
      | Some raw \<Rightarrow>
          if length raw \<noteq> 32 then Inl (WrongKeyLength (length raw)) else Inr (hex_encode raw))"

definition SetObfuscation :: "string \<Rightarrow> string \<Rightarrow> Config \<Rightarrow> awg_error + Config" where
  "SetObfuscation key v c =
     (if key = ''headerprotectionkey'' then
        (case keyToHex v of
           Inl e \<Rightarrow> Inl (InField ''HeaderProtectionKey'' e)
         | Inr hexKey \<Rightarrow> Inr (c\<lparr>Obfuscation := fmupd key hexKey (Obfuscation c)\<rparr>))
      else Inr (c\<lparr>Obfuscation := fmupd key v (Obfuscation c)\<rparr>))"

definition uapiValue :: "string \<Rightarrow> string \<Rightarrow> string" where
  "uapiValue key v =
     (if key \<noteq> ''randomtrailers'' \<and> key \<noteq> ''disablecookies'' then v
      else let w = ToLower (TrimSpace v) in
        if w \<in> set [''on'', ''true'', ''1'', ''yes''] then ''true''
        else if w \<in> set [''off'', ''false'', ''0'', ''no''] then ''false''
        else v)"

definition uapiNames :: "(string \<times> string) list" where
  "uapiNames =
     [(''headerprotectionkey'', ''header_protection_key''),
      (''contentpaddingaddition'', ''content_padding_addition''),
      (''rekeyaftertime'', ''rekey_after_time''),
      (''rekeytimeout'', ''rekey_timeout''),
      (''rejectaftertime'', ''reject_after_time''),
      (''keepalivetimeout'', ''keepalive_timeout''),
      (''maxhandshakeattempts'', ''max_handshake_attempts''),
      (''randomtrailers'', ''random_trailers''),
      (''disablecookies'', ''disable_cookies'')]"

section \<open>Reading a \<^verbatim>\<open>.conf\<close>\<close>

definition addrPart :: "string \<Rightarrow> addr list \<Rightarrow> awg_error + addr list" where
  "addrPart raw addrs =
     (let part = TrimSpace raw in
      if part = [] then Inr addrs
      else (case ParsePrefixAddr part of
              Some a \<Rightarrow> Inr (addrs @ [a])
            | None \<Rightarrow>
                (case ParseAddr part of
                   None \<Rightarrow> Inl (NotAddress part)
                 | Some a \<Rightarrow> Inr (addrs @ [a]))))"

definition parseAddrList :: "string \<Rightarrow> awg_error + addr list" where
  "parseAddrList v = foldE addrPart (Split (CHR '','') v) []"

definition setInterface :: "string \<Rightarrow> string \<Rightarrow> Config \<Rightarrow> awg_error + Config" where
  "setInterface key v c =
     (if key \<in> set obfuscationKeys then SetObfuscation key v c
      else if key = ''privatekey'' then
        bindE (wrapE (InField ''PrivateKey'') (keyToHex v))
          (\<lambda>hexKey. Inr (c\<lparr>PrivateKey := hexKey\<rparr>))
      else if key = ''address'' then
        bindE (wrapE (InField ''Address'') (parseAddrList v))
          (\<lambda>addrs. Inr (c\<lparr>Addresses := Addresses c @ addrs\<rparr>))
      else if key = ''dns'' then
        bindE (wrapE (InField ''DNS'') (parseAddrList v))
          (\<lambda>addrs. Inr (c\<lparr>DNS := DNS c @ addrs\<rparr>))
      else if key = ''mtu'' then
        (case ParseInt64 v of
           None \<Rightarrow> Inl (InField ''MTU'' (NotInteger v))
         | Some n \<Rightarrow> Inr (c\<lparr>MTU := n\<rparr>))
      else Inr c)"

definition Peer_set :: "string \<Rightarrow> string \<Rightarrow> Peer \<Rightarrow> awg_error + Peer" where
  "Peer_set key v p =
     (if key = ''publickey'' then
        bindE (wrapE (InField ''PublicKey'') (keyToHex v))
          (\<lambda>hexKey. Inr (p\<lparr>PublicKey := hexKey\<rparr>))
      else if key = ''presharedkey'' then
        bindE (wrapE (InField ''PresharedKey'') (keyToHex v))
          (\<lambda>hexKey. Inr (p\<lparr>PresharedKey := hexKey\<rparr>))
      else if key = ''endpoint'' then Inr (p\<lparr>Endpoint := v\<rparr>)
      else if key = ''allowedips'' then
        Inr (p\<lparr>AllowedIPs :=
          AllowedIPs p @ filter (\<lambda>part. part \<noteq> []) (map TrimSpace (Split (CHR '','') v))\<rparr>)
      else if key = ''persistentkeepalive'' then
        (case ParseInt64 v of
           None \<Rightarrow> Inl (InField ''PersistentKeepalive'' (NotInteger v))
         | Some n \<Rightarrow> Inr (p\<lparr>Keepalive := n\<rparr>))
      else Inr p)"

text \<open>The body of the loop over the lines; the state is the current section and the result.\<close>

definition parseLine ::
  "nat \<times> string \<Rightarrow> string \<times> Config \<Rightarrow> awg_error + string \<times> Config" where
  "parseLine numbered st =
     (let (lineNo, raw) = numbered; (section, cfg) = st; line = TrimSpace raw in
      if line = [] \<or> HasPrefix line ''#'' \<or> HasPrefix line '';'' then Inr (section, cfg)
      else if HasPrefix line ''['' \<and> HasSuffix line '']'' then
        Inr (ToLower (Trim line ''[]''), cfg)
      else (case Cut (CHR ''='') line of
              None \<Rightarrow> Inl (AtLine (lineNo + 1) (ExpectedKeyValue line))
            | Some (k, v) \<Rightarrow>
                (let key = ToLower (TrimSpace k); val = TrimSpace v in
                 wrapE (AtLine (lineNo + 1))
                   (if section = ''interface'' then
                      bindE (setInterface key val cfg) (\<lambda>cfg'. Inr (section, cfg'))
                    else if section = ''peer'' then
                      bindE (Peer_set key val (peer cfg)) (\<lambda>p. Inr (section, cfg\<lparr>peer := p\<rparr>))
                    else Inl (OutsideSection key)))))"

definition ParseConfig :: "string \<Rightarrow> awg_error + Config" where
  "ParseConfig txt =
     bindE (foldE parseLine (List.enumerate 0 (Split newline txt)) ([], empty_Config))
       (\<lambda>(section, cfg).
          if PrivateKey cfg = [] then Inl NoPrivateKey
          else if PublicKey (peer cfg) = [] then Inl NoPublicKey
          else if Addresses cfg = [] then Inl NoAddress
          else Inr cfg)"

section \<open>Rendering for the device\<close>

definition ipcLine :: "string \<Rightarrow> string \<Rightarrow> string" where
  "ipcLine name v = name @ CHR ''='' # v @ [newline]"

text \<open>The order the obfuscation parameters are written in, a table of its own in the source.\<close>

definition ipcKeys :: "string list" where
  "ipcKeys =
     [''jc'', ''jmin'', ''jmax'',
      ''s1'', ''s2'', ''s3'', ''s4'',
      ''h1'', ''h2'', ''h3'', ''h4'',
      ''i1'', ''i2'', ''i3'', ''i4'', ''i5'',
      ''headerprotectionkey'', ''contentpaddingaddition'',
      ''rekeyaftertime'', ''rekeytimeout'', ''rejectaftertime'',
      ''keepalivetimeout'', ''maxhandshakeattempts'',
      ''randomtrailers'', ''disablecookies'']"

definition uapiName :: "string \<Rightarrow> string" where
  "uapiName key = (case map_of uapiNames key of None \<Rightarrow> key | Some mapped \<Rightarrow> mapped)"

definition IPC :: "Config \<Rightarrow> string" where
  "IPC c =
     ipcLine ''private_key'' (PrivateKey c)
     @ concat (map (\<lambda>key.
         (case fmlookup (Obfuscation c) key of
            None \<Rightarrow> []
          | Some v \<Rightarrow> ipcLine (uapiName key) (uapiValue key v))) ipcKeys)
     @ ipcLine ''public_key'' (PublicKey (peer c))
     @ (if PresharedKey (peer c) \<noteq> [] then ipcLine ''preshared_key'' (PresharedKey (peer c)) else [])
     @ (if Endpoint (peer c) \<noteq> [] then ipcLine ''endpoint'' (Endpoint (peer c)) else [])
     @ concat (map (ipcLine ''allowed_ip'') (AllowedIPs (peer c)))
     @ (if 0 < Keepalive (peer c)
        then ipcLine ''persistent_keepalive_interval'' (Itoa (Keepalive (peer c))) else [])"

section \<open>Keys\<close>

lemma keyToHex_Inr_iff:
  "keyToHex v = Inr h \<longleftrightarrow> (\<exists>raw. b64_decode v = Some raw \<and> length raw = 32 \<and> h = hex_encode raw)"
  by (auto simp: keyToHex_def split: option.splits if_splits)

lemma keyToHex_encode: "length raw = 32 \<Longrightarrow> keyToHex (b64_encode raw) = Inr (hex_encode raw)"
  by (simp add: keyToHex_def)

text \<open>The form of a key as the device reads it: 64 lower-case hexadecimal digits.\<close>

definition is_hex_key :: "string \<Rightarrow> bool" where
  "is_hex_key s \<longleftrightarrow> length s = 64 \<and> list_all is_hex s"

lemma keyToHex_is_hex_key: "keyToHex v = Inr h \<Longrightarrow> is_hex_key h"
  by (auto simp: keyToHex_Inr_iff is_hex_key_def hex_encode_chars)

lemma is_hex_key_neq_Nil [simp]: "\<not> is_hex_key []"
  by (simp add: is_hex_key_def)

lemma newline_not_hex [simp]: "\<not> is_hex newline"
  by (simp add: is_hex_def newline_def code_def)

lemma is_hex_key_newline: "is_hex_key s \<Longrightarrow> newline \<notin> set s"
  by (auto simp: is_hex_key_def list_all_iff)

section \<open>The invariant of a configuration\<close>

text \<open>
  What every step of a reader keeps: keys are absent or in the device's form, only known
  obfuscation parameters are stored, and integers are in range.
\<close>

definition config_inv :: "Config \<Rightarrow> bool" where
  "config_inv c \<longleftrightarrow>
     (PrivateKey c = [] \<or> is_hex_key (PrivateKey c)) \<and>
     (PublicKey (peer c) = [] \<or> is_hex_key (PublicKey (peer c))) \<and>
     (PresharedKey (peer c) = [] \<or> is_hex_key (PresharedKey (peer c))) \<and>
     fmdom' (Obfuscation c) \<subseteq> set obfuscationKeys \<and>
     (\<forall>v. fmlookup (Obfuscation c) ''headerprotectionkey'' = Some v \<longrightarrow> is_hex_key v) \<and>
     in_int64 (MTU c) \<and> in_int64 (Keepalive (peer c))"

text \<open>A configuration a reader may return: the invariant, with nothing required missing.\<close>

definition wf_config :: "Config \<Rightarrow> bool" where
  "wf_config c \<longleftrightarrow>
     config_inv c \<and> PrivateKey c \<noteq> [] \<and> PublicKey (peer c) \<noteq> [] \<and> Addresses c \<noteq> []"

text \<open>No string of the configuration that is rendered contains a newline.\<close>

definition newline_free :: "Config \<Rightarrow> bool" where
  "newline_free c \<longleftrightarrow>
     newline \<notin> set (PrivateKey c) \<and>
     (\<forall>k v. fmlookup (Obfuscation c) k = Some v \<longrightarrow> newline \<notin> set v) \<and>
     newline \<notin> set (PublicKey (peer c)) \<and> newline \<notin> set (PresharedKey (peer c)) \<and>
     newline \<notin> set (Endpoint (peer c)) \<and>
     (\<forall>a \<in> set (AllowedIPs (peer c)). newline \<notin> set a)"

lemma in_int64_small [simp]: "in_int64 0" "in_int64 1420"
  by (simp_all add: in_int64_def int64_min_def int64_max_def)

lemma config_inv_empty [simp]: "config_inv empty_Config"
  by (simp add: config_inv_def empty_Config_def empty_Peer_def)

lemma newline_free_empty [simp]: "newline_free empty_Config"
  by (simp add: newline_free_def empty_Config_def empty_Peer_def)

lemma SetObfuscation_inv:
  "SetObfuscation key v c = Inr c' \<Longrightarrow> key \<in> set obfuscationKeys \<Longrightarrow> config_inv c \<Longrightarrow> config_inv c'"
  by (auto simp: SetObfuscation_def config_inv_def keyToHex_is_hex_key
      split: if_splits sum.splits)

lemma SetObfuscation_newline_free:
  "SetObfuscation key v c = Inr c' \<Longrightarrow> newline \<notin> set v \<Longrightarrow> newline_free c \<Longrightarrow> newline_free c'"
  by (auto simp: SetObfuscation_def newline_free_def
      dest!: keyToHex_is_hex_key is_hex_key_newline split: if_splits sum.splits)

text \<open>The interface keys that are not obfuscation parameters, one equation each.\<close>

lemma setInterface_obfuscation:
  "key \<in> set obfuscationKeys \<Longrightarrow> setInterface key v c = SetObfuscation key v c"
  by (simp add: setInterface_def)

lemma setInterface_cases:
  assumes "setInterface key v c = Inr c'"
  obtains (obfuscation) "key \<in> set obfuscationKeys" "SetObfuscation key v c = Inr c'"
  | (privkey) h where "keyToHex v = Inr h" "c' = c\<lparr>PrivateKey := h\<rparr>"
  | (address) addrs where "parseAddrList v = Inr addrs" "c' = c\<lparr>Addresses := Addresses c @ addrs\<rparr>"
  | (dns) addrs where "parseAddrList v = Inr addrs" "c' = c\<lparr>DNS := DNS c @ addrs\<rparr>"
  | (mtu) n where "ParseInt64 v = Some n" "c' = c\<lparr>MTU := n\<rparr>"
  | (ignored) "c' = c"
proof (cases "key \<in> set obfuscationKeys")
  case True
  with assms show ?thesis by (intro obfuscation) (simp_all add: setInterface_obfuscation)
next
  case False
  with assms show ?thesis
    by (auto simp: setInterface_def split: if_splits option.splits
        intro: privkey address dns mtu ignored)
qed

lemma setInterface_inv:
  assumes "setInterface key v c = Inr c'" and "config_inv c"
  shows "config_inv c'"
  using assms(1)
proof (cases rule: setInterface_cases)
  case obfuscation
  then show ?thesis using assms(2) by (metis SetObfuscation_inv)
qed (use assms(2) in \<open>auto simp: config_inv_def keyToHex_is_hex_key dest: ParseInt64_range\<close>)

lemma setInterface_newline_free:
  assumes "setInterface key v c = Inr c'" and "newline \<notin> set v" and "newline_free c"
  shows "newline_free c'"
  using assms(1)
proof (cases rule: setInterface_cases)
  case obfuscation
  then show ?thesis using assms(2,3) by (metis SetObfuscation_newline_free)
qed (use assms(3) in \<open>auto simp: newline_free_def dest: keyToHex_is_hex_key [THEN is_hex_key_newline]\<close>)

lemma Peer_set_cases:
  assumes "Peer_set key v p = Inr q"
  obtains (public) h where "keyToHex v = Inr h" "q = p\<lparr>PublicKey := h\<rparr>"
  | (preshared) h where "keyToHex v = Inr h" "q = p\<lparr>PresharedKey := h\<rparr>"
  | (endpoint) "q = p\<lparr>Endpoint := v\<rparr>"
  | (allowed) "q = p\<lparr>AllowedIPs :=
        AllowedIPs p @ filter (\<lambda>part. part \<noteq> []) (map TrimSpace (Split (CHR '','') v))\<rparr>"
  | (keepalive) n where "ParseInt64 v = Some n" "q = p\<lparr>Keepalive := n\<rparr>"
  | (ignored) "q = p"
  using assms
  by (auto simp: Peer_set_def split: if_splits option.splits
      intro: public preshared endpoint allowed keepalive ignored)

lemma Peer_set_inv:
  assumes "Peer_set key v (peer c) = Inr p" and "config_inv c"
  shows "config_inv (c\<lparr>peer := p\<rparr>)"
  using assms(1)
  by (cases rule: Peer_set_cases)
    (use assms(2) in \<open>auto simp: config_inv_def keyToHex_is_hex_key dest: ParseInt64_range\<close>)

lemma newline_TrimSpace: "newline \<in> set (TrimSpace s) \<Longrightarrow> newline \<in> set s"
  using set_TrimSpace by blast

lemma newline_piece: "part \<in> set (Split sep v) \<Longrightarrow> newline \<in> set (TrimSpace part) \<Longrightarrow> newline \<in> set v"
  using newline_TrimSpace Split_piece_chars by blast

lemma Peer_set_newline_free:
  assumes "Peer_set key v (peer c) = Inr p" and "newline \<notin> set v" and "newline_free c"
  shows "newline_free (c\<lparr>peer := p\<rparr>)"
  using assms(1)
proof (cases rule: Peer_set_cases)
  case allowed
  then show ?thesis
    using assms(2,3) by (auto simp: newline_free_def dest: newline_piece)
qed (use assms(2,3) in \<open>auto simp: newline_free_def dest: keyToHex_is_hex_key [THEN is_hex_key_newline]\<close>)

text \<open>
  The three kinds of line: one that is skipped, a section header, and an assignment.
\<close>

definition skipped :: "string \<Rightarrow> bool" where
  "skipped line \<longleftrightarrow> line = [] \<or> HasPrefix line ''#'' \<or> HasPrefix line '';''"

definition header :: "string \<Rightarrow> bool" where
  "header line \<longleftrightarrow> HasPrefix line ''['' \<and> HasSuffix line '']''"

definition assign :: "string \<Rightarrow> string \<Rightarrow> string \<times> Config \<Rightarrow> awg_error + string \<times> Config" where
  "assign key v st =
     (if fst st = ''interface'' then
        bindE (setInterface key v (snd st)) (\<lambda>c. Inr (fst st, c))
      else if fst st = ''peer'' then
        bindE (Peer_set key v (peer (snd st))) (\<lambda>p. Inr (fst st, snd st\<lparr>peer := p\<rparr>))
      else Inl (OutsideSection key))"

lemma parseLine_eq:
  "parseLine (n, raw) st =
     (let line = TrimSpace raw in
      if skipped line then Inr st
      else if header line then Inr (ToLower (Trim line ''[]''), snd st)
      else (case Cut (CHR ''='') line of
              None \<Rightarrow> Inl (AtLine (n + 1) (ExpectedKeyValue line))
            | Some (k, v) \<Rightarrow>
                wrapE (AtLine (n + 1)) (assign (ToLower (TrimSpace k)) (TrimSpace v) st)))"
  by (cases st)
    (simp add: parseLine_def skipped_def header_def assign_def Let_def split: option.split)

lemma parseLine_skipped: "skipped (TrimSpace raw) \<Longrightarrow> parseLine (n, raw) st = Inr st"
  by (simp add: parseLine_eq)

lemma parseLine_header:
  "header (TrimSpace raw) \<Longrightarrow> \<not> skipped (TrimSpace raw) \<Longrightarrow>
   parseLine (n, raw) st = Inr (ToLower (Trim (TrimSpace raw) ''[]''), snd st)"
  by (simp add: parseLine_eq)

lemma parseLine_no_equals:
  "\<not> header (TrimSpace raw) \<Longrightarrow> \<not> skipped (TrimSpace raw) \<Longrightarrow> Cut (CHR ''='') (TrimSpace raw) = None \<Longrightarrow>
   parseLine (n, raw) st = Inl (AtLine (n + 1) (ExpectedKeyValue (TrimSpace raw)))"
  by (simp add: parseLine_eq)

lemma parseLine_assign:
  "\<not> header (TrimSpace raw) \<Longrightarrow> \<not> skipped (TrimSpace raw) \<Longrightarrow>
   Cut (CHR ''='') (TrimSpace raw) = Some (k, v) \<Longrightarrow>
   parseLine (n, raw) st = wrapE (AtLine (n + 1)) (assign (ToLower (TrimSpace k)) (TrimSpace v) st)"
  by (simp add: parseLine_eq)

lemma parseLine_cases:
  assumes "parseLine (n, raw) st = Inr st'"
  obtains (skip) "skipped (TrimSpace raw)" "st' = st"
  | (section_header) "header (TrimSpace raw)" "st' = (ToLower (Trim (TrimSpace raw) ''[]''), snd st)"
  | (assignment) k v where "TrimSpace raw = k @ CHR ''='' # v"
      "assign (ToLower (TrimSpace k)) (TrimSpace v) st = Inr st'"
proof (cases "skipped (TrimSpace raw)")
  case True
  with assms show ?thesis by (intro skip) (simp_all add: parseLine_skipped)
next
  case ns: False
  show ?thesis
  proof (cases "header (TrimSpace raw)")
    case True
    with ns assms show ?thesis by (intro section_header) (simp_all add: parseLine_header)
  next
    case nh: False
    show ?thesis
    proof (cases "Cut (CHR ''='') (TrimSpace raw)")
      case None
      with nh ns assms show ?thesis by (simp add: parseLine_no_equals)
    next
      case (Some kv)
      obtain k v where kv: "kv = (k, v)" by (cases kv)
      have "parseLine (n, raw) st = wrapE (AtLine (n + 1)) (assign (ToLower (TrimSpace k)) (TrimSpace v) st)"
        using nh ns Some kv by (intro parseLine_assign) simp_all
      with assms have "assign (ToLower (TrimSpace k)) (TrimSpace v) st = Inr st'" by simp
      with Some kv show ?thesis by (intro assignment) (simp_all add: Cut_Some_iff)
    qed
  qed
qed

lemma assign_inv: "assign key v st = Inr st' \<Longrightarrow> config_inv (snd st) \<Longrightarrow> config_inv (snd st')"
  by (auto simp: assign_def dest: setInterface_inv Peer_set_inv split: if_splits)

lemma assign_newline_free:
  "assign key v st = Inr st' \<Longrightarrow> newline \<notin> set v \<Longrightarrow> newline_free (snd st) \<Longrightarrow> newline_free (snd st')"
  by (auto simp: assign_def dest: setInterface_newline_free Peer_set_newline_free split: if_splits)

lemma parseLine_inv:
  assumes "parseLine (n, raw) st = Inr st'" and "config_inv (snd st)"
  shows "config_inv (snd st')"
  using assms(1) by (cases rule: parseLine_cases) (use assms(2) in \<open>auto dest: assign_inv\<close>)

lemma parseLine_newline_free:
  assumes "parseLine (n, raw) st = Inr st'" and "newline \<notin> set raw" and "newline_free (snd st)"
  shows "newline_free (snd st')"
  using assms(1)
proof (cases rule: parseLine_cases)
  case (assignment k v)
  have "newline \<notin> set (TrimSpace v)"
    using assignment(1) assms(2) newline_TrimSpace [of v] newline_TrimSpace [of raw] by auto
  with assignment(2) show ?thesis using assms(3) by (rule assign_newline_free)
qed (use assms(3) in auto)

lemma parse_lines_inv:
  assumes "foldE parseLine (List.enumerate 0 (Split newline s)) ([], empty_Config) = Inr st"
  shows "config_inv (snd st) \<and> newline_free (snd st)"
  using assms
proof (rule foldE_invariant)
  fix x u v
  assume x: "x \<in> set (List.enumerate 0 (Split newline s))"
    and u: "config_inv (snd u) \<and> newline_free (snd u)" and step: "parseLine x u = Inr v"
  obtain n raw where nr: "x = (n, raw)" by (cases x)
  with x have "raw \<in> set (Split newline s)" by (auto simp: in_set_enumerate_eq)
  then have "newline \<notin> set raw" by (rule Split_pieces)
  then show "config_inv (snd v) \<and> newline_free (snd v)"
    using step u unfolding nr by (meson parseLine_inv parseLine_newline_free)
qed simp

lemma ParseConfig_wf_config: "ParseConfig s = Inr c \<Longrightarrow> wf_config c"
  and ParseConfig_newline_free: "ParseConfig s = Inr c \<Longrightarrow> newline_free c"
  using parse_lines_inv [of s] by (auto simp: ParseConfig_def wf_config_def split: if_splits)


section \<open>Lines and their numbers\<close>

text \<open>The number of a line shows in errors only.\<close>

lemma parseLine_number: "parseLine (n, raw) st = Inr st' \<longleftrightarrow> parseLine (m, raw) st = Inr st'"
  by (auto simp: parseLine_eq Let_def split: option.split)

lemma parse_lines_number:
  "foldE parseLine (List.enumerate n ls) st = Inr st' \<longleftrightarrow>
   foldE parseLine (List.enumerate m ls) st = Inr st'"
proof (induction ls arbitrary: n m st)
  case Nil
  show ?case by simp
next
  case (Cons l ls)
  show ?case
    by (simp add: parseLine_number [of n l _ _ m] Cons.IH [of "Suc n" _ "Suc m"] del: split_paired_Ex)
qed

lemma enumerate_append:
  "List.enumerate n (xs @ ys) = List.enumerate n xs @ List.enumerate (n + length xs) ys"
  by (induction xs arbitrary: n) auto

lemma take_enumerate: "take i (List.enumerate n xs) = List.enumerate n (take i xs)"
  by (induction xs arbitrary: i n) (auto simp: take_Cons split: nat.split)

lemma parse_lines_skip:
  assumes "skipped (TrimSpace raw)"
  shows "foldE parseLine (List.enumerate 0 (ls @ raw # ls')) st = Inr st' \<longleftrightarrow>
    foldE parseLine (List.enumerate 0 (ls @ ls')) st = Inr st'"
  using assms by (simp add: enumerate_append foldE_append parseLine_skipped
      parse_lines_number [of "Suc (length ls)" ls' _ _ "length ls"])

lemma parseLine_Inl:
  assumes "parseLine (n, raw) st = Inl err"
  shows "\<not> skipped (TrimSpace raw) \<and> \<not> header (TrimSpace raw) \<and> (\<exists>e. err = AtLine (n + 1) e)"
  using assms by (auto simp: parseLine_eq Let_def wrapE_Inl_iff split: if_splits option.splits)

end
