(* ===== verification/Awg_Uapi.thy ===== *)
theory Awg_Uapi
  imports Awg_Config
begin

text \<open>
  What \<^verbatim>\<open>Config.IPC\<close> owes the device.  The device reads its configuration as lines
  \<^verbatim>\<open>key=value\<close>, each ended by a newline, and a \<^verbatim>\<open>public_key\<close> line opens the section of
  a peer.  \<open>uapi_read\<close> is that format as a reader; the rendering is a document of the format, and
  reading it back gives the entries of the configuration, in their sections.
\<close>

section \<open>The UAPI format\<close>

definition uapi_doc :: "(string \<times> string) list \<Rightarrow> string" where
  "uapi_doc es = concat (map (\<lambda>(k, v). ipcLine k v) es)"

definition uapi_read :: "string \<Rightarrow> (string \<times> string) list option" where
  "uapi_read s =
     (let ls = Split newline s
      in if last ls \<noteq> [] then None else those (map (Cut (CHR ''='')) (butlast ls)))"

definition uapi_valid :: "(string \<times> string) list \<Rightarrow> bool" where
  "uapi_valid es \<longleftrightarrow>
     (\<forall>(k, v) \<in> set es. newline \<notin> set k \<and> CHR ''='' \<notin> set k \<and> newline \<notin> set v)"

text \<open>The sections: the device's own entries, and from the first \<^verbatim>\<open>public_key\<close> on the peer's.\<close>

definition device_section :: "(string \<times> string) list \<Rightarrow> (string \<times> string) list" where
  "device_section = takeWhile (\<lambda>e. fst e \<noteq> ''public_key'')"

definition peer_section :: "(string \<times> string) list \<Rightarrow> (string \<times> string) list" where
  "peer_section = dropWhile (\<lambda>e. fst e \<noteq> ''public_key'')"

definition entries_of :: "string \<Rightarrow> (string \<times> string) list \<Rightarrow> string list" where
  "entries_of k es = map snd (filter (\<lambda>e. fst e = k) es)"

lemma entries_of_simps [simp]:
  "entries_of k [] = []"
  "entries_of k ((k', v) # es) = (if k' = k then v # entries_of k es else entries_of k es)"
  "entries_of k (es @ fs) = entries_of k es @ entries_of k fs"
  by (auto simp: entries_of_def)

lemma entries_of_none: "k \<notin> fst ` set es \<Longrightarrow> entries_of k es = []"
  by (force simp: entries_of_def filter_empty_conv)

lemma entries_of_single_name: "entries_of k (map (Pair k') vs) = (if k' = k then vs else [])"
  by (induction vs) auto

lemma those_map_Some: "(\<And>x. x \<in> set xs \<Longrightarrow> f x = Some (g x)) \<Longrightarrow> those (map f xs) = Some (map g xs)"
  by (induction xs) auto

lemma uapi_read_doc: "uapi_valid es \<Longrightarrow> uapi_read (uapi_doc es) = Some es"
proof -
  assume v: "uapi_valid es"
  let ?ls = "map (\<lambda>(k, v). k @ CHR ''='' # v) es"
  have doc: "uapi_doc es = concat (map (\<lambda>l. l @ [newline]) ?ls)"
    by (auto simp: uapi_doc_def ipcLine_def intro!: arg_cong [where f = concat])
  have "\<forall>l \<in> set ?ls. newline \<notin> set l"
    using v by (auto simp: uapi_valid_def newline_def)
  then have "Split newline (uapi_doc es) = ?ls @ [[]]"
    unfolding doc by (rule Split_lines)
  moreover have "those (map (Cut (CHR ''='')) ?ls) = Some es"
    using v by (simp add: comp_def, subst those_map_Some [where g = id])
      (auto simp: uapi_valid_def Cut_Some_iff)
  ultimately show ?thesis by (simp add: uapi_read_def)
qed

interpretation uapi: codec uapi_valid uapi_doc uapi_read
  by unfold_locales (rule uapi_read_doc)

interpretation hex: codec "\<lambda>_. True" hex_encode hex_decode
  by unfold_locales simp

interpretation base64: codec "\<lambda>_. True" b64_encode b64_decode
  by unfold_locales simp

interpretation decimal: codec in_int64 Itoa ParseInt64
  by unfold_locales (rule ParseInt64_Itoa)

section \<open>The rendering as a document\<close>

definition obfuscation_entries :: "Config \<Rightarrow> (string \<times> string) list" where
  "obfuscation_entries c =
     concat (map (\<lambda>key.
       (case fmlookup (Obfuscation c) key of
          None \<Rightarrow> [] | Some v \<Rightarrow> [(uapiName key, uapiValue key v)])) ipcKeys)"

definition peer_entries :: "Peer \<Rightarrow> (string \<times> string) list" where
  "peer_entries p =
     (''public_key'', PublicKey p)
     # (if PresharedKey p \<noteq> [] then [(''preshared_key'', PresharedKey p)] else [])
     @ (if Endpoint p \<noteq> [] then [(''endpoint'', Endpoint p)] else [])
     @ map (Pair ''allowed_ip'') (AllowedIPs p)
     @ (if 0 < Keepalive p then [(''persistent_keepalive_interval'', Itoa (Keepalive p))] else [])"

definition ipc_entries :: "Config \<Rightarrow> (string \<times> string) list" where
  "ipc_entries c =
     (''private_key'', PrivateKey c) # obfuscation_entries c @ peer_entries (peer c)"

lemma uapi_doc_simps [simp]:
  "uapi_doc [] = []"
  "uapi_doc ((k, v) # es) = ipcLine k v @ uapi_doc es"
  "uapi_doc (es @ fs) = uapi_doc es @ uapi_doc fs"
  "uapi_doc (map (Pair k) vs) = concat (map (ipcLine k) vs)"
  by (simp_all add: uapi_doc_def comp_def)

lemma uapi_doc_concat: "uapi_doc (concat ess) = concat (map uapi_doc ess)"
  by (induction ess) simp_all

lemma IPC_doc: "IPC c = uapi_doc (ipc_entries c)"
proof -
  have "uapi_doc (obfuscation_entries c) =
      concat (map (\<lambda>key. (case fmlookup (Obfuscation c) key of
            None \<Rightarrow> [] | Some v \<Rightarrow> ipcLine (uapiName key) (uapiValue key v))) ipcKeys)"
    by (auto simp: obfuscation_entries_def uapi_doc_concat comp_def
        intro!: arg_cong [where f = concat] split: option.split)
  then show ?thesis
    by (simp add: IPC_def ipc_entries_def peer_entries_def)
qed

section \<open>Names\<close>

lemma ipcKeys_obfuscationKeys: "ipcKeys = obfuscationKeys"
  by (simp add: ipcKeys_def obfuscationKeys_def)

lemma distinct_ipcKeys: "distinct ipcKeys"
  by code_simp

lemma distinct_uapiNames: "distinct (map uapiName ipcKeys)"
  by code_simp

text \<open>No name of an obfuscation parameter is one of the other names, and all are clean.\<close>

definition reserved :: "string list" where
  "reserved = [''private_key'', ''public_key'', ''preshared_key'', ''endpoint'', ''allowed_ip'',
     ''persistent_keepalive_interval'']"

lemma uapiName_facts:
  "\<forall>k \<in> set ipcKeys. uapiName k \<notin> set reserved \<and> newline \<notin> set (uapiName k) \<and> CHR ''='' \<notin> set (uapiName k)"
  by code_simp

lemma inj_uapiName: "inj_on uapiName (set ipcKeys)"
  using distinct_uapiNames by (simp add: distinct_map)

lemma set_obfuscation_entries:
  "set (obfuscation_entries c) =
     {(uapiName k, uapiValue k v) | k v. k \<in> set ipcKeys \<and> fmlookup (Obfuscation c) k = Some v}"
  by (auto simp: obfuscation_entries_def split: option.splits) (metis (no_types))

lemma obfuscation_names:
  "fst ` set (obfuscation_entries c) \<subseteq> uapiName ` set ipcKeys"
  by (auto simp: set_obfuscation_entries)

lemma obfuscation_not_reserved:
  assumes "k \<in> set reserved" shows "k \<notin> fst ` set (obfuscation_entries c)"
proof
  assume "k \<in> fst ` set (obfuscation_entries c)"
  then obtain key where "key \<in> set ipcKeys" "k = uapiName key"
    using obfuscation_names by (meson image_iff subsetD)
  with uapiName_facts assms show False by metis
qed

lemma uapiValue_cases:
  obtains "uapiValue k v = v" | "uapiValue k v = ''true''" | "uapiValue k v = ''false''"
  unfolding uapiValue_def Let_def by argo

lemma newline_uapiValue: "newline \<notin> set v \<Longrightarrow> newline \<notin> set (uapiValue k v)"
  by (rule uapiValue_cases [of k v]) (simp_all add: newline_def)


section \<open>Reading the rendering back\<close>

definition clean_name :: "string \<Rightarrow> bool" where
  "clean_name k \<longleftrightarrow> newline \<notin> set k \<and> CHR ''='' \<notin> set k"

lemma uapi_valid_simps [simp]:
  "uapi_valid []"
  "uapi_valid ((k, v) # es) \<longleftrightarrow> clean_name k \<and> newline \<notin> set v \<and> uapi_valid es"
  "uapi_valid (es @ fs) \<longleftrightarrow> uapi_valid es \<and> uapi_valid fs"
  "uapi_valid (map (Pair k) vs) \<longleftrightarrow> vs = [] \<or> clean_name k \<and> (\<forall>v \<in> set vs. newline \<notin> set v)"
  by (auto simp: uapi_valid_def clean_name_def)

lemma uapi_valid_concat: "uapi_valid (concat ess) \<longleftrightarrow> (\<forall>es \<in> set ess. uapi_valid es)"
  by (induction ess) auto

lemma clean_reserved: "\<forall>k \<in> set reserved. clean_name k"
  by code_simp

lemmas clean_reserved_names [simp] = clean_reserved [unfolded reserved_def list.set ball_simps]

lemma clean_uapiName: "k \<in> set ipcKeys \<Longrightarrow> clean_name (uapiName k)"
  using uapiName_facts by (simp add: clean_name_def)

lemma ipc_entries_valid:
  assumes "newline_free c" shows "uapi_valid (ipc_entries c)"
proof -
  have "uapi_valid (obfuscation_entries c)"
    using assms
    by (auto simp: obfuscation_entries_def uapi_valid_concat newline_free_def clean_uapiName
        newline_uapiValue split: option.split)
  moreover have "uapi_valid (peer_entries (peer c))"
    using assms by (simp add: peer_entries_def newline_free_def)
  ultimately show ?thesis
    using assms by (simp add: ipc_entries_def newline_free_def)
qed

lemma IPC_read: "newline_free c \<Longrightarrow> uapi_read (IPC c) = Some (ipc_entries c)"
  unfolding IPC_doc by (rule uapi.dec_enc) (rule ipc_entries_valid)

lemma sections_ipc_entries:
  "device_section (ipc_entries c) = (''private_key'', PrivateKey c) # obfuscation_entries c"
  "peer_section (ipc_entries c) = peer_entries (peer c)"
proof -
  have "\<forall>e \<in> set (obfuscation_entries c). fst e \<noteq> ''public_key''"
    using obfuscation_not_reserved [of "''public_key''" c] by (force simp: reserved_def)
  then show "device_section (ipc_entries c) = (''private_key'', PrivateKey c) # obfuscation_entries c"
    "peer_section (ipc_entries c) = peer_entries (peer c)"
    by (simp_all add: device_section_def peer_section_def ipc_entries_def peer_entries_def
        takeWhile_append dropWhile_append)
qed

lemma entries_of_obfuscation_reserved:
  "k \<in> set reserved \<Longrightarrow> entries_of k (obfuscation_entries c) = []"
  by (intro entries_of_none obfuscation_not_reserved)

text \<open>Each parameter is rendered as often as it is stored: once or not at all.\<close>

lemma entries_of_obfuscation_aux:
  assumes "inj_on uapiName (set ks)" and "distinct ks" and "key \<in> set ks"
  shows "entries_of (uapiName key)
      (concat (map (\<lambda>k. (case m k of None \<Rightarrow> [] | Some v \<Rightarrow> [(uapiName k, uapiValue k v)])) ks)) =
    (case m key of None \<Rightarrow> [] | Some v \<Rightarrow> [uapiValue key v])"
  using assms
proof (induction ks)
  case Nil
  then show ?case by simp
next
  case (Cons k ks)
  let ?es = "concat (map (\<lambda>k. (case m k of None \<Rightarrow> [] | Some v \<Rightarrow> [(uapiName k, uapiValue k v)])) ks)"
  show ?case
  proof (cases "key = k")
    case True
    have "uapiName key \<notin> fst ` set ?es"
      using Cons.prems True by (auto simp: inj_on_def split: option.splits)
    then show ?thesis
      using True by (simp add: entries_of_none split: option.split)
  next
    case False
    then have "uapiName k \<noteq> uapiName key"
      using Cons.prems by (auto simp: inj_on_def)
    then show ?thesis
      using Cons False by (simp split: option.split)
  qed
qed

lemma entries_of_obfuscation:
  "key \<in> set ipcKeys \<Longrightarrow> entries_of (uapiName key) (obfuscation_entries c) =
     (case fmlookup (Obfuscation c) key of None \<Rightarrow> [] | Some v \<Rightarrow> [uapiValue key v])"
  unfolding obfuscation_entries_def
  by (rule entries_of_obfuscation_aux) (simp_all add: inj_uapiName distinct_ipcKeys)

lemma entries_of_peer:
  "entries_of ''public_key'' (peer_entries p) = [PublicKey p]"
  "entries_of ''preshared_key'' (peer_entries p) = filter (\<lambda>v. v \<noteq> []) [PresharedKey p]"
  "entries_of ''endpoint'' (peer_entries p) = filter (\<lambda>v. v \<noteq> []) [Endpoint p]"
  "entries_of ''allowed_ip'' (peer_entries p) = AllowedIPs p"
  "entries_of ''persistent_keepalive_interval'' (peer_entries p) =
     (if 0 < Keepalive p then [Itoa (Keepalive p)] else [])"
  by (simp_all add: peer_entries_def entries_of_single_name)

lemma peer_entries_names:
  "map fst (take 1 (peer_entries p)) = [''public_key'']"
  "fst ` set (peer_entries p) \<subseteq> set reserved"
  by (auto simp: peer_entries_def reserved_def)

lemma entries_of_device:
  "entries_of ''private_key'' (device_section (ipc_entries c)) = [PrivateKey c]"
  "key \<in> set obfuscationKeys \<Longrightarrow> entries_of (uapiName key) (device_section (ipc_entries c)) =
     (case fmlookup (Obfuscation c) key of None \<Rightarrow> [] | Some v \<Rightarrow> [uapiValue key v])"
proof -
  show "entries_of ''private_key'' (device_section (ipc_entries c)) = [PrivateKey c]"
    by (simp add: sections_ipc_entries entries_of_obfuscation_reserved reserved_def)
  assume "key \<in> set obfuscationKeys"
  then have key: "key \<in> set ipcKeys" by (simp add: ipcKeys_obfuscationKeys)
  with uapiName_facts have "uapiName key \<noteq> ''private_key''" by (auto simp: reserved_def)
  with key show "entries_of (uapiName key) (device_section (ipc_entries c)) =
     (case fmlookup (Obfuscation c) key of None \<Rightarrow> [] | Some v \<Rightarrow> [uapiValue key v])"
    by (simp add: sections_ipc_entries entries_of_obfuscation)
qed

lemma device_names:
  "fst ` set (device_section (ipc_entries c)) \<subseteq> insert ''private_key'' (uapiName ` set obfuscationKeys)"
  using obfuscation_names [of c] by (auto simp: sections_ipc_entries ipcKeys_obfuscationKeys)

lemma sections_append: "device_section es @ peer_section es = es"
  by (simp add: device_section_def peer_section_def)

end
