(* ===== verification/Awg_Properties.thy ===== *)
theory Awg_Properties
  imports Awg_Uapi
begin

text \<open>
  The properties of the configuration reader and of its rendering, with a sample configuration
  the witnesses evaluate.
\<close>

section \<open>A sample configuration\<close>

definition sample_key :: string where
  "sample_key = ''AQEBAQEBAQEBAQEBAQEBAQEBAQEBAQEBAQEBAQEBAQE=''"

definition sample_hex :: string where
  "sample_hex = concat (replicate 32 ''01'')"

definition private_line :: string where "private_line = ''PrivateKey='' @ sample_key"
definition public_line :: string where "public_line = ''PublicKey='' @ sample_key"

definition sample_lines :: "string list" where
  "sample_lines =
     [''[Interface]'', private_line, ''Address = 10.0.0.2/32'', ''Jc=4'',
      ''RandomTrailers = On'', ''[Peer]'', public_line, ''Endpoint=h:1'']"

definition sample_text :: string where
  "sample_text = concat (map (\<lambda>l. l @ [newline]) sample_lines)"

definition sample_config :: Config where
  "sample_config =
     \<lparr>PrivateKey = sample_hex, Addresses = [V4 10 0 0 2], MTU = 1420, DNS = [],
      Obfuscation = fmupd ''randomtrailers'' ''On'' (fmupd ''jc'' ''4'' fmempty),
      peer = \<lparr>PublicKey = sample_hex, PresharedKey = [], Endpoint = ''h:1'', AllowedIPs = [],
        Keepalive = 0\<rparr>\<rparr>"

lemma keyToHex_sample: "keyToHex sample_key = Inr sample_hex"
proof -
  have r32: "replicate 32 (1::byte) =
      [1,1,1,1,1,1,1,1,1,1,1,1,1,1,1,1,1,1,1,1,1,1,1,1,1,1,1,1,1,1,1,1]"
    by (simp add: numeral_eq_Suc)
  have digits: "hex_char 0 = CHR ''0''" "hex_char (Suc 0) = CHR ''1''" by code_simp+
  have "b64_encode (replicate 32 1) = sample_key"
    unfolding r32 sample_key_def by (simp add: b64_char_def char_of_def bit_0)
  moreover have "hex_encode (replicate n 1) = concat (replicate n ''01'')" for n
    by (induction n) (simp_all add: digits)
  ultimately show ?thesis
    using keyToHex_encode [of "replicate 32 1"] by (simp add: sample_hex_def)
qed

lemma sample_hex_neq_Nil [simp]: "sample_hex \<noteq> []"
  by (simp add: sample_hex_def numeral_eq_Suc)

lemma sample_section:
  "parseLine (n, ''[Interface]'') st = Inr (''interface'', snd st)"
  "parseLine (n, ''[Peer]'') st = Inr (''peer'', snd st)"
proof -
  have "\<not> skipped (TrimSpace ''[Interface]'')" "header (TrimSpace ''[Interface]'')"
    "ToLower (Trim (TrimSpace ''[Interface]'') ''[]'') = ''interface''"
    "\<not> skipped (TrimSpace ''[Peer]'')" "header (TrimSpace ''[Peer]'')"
    "ToLower (Trim (TrimSpace ''[Peer]'') ''[]'') = ''peer''" by code_simp+
  then show "parseLine (n, ''[Interface]'') st = Inr (''interface'', snd st)"
    "parseLine (n, ''[Peer]'') st = Inr (''peer'', snd st)"
    by (simp_all add: parseLine_header)
qed

text \<open>What a sample assignment is for \<open>parseLine\<close>: the key and the value it cuts.\<close>

definition cuts_to :: "string \<Rightarrow> string \<Rightarrow> string \<Rightarrow> bool" where
  "cuts_to raw key v \<longleftrightarrow>
     \<not> header (TrimSpace raw) \<and> \<not> skipped (TrimSpace raw) \<and>
     map_option (\<lambda>(k, w). (ToLower (TrimSpace k), TrimSpace w)) (Cut (CHR ''='') (TrimSpace raw)) =
       Some (key, v)"

lemma parseLine_cuts_to:
  "cuts_to raw key v \<Longrightarrow> parseLine (n, raw) st = wrapE (AtLine (n + 1)) (assign key v st)"
  by (auto simp: cuts_to_def parseLine_assign)

lemma sample_cuts:
  "cuts_to private_line ''privatekey'' sample_key"
  "cuts_to ''Address = 10.0.0.2/32'' ''address'' ''10.0.0.2/32''"
  "cuts_to ''Jc=4'' ''jc'' ''4''"
  "cuts_to ''RandomTrailers = On'' ''randomtrailers'' ''On''"
  "cuts_to public_line ''publickey'' sample_key"
  "cuts_to ''Endpoint=h:1'' ''endpoint'' ''h:1''"
  by code_simp+

lemma sample_address: "parseAddrList ''10.0.0.2/32'' = Inr [V4 10 0 0 2]"
  by code_simp

lemma sample_lines_Split: "Split newline sample_text = sample_lines @ [[]]"
proof -
  have "list_all (\<lambda>l. newline \<notin> set l) sample_lines" by code_simp
  then show ?thesis
    unfolding sample_text_def by (intro Split_lines) (simp add: list_all_iff)
qed

lemma sample_not_interface [simp]:
  "setInterface ''privatekey'' sample_key c = Inr (c\<lparr>PrivateKey := sample_hex\<rparr>)"
  "setInterface ''address'' ''10.0.0.2/32'' c = Inr (c\<lparr>Addresses := Addresses c @ [V4 10 0 0 2]\<rparr>)"
  "setInterface ''jc'' v c = Inr (c\<lparr>Obfuscation := fmupd ''jc'' v (Obfuscation c)\<rparr>)"
  "setInterface ''randomtrailers'' v c =
     Inr (c\<lparr>Obfuscation := fmupd ''randomtrailers'' v (Obfuscation c)\<rparr>)"
  "Peer_set ''publickey'' sample_key p = Inr (p\<lparr>PublicKey := sample_hex\<rparr>)"
  "Peer_set ''endpoint'' v p = Inr (p\<lparr>Endpoint := v\<rparr>)"
  by (simp_all add: setInterface_def SetObfuscation_def Peer_set_def obfuscationKeys_def
      keyToHex_sample sample_address)

lemma sample_lines_fold:
  "foldE parseLine (List.enumerate 0 (sample_lines @ [[]])) ([], empty_Config) =
     Inr (''peer'', sample_config)"
  by (simp add: sample_lines_def sample_section parseLine_cuts_to [OF sample_cuts(1)]
      parseLine_cuts_to [OF sample_cuts(2)] parseLine_cuts_to [OF sample_cuts(3)]
      parseLine_cuts_to [OF sample_cuts(4)] parseLine_cuts_to [OF sample_cuts(5)]
      parseLine_cuts_to [OF sample_cuts(6)] assign_def parseLine_skipped skipped_def
      TrimSpace_def TrimRightSpace_def TrimLeftSpace_def strip_words_none
      sample_config_def empty_Config_def empty_Peer_def)

lemma sample_parses: "ParseConfig sample_text = Inr sample_config"
  by (simp add: ParseConfig_def sample_lines_Split sample_lines_fold)
    (simp add: sample_config_def)

section \<open>What the reader returns\<close>

text \<open>
  A configuration \<^verbatim>\<open>ParseConfig\<close> returns is complete and in the form the device reads:
  the private and the public key are 64 hexadecimal digits, and so are the preshared key and the
  header protection key where they are given; only known obfuscation parameters are stored; there
  is an address; the integers are in range; and nothing that is rendered contains a newline.
\<close>

theorem ParseConfig_wf:
  "ParseConfig s = Inr c \<Longrightarrow>
     is_hex_key (PrivateKey c) \<and> is_hex_key (PublicKey (peer c)) \<and>
     (PresharedKey (peer c) \<noteq> [] \<longrightarrow> is_hex_key (PresharedKey (peer c))) \<and>
     Addresses c \<noteq> [] \<and> wf_config c \<and> newline_free c"
  using ParseConfig_wf_config [of s c] ParseConfig_newline_free [of s c]
  by (auto simp: wf_config_def config_inv_def)

theorem ParseConfig_wf_witness:
  "is_hex_key (PrivateKey sample_config) \<and> newline_free sample_config"
  using ParseConfig_wf [OF sample_parses] by blast

text \<open>
  C1: Reading the rendering of a parsed configuration the way the device does gives two sections.
  In the device's, the private key and every stored obfuscation parameter stand exactly once under
  the device's name, and no other parameter does; from \<^verbatim>\<open>public_key\<close> on stand the peer's key,
  its preshared key, endpoint, allowed addresses and keepalive interval, each as often as it was
  configured.  So no value of a \<^verbatim>\<open>.conf\<close> can put an entry of its own into the document.
\<close>

theorem IPC_read_back:
  assumes "ParseConfig s = Inr c"
  shows "\<exists>es. uapi_read (IPC c) = Some es \<and> es = device_section es @ peer_section es \<and>
     fst ` set (device_section es) \<subseteq> insert ''private_key'' (uapiName ` set obfuscationKeys) \<and>
     entries_of ''private_key'' (device_section es) = [PrivateKey c] \<and>
     (\<forall>key \<in> set obfuscationKeys. entries_of (uapiName key) (device_section es) =
        (case fmlookup (Obfuscation c) key of None \<Rightarrow> [] | Some v \<Rightarrow> [uapiValue key v])) \<and>
     map fst (take 1 (peer_section es)) = [''public_key''] \<and>
     entries_of ''public_key'' (peer_section es) = [PublicKey (peer c)] \<and>
     entries_of ''preshared_key'' (peer_section es) =
       filter (\<lambda>v. v \<noteq> []) [PresharedKey (peer c)] \<and>
     entries_of ''endpoint'' (peer_section es) = filter (\<lambda>v. v \<noteq> []) [Endpoint (peer c)] \<and>
     entries_of ''allowed_ip'' (peer_section es) = AllowedIPs (peer c) \<and>
     map ParseInt64 (entries_of ''persistent_keepalive_interval'' (peer_section es)) =
       (if 0 < Keepalive (peer c) then [Some (Keepalive (peer c))] else []) \<and>
     fst ` set (peer_section es) \<subseteq> set reserved"
proof -
  have inv: "wf_config c" "newline_free c"
    using assms ParseConfig_wf_config ParseConfig_newline_free by blast+
  have read: "uapi_read (IPC c) = Some (ipc_entries c)"
    using inv(2) by (rule IPC_read)
  have keepalive: "ParseInt64 (Itoa (Keepalive (peer c))) = Some (Keepalive (peer c))"
    using inv(1) by (intro ParseInt64_Itoa) (simp add: wf_config_def config_inv_def)
  show ?thesis
    unfolding read
    by (intro exI [of _ "ipc_entries c"] conjI ballI refl device_names entries_of_device
        sections_append [symmetric])
      (simp_all only: sections_append sections_ipc_entries(2) entries_of_peer peer_entries_names,
        simp_all add: keepalive)
qed

theorem IPC_read_back_witness:
  "\<exists>es. uapi_read (IPC sample_config) = Some es \<and>
     entries_of ''random_trailers'' (device_section es) = [''true'']"
proof -
  have "uapiName ''randomtrailers'' = ''random_trailers''"
    "uapiValue ''randomtrailers'' ''On'' = ''true''" "''randomtrailers'' \<in> set obfuscationKeys"
    by code_simp+
  then show ?thesis
    using IPC_read_back [OF sample_parses] by (force simp: sample_config_def)
qed

text \<open>
  A blank line and a comment line change nothing: a \<^verbatim>\<open>.conf\<close> with such a line put between
  two others parses exactly when it did without, and to the same configuration.
\<close>

theorem ParseConfig_comment_line:
  assumes "skipped (TrimSpace l)" and "newline \<notin> set l"
  shows "ParseConfig (a @ newline # l @ newline # b) = Inr c \<longleftrightarrow> ParseConfig (a @ newline # b) = Inr c"
proof -
  have "Split newline (a @ newline # l @ newline # b) = Split newline a @ l # Split newline b"
    using assms(2) by (simp add: Split_append Split_no_sep)
  then show ?thesis
    using assms(1) by (simp add: ParseConfig_def Split_append parse_lines_skip)
qed

theorem ParseConfig_comment_line_witness:
  "\<forall>c. ParseConfig (''[Interface]'' @ newline # '' # PrivateKey=x'' @ newline # ''[Peer]'') = Inr c \<longleftrightarrow>
   ParseConfig (''[Interface]'' @ newline # ''[Peer]'') = Inr c"
proof
  have "skipped (TrimSpace '' # PrivateKey=x'')" "newline \<notin> set '' # PrivateKey=x''"
    by code_simp+
  then show "ParseConfig (''[Interface]'' @ newline # '' # PrivateKey=x'' @ newline # ''[Peer]'') = Inr c \<longleftrightarrow>
      ParseConfig (''[Interface]'' @ newline # ''[Peer]'') = Inr c" for c
    by (rule ParseConfig_comment_line)
qed

text \<open>
  The line number of an error is right: all lines before it were read without an error, and the
  line it names is the one that was rejected, which is neither blank nor a comment nor a section
  header.  An error without a line number says that a required part is missing, and is reported
  only when every line has been read.
\<close>

theorem ParseConfig_error_line:
  assumes "ParseConfig s = Inl err"
  shows "(\<exists>i e st. i < length (Split newline s) \<and> err = AtLine (i + 1) e \<and>
        foldE parseLine (List.enumerate 0 (take i (Split newline s))) ([], empty_Config) = Inr st \<and>
        parseLine (i, Split newline s ! i) st = Inl err \<and>
        \<not> skipped (TrimSpace (Split newline s ! i)) \<and> \<not> header (TrimSpace (Split newline s ! i))) \<or>
     (\<exists>sec c. foldE parseLine (List.enumerate 0 (Split newline s)) ([], empty_Config) = Inr (sec, c) \<and>
        (err = NoPrivateKey \<and> PrivateKey c = [] \<or> err = NoPublicKey \<and> PublicKey (peer c) = [] \<or>
         err = NoAddress \<and> Addresses c = []))"
proof (cases "foldE parseLine (List.enumerate 0 (Split newline s)) ([], empty_Config)")
  case (Inl e)
  then have "e = err" using assms by (simp add: ParseConfig_def)
  with foldE_Inl [OF Inl] obtain i st where i: "i < length (Split newline s)"
    "foldE parseLine (take i (List.enumerate 0 (Split newline s))) ([], empty_Config) = Inr st"
    "parseLine (List.enumerate 0 (Split newline s) ! i) st = Inl err"
    unfolding length_enumerate by blast
  then have "parseLine (i, Split newline s ! i) st = Inl err"
    by (simp add: nth_enumerate_eq)
  moreover obtain e where "err = AtLine (i + 1) e" "\<not> skipped (TrimSpace (Split newline s ! i))"
    "\<not> header (TrimSpace (Split newline s ! i))"
    using parseLine_Inl [OF calculation] by blast
  ultimately show ?thesis
    using i(1,2) unfolding take_enumerate by (intro disjI1 exI [of _ i] exI [of _ e] exI [of _ st]) simp
next
  case (Inr st)
  obtain sec c where "st = (sec, c)" by (cases st)
  with Inr show ?thesis
    using assms by (intro disjI2 exI [of _ sec] exI [of _ c]) (auto simp: ParseConfig_def split: if_splits)
qed

theorem ParseConfig_error_line_witness:
  "\<exists>st. parseLine (0, ''x'') st = Inl (AtLine 1 (ExpectedKeyValue ''x''))"
proof -
  have "ParseConfig ''x'' = Inl (AtLine 1 (ExpectedKeyValue ''x''))"
    "Split newline ''x'' = [''x'']" by code_simp+
  with ParseConfig_error_line [of "''x''"] show ?thesis by auto
qed

text \<open>
  What \<^verbatim>\<open>uapiValue\<close> hands the device for a flag.  The words a \<^verbatim>\<open>.conf\<close> uses, in any
  case and with any white space around them, become values \<^verbatim>\<open>strconv.ParseBool\<close> reads as meant;
  a value the device could read already keeps its meaning; and any other value is passed on
  unchanged, so that a value nobody wrote never reaches the device.
\<close>

theorem uapiValue_flags:
  assumes "key \<in> {''randomtrailers'', ''disablecookies''}"
  shows "(ToLower (TrimSpace v) \<in> {''on'', ''true'', ''1'', ''yes''} \<longrightarrow>
       ParseBool (uapiValue key v) = Some True) \<and>
     (ToLower (TrimSpace v) \<in> {''off'', ''false'', ''0'', ''no''} \<longrightarrow>
       ParseBool (uapiValue key v) = Some False) \<and>
     (\<forall>b. ParseBool v = Some b \<longrightarrow> ParseBool (uapiValue key v) = Some b) \<and>
     (ToLower (TrimSpace v) \<notin> {''on'', ''true'', ''1'', ''yes'', ''off'', ''false'', ''0'', ''no''} \<longrightarrow>
       uapiValue key v = v)"
proof -
  have flag: "key = ''randomtrailers'' \<or> key = ''disablecookies''" using assms by simp
  have "\<forall>k \<in> set [''randomtrailers'', ''disablecookies'']. \<forall>w \<in> set [''1'', ''t'', ''T'', ''true'',
      ''TRUE'', ''True'', ''0'', ''f'', ''F'', ''false'', ''FALSE'', ''False''].
      ParseBool (uapiValue k w) = ParseBool w"
    by code_simp
  then have "ParseBool (uapiValue key w) = ParseBool w" if "w \<in> set [''1'', ''t'', ''T'', ''true'',
      ''TRUE'', ''True'', ''0'', ''f'', ''F'', ''false'', ''FALSE'', ''False'']" for w
    using flag that by (metis list.set_intros)
  moreover have "v \<in> set [''1'', ''t'', ''T'', ''true'', ''TRUE'', ''True'', ''0'', ''f'', ''F'',
      ''false'', ''FALSE'', ''False'']" if "ParseBool v = Some b" for b
    using that unfolding ParseBool_def by (simp split: if_splits; argo)
  ultimately have keep: "\<forall>b. ParseBool v = Some b \<longrightarrow> ParseBool (uapiValue key v) = Some b"
    by metis
  have bools: "ParseBool ''true'' = Some True" "ParseBool ''false'' = Some False" by code_simp+
  have "uapiValue key v =
     (if ToLower (TrimSpace v) \<in> {''on'', ''true'', ''1'', ''yes''} then ''true''
      else if ToLower (TrimSpace v) \<in> {''off'', ''false'', ''0'', ''no''} then ''false'' else v)"
    unfolding uapiValue_def Let_def list.set using flag by argo
  moreover have "ToLower (TrimSpace v) \<notin> {''on'', ''true'', ''1'', ''yes''}"
    if "ToLower (TrimSpace v) \<in> {''off'', ''false'', ''0'', ''no''}"
    using that by (elim insertE) simp_all
  ultimately show ?thesis using keep bools by simp
qed

theorem uapiValue_flags_witness: "ParseBool (uapiValue ''disablecookies'' '' Yes'') = Some True"
proof -
  have "ToLower (TrimSpace '' Yes'') \<in> {''on'', ''true'', ''1'', ''yes''}" by code_simp
  with uapiValue_flags [of "''disablecookies''" "'' Yes''"] show ?thesis by blast
qed

end
