(* ===== verification/Rtt.thy ===== *)
theory Rtt
  imports Go_Netip "HOL-Library.Monad_Syntax"
begin

unbundle bit_operations_syntax

text \<open>
  \<^verbatim>\<open>core/internal/rtt/rtt.go\<close> and \<^verbatim>\<open>rtttest/rtttest.go\<close>: the meter that takes round
  trips from the packets of the tunnel.  A function of the source that indexes a slice is an option
  computation here, \<open>None\<close> being a run-time panic.  The clock the source reads is an argument, the
  instant of the call.
\<close>

section \<open>Slices and numbers in network order\<close>

text \<open>\<^verbatim>\<open>p[i]\<close> and \<^verbatim>\<open>p[i:j]\<close>; out of range is a panic.\<close>

definition index :: "'a list \<Rightarrow> nat \<Rightarrow> 'a option" where
  "index p i = (if i < length p then Some (p ! i) else None)"

definition slice :: "'a list \<Rightarrow> nat \<Rightarrow> nat \<Rightarrow> 'a list option" where
  "slice p i j = (if i \<le> j \<and> j \<le> length p then Some (take (j - i) (drop i p)) else None)"

fun Uint16 :: "bytes \<Rightarrow> 16 word" where
  "Uint16 (a # b # _) = push_bit 8 (ucast a) OR ucast b"
| "Uint16 _ = 0"

fun Uint32 :: "bytes \<Rightarrow> 32 word" where
  "Uint32 (a # b # c # d # _) =
     push_bit 24 (ucast a) OR push_bit 16 (ucast b) OR push_bit 8 (ucast c) OR ucast d"
| "Uint32 _ = 0"

definition PutUint16 :: "16 word \<Rightarrow> bytes" where
  "PutUint16 v = [ucast (drop_bit 8 v), ucast v]"

definition PutUint32 :: "32 word \<Rightarrow> bytes" where
  "PutUint32 v = [ucast (drop_bit 24 v), ucast (drop_bit 16 v), ucast (drop_bit 8 v), ucast v]"

lemma Uint16_Put [simp]: "Uint16 (PutUint16 v) = v"
  by (rule bit_word_eqI) (auto simp: PutUint16_def bit_simps)

lemma Uint32_Put [simp]: "Uint32 (PutUint32 v) = v"
proof (rule bit_word_eqI)
  fix n assume "n < LENGTH(32)"
  then have "n < 32" by simp
  then consider "n < 8" | "8 \<le> n" "n < 16" | "16 \<le> n" "n < 24" | "24 \<le> n" "n < 32"
    by linarith
  then show "bit (Uint32 (PutUint32 v)) n = bit v n"
    by cases (auto simp: PutUint32_def bit_simps)
qed

lemma length_Put [simp]: "length (PutUint16 v) = 2" "length (PutUint32 w) = 4"
  by (simp_all add: PutUint16_def PutUint32_def)

lemma index_less [simp]: "i < length p \<Longrightarrow> index p i = Some (p ! i)"
  by (simp add: index_def)

lemma slice_within [simp]:
  "i \<le> j \<Longrightarrow> j \<le> length p \<Longrightarrow> slice p i j = Some (take (j - i) (drop i p))"
  by (simp add: slice_def)

section \<open>Constants\<close>

definition Window :: duration where "Window = 10 * seconds"
definition pendingFor :: duration where "pendingFor = 5 * seconds"
definition maxPending :: nat where "maxPending = 512"
definition maxSamples :: nat where "maxSamples = 256"
definition flagSYN :: byte where "flagSYN = 0x02"
definition flagACK :: byte where "flagACK = 0x10"

section \<open>Packets\<close>

record flow =
  local_addr :: addr
  remote_addr :: addr
  localPort :: "16 word"
  remotePort :: "16 word"

record header =
  hdr_flow :: flow
  hdr_flags :: byte
  hdr_seq :: "32 word"
  hdr_ack :: "32 word"

text \<open>\<^verbatim>\<open>netip.AddrFrom4\<close> and \<^verbatim>\<open>AddrFrom16\<close> on the bytes of a slice.\<close>

definition AddrFrom4 :: "bytes \<Rightarrow> addr" where
  "AddrFrom4 bs = V4 (bs ! 0) (bs ! 1) (bs ! 2) (bs ! 3)"

definition AddrFrom16 :: "bytes \<Rightarrow> addr" where
  "AddrFrom16 bs = V6 bs []"

text \<open>
  The transport part of a packet: the addresses and the segment, or nothing when the packet is not
  one the meter reads.
\<close>

definition parse_ip :: "bytes \<Rightarrow> (addr \<times> addr \<times> bytes) option option" where
  "parse_ip p =
     (if length p < 1 then Some None
      else do {
        b0 \<leftarrow> index p 0;
        let version = drop_bit 4 b0;
        if version = 4 then
          if length p < 20 then Some None
          else do {
            let ihl = unat (b0 AND 0x0f) * 4;
            total \<leftarrow> map_option (unat \<circ> Uint16) (slice p 2 4);
            b9 \<leftarrow> index p 9;
            frag \<leftarrow> map_option Uint16 (slice p 6 8);
            if ihl < 20 \<or> ihl > length p \<or> b9 \<noteq> 6 \<or> frag AND 0x1fff \<noteq> 0 then Some None
            else do {
              let total = (if total > length p \<or> total < ihl then length p else total);
              l \<leftarrow> slice p 12 16;
              r \<leftarrow> slice p 16 20;
              segment \<leftarrow> slice p ihl total;
              Some (Some (AddrFrom4 l, AddrFrom4 r, segment))
            }
          }
        else if version = 6 then
          if length p < 40 then Some None
          else do {
            b6 \<leftarrow> index p 6;
            if b6 \<noteq> 6 then Some None
            else do {
              l \<leftarrow> slice p 8 24;
              r \<leftarrow> slice p 24 40;
              segment \<leftarrow> slice p 40 (length p);
              Some (Some (AddrFrom16 l, AddrFrom16 r, segment))
            }
          }
        else Some None
      })"

definition parseTCP :: "bytes \<Rightarrow> header option option" where
  "parseTCP p = do {
     ip \<leftarrow> parse_ip p;
     (case ip of
        None \<Rightarrow> Some None
      | Some (l, r, segment) \<Rightarrow>
          if length segment < 20 then Some None
          else do {
            lp \<leftarrow> map_option Uint16 (slice segment 0 2);
            rp \<leftarrow> map_option Uint16 (slice segment 2 4);
            seq \<leftarrow> map_option Uint32 (slice segment 4 8);
            ack \<leftarrow> map_option Uint32 (slice segment 8 12);
            flags \<leftarrow> index segment 13;
            Some (Some \<lparr>hdr_flow = \<lparr>local_addr = l, remote_addr = r, localPort = lp, remotePort = rp\<rparr>,
                        hdr_flags = flags, hdr_seq = seq, hdr_ack = ack\<rparr>)
          })
   }"

section \<open>The meter\<close>

record syn =
  syn_at :: instant
  syn_seq :: "32 word"
  again :: bool

record sample =
  sample_at :: instant
  rtt :: duration

record Meter =
  pending :: "(flow, syn) fmap"
  samples :: "sample list"
  last_rtt :: duration
  seen :: bool

definition New :: Meter where
  "New = \<lparr>pending = fmempty, samples = [], last_rtt = 0, seen = False\<rparr>"

text \<open>The loop \<^verbatim>\<open>least := samples[0].rtt; for ... least = min(least, s.rtt)\<close>.\<close>

definition least_rtt :: "sample list \<Rightarrow> duration" where
  "least_rtt ss = fold (\<lambda>s least. min least (rtt s)) (tl ss) (rtt (hd ss))"

definition expireLocked :: "instant \<Rightarrow> Meter \<Rightarrow> Meter" where
  "expireLocked now m =
     (let keep = filter (\<lambda>s. time_sub now (sample_at s) \<le> Window) (samples m)
      in m\<lparr>last_rtt := (if keep = [] \<and> samples m \<noteq> [] then least_rtt (samples m) else last_rtt m),
           samples := keep,
           pending := fmfilter
             (\<lambda>f. (case fmlookup (pending m) f of
                      None \<Rightarrow> True
                    | Some s \<Rightarrow> \<not> time_sub now (syn_at s) > pendingFor))
             (pending m)\<rparr>)"

lemma expireLocked_eq:
  "expireLocked now m =
     (let keep = filter (\<lambda>s. time_sub now (sample_at s) \<le> Window) (samples m)
      in m\<lparr>last_rtt := (if keep = [] \<and> samples m \<noteq> [] then least_rtt (samples m) else last_rtt m),
           samples := keep,
           pending := fmfilter
             (\<lambda>f. \<forall>s. fmlookup (pending m) f = Some s \<longrightarrow> \<not> time_sub now (syn_at s) > pendingFor)
             (pending m)\<rparr>)"
proof -
  have "(\<lambda>f. (case fmlookup (pending m) f of None \<Rightarrow> True | Some s \<Rightarrow> \<not> time_sub now (syn_at s) > pendingFor)) =
      (\<lambda>f. \<forall>s. fmlookup (pending m) f = Some s \<longrightarrow> \<not> time_sub now (syn_at s) > pendingFor)"
    by (auto split: option.split)
  then show ?thesis by (simp only: expireLocked_def)
qed

text \<open>\<^verbatim>\<open>Latency\<close>: the figure, if there is one, and the meter it leaves.\<close>

definition Latency :: "instant \<Rightarrow> Meter \<Rightarrow> duration option \<times> Meter" where
  "Latency now m =
     (if \<not> seen m then (None, m)
      else let m' = expireLocked now m in
        if samples m' = [] then (Some (last_rtt m'), m')
        else (let least = least_rtt (samples m') in (Some least, m'\<lparr>last_rtt := least\<rparr>)))"

definition Forget :: "Meter \<Rightarrow> Meter" where
  "Forget m = m\<lparr>samples := [], seen := False, last_rtt := 0\<rparr>"

text \<open>\<^verbatim>\<open>Milliseconds\<close>; a nil meter is \<open>None\<close>.\<close>

definition Milliseconds :: "instant \<Rightarrow> Meter option \<Rightarrow> int \<times> Meter option" where
  "Milliseconds now mo =
     (case mo of
        None \<Rightarrow> (0, None)
      | Some m \<Rightarrow>
          (case Latency now m of
             (None, m') \<Rightarrow> (0, Some m')
           | (Some latency, m') \<Rightarrow> (max (Milliseconds_of latency) 1, Some m')))"

definition Outbound :: "instant \<Rightarrow> bytes \<Rightarrow> Meter \<Rightarrow> Meter option" where
  "Outbound now packet m = do {
     h \<leftarrow> parseTCP packet;
     Some (case h of
        None \<Rightarrow> m
      | Some h \<Rightarrow>
          if hdr_flags h AND (flagSYN OR flagACK) \<noteq> flagSYN then m
          else (case fmlookup (pending m) (hdr_flow h) of
             Some earlier \<Rightarrow> m\<lparr>pending := fmupd (hdr_flow h) (earlier\<lparr>again := True\<rparr>) (pending m)\<rparr>
           | None \<Rightarrow>
               (let record_syn = (\<lambda>m. m\<lparr>pending := fmupd (hdr_flow h)
                      \<lparr>syn_at = now, syn_seq = hdr_seq h, again = False\<rparr> (pending m)\<rparr>) in
                if map_len (pending m) \<ge> maxPending then
                  (let m' = expireLocked now m in
                   if map_len (pending m') \<ge> maxPending then m' else record_syn m')
                else record_syn m)))
   }"

definition swap_flow :: "flow \<Rightarrow> flow" where
  "swap_flow f =
     \<lparr>local_addr = remote_addr f, remote_addr = local_addr f,
      localPort = remotePort f, remotePort = localPort f\<rparr>"

definition push_sample :: "sample \<Rightarrow> sample list \<Rightarrow> sample list" where
  "push_sample s ss = (if length ss = maxSamples then tl ss else ss) @ [s]"

definition Inbound :: "instant \<Rightarrow> bytes \<Rightarrow> Meter \<Rightarrow> Meter option" where
  "Inbound now packet m = do {
     h \<leftarrow> parseTCP packet;
     Some (case h of
        None \<Rightarrow> m
      | Some h \<Rightarrow>
          if hdr_flags h AND (flagSYN OR flagACK) \<noteq> flagSYN OR flagACK then m
          else (let f = swap_flow (hdr_flow h) in
            (case fmlookup (pending m) f of
               None \<Rightarrow> m
             | Some sent \<Rightarrow>
                 (let m' = m\<lparr>pending := fmdrop f (pending m)\<rparr>; d = time_sub now (syn_at sent) in
                  if again sent \<or> hdr_ack h \<noteq> syn_seq sent + 1 then m'
                  else if d \<le> 0 \<or> d > pendingFor then m'
                  else m'\<lparr>samples := push_sample \<lparr>sample_at = now, rtt = d\<rparr> (samples m'), seen := True\<rparr>))))
   }"

section \<open>The device\<close>

text \<open>
  \<^verbatim>\<open>Device.Read\<close> after the wrapped device has filled the buffers: it returned \<open>n\<close>, and the
  loop shows the meter each packet.  \<^verbatim>\<open>Device.Write\<close> before the wrapped device is called.
  Offsets and sizes are Go integers.
\<close>

fun read_loop :: "instant \<Rightarrow> int \<Rightarrow> int \<Rightarrow> bytes list \<Rightarrow> int list \<Rightarrow> Meter \<Rightarrow> Meter option" where
  "read_loop now n off (buf # bufs) (sz # szs) m =
     (if n \<le> 0 then Some m
      else do {
        m' \<leftarrow> (if 0 < sz \<and> off + sz \<le> int (length buf)
               then (if off < 0 then None
                     else do { p \<leftarrow> slice buf (nat off) (nat (off + sz)); Outbound now p m })
               else Some m);
        read_loop now (n - 1) off bufs szs m'
      })"
| "read_loop now n off _ _ m = Some m"

definition Device_Read ::
  "instant \<Rightarrow> int \<times> 'err \<Rightarrow> bytes list \<Rightarrow> int list \<Rightarrow> int \<Rightarrow> Meter \<Rightarrow> ((int \<times> 'err) \<times> Meter) option" where
  "Device_Read now r bufs sizes off m = do {
     m' \<leftarrow> read_loop now (fst r) off bufs sizes m;
     Some (r, m')
   }"

fun write_loop :: "instant \<Rightarrow> int \<Rightarrow> bytes list \<Rightarrow> Meter \<Rightarrow> Meter option" where
  "write_loop now off [] m = Some m"
| "write_loop now off (buf # bufs) m = do {
     m' \<leftarrow> (if off < int (length buf)
            then (if off < 0 then None
                  else do { p \<leftarrow> slice buf (nat off) (length buf); Inbound now p m })
            else Some m);
     write_loop now off bufs m'
   }"

definition Device_Write ::
  "instant \<Rightarrow> (bytes list \<Rightarrow> int \<Rightarrow> int \<times> 'err) \<Rightarrow> bytes list \<Rightarrow> int \<Rightarrow> Meter \<Rightarrow>
     ((int \<times> 'err) \<times> Meter) option" where
  "Device_Write now inner bufs off m = do {
     m' \<leftarrow> write_loop now off bufs m;
     Some (inner bufs off, m')
   }"

section \<open>The packets of the tests\<close>

text \<open>\<^verbatim>\<open>rtttest.packet\<close> and \<^verbatim>\<open>rtttest.Connect\<close>, the two calls at instants \<open>t1\<close> and \<open>t2\<close>.\<close>

definition packet ::
  "bytes \<Rightarrow> bytes \<Rightarrow> 16 word \<Rightarrow> 16 word \<Rightarrow> byte \<Rightarrow> 32 word \<Rightarrow> 32 word \<Rightarrow> bytes" where
  "packet src dst sport dport flags seq ack =
     [0x45, 0] @ PutUint16 40 @ [0, 0, 0, 0, 0, 6, 0, 0] @ src @ dst
     @ PutUint16 sport @ PutUint16 dport @ PutUint32 seq @ PutUint32 ack
     @ [push_bit 4 5, flags, 0, 0, 0, 0, 0, 0]"

definition Connect :: "instant \<Rightarrow> instant \<Rightarrow> Meter \<Rightarrow> Meter option" where
  "Connect t1 t2 m = do {
     m1 \<leftarrow> Outbound t1 (packet [10, 8, 1, 2] [1, 1, 1, 1] 50000 443 0x02 1000 0) m;
     Inbound t2 (packet [1, 1, 1, 1] [10, 8, 1, 2] 443 50000 0x12 9000 1001) m1
   }"


section \<open>Reading a packet\<close>

lemma parse_ip_total: "parse_ip p \<noteq> None"
  by (simp add: parse_ip_def Let_def)

lemma parseTCP_total: "parseTCP p \<noteq> None"
  using parse_ip_total [of p] by (auto simp: parseTCP_def split: option.split)

definition tcp_header :: "bytes \<Rightarrow> header option" where
  "tcp_header p = the (parseTCP p)"

lemma parseTCP_eq: "parseTCP p = Some (tcp_header p)"
  using parseTCP_total [of p] by (auto simp: tcp_header_def)

text \<open>The packets that matter: a SYN, with its flow and number, and a SYN-ACK, with the flow it
  answers and the number it acknowledges.\<close>

definition syn_of :: "bytes \<Rightarrow> (flow \<times> 32 word) option" where
  "syn_of p =
     (case tcp_header p of
        None \<Rightarrow> None
      | Some h \<Rightarrow> if hdr_flags h AND (flagSYN OR flagACK) = flagSYN
                  then Some (hdr_flow h, hdr_seq h) else None)"

definition synack_of :: "bytes \<Rightarrow> (flow \<times> 32 word) option" where
  "synack_of p =
     (case tcp_header p of
        None \<Rightarrow> None
      | Some h \<Rightarrow> if hdr_flags h AND (flagSYN OR flagACK) = flagSYN OR flagACK
                  then Some (swap_flow (hdr_flow h), hdr_ack h) else None)"

lemma parseTCP_packet:
  assumes "length src = 4" and "length dst = 4"
  shows "parseTCP (packet src dst sport dport flags seq ack) =
    Some (Some \<lparr>hdr_flow = \<lparr>local_addr = AddrFrom4 src, remote_addr = AddrFrom4 dst,
                             localPort = sport, remotePort = dport\<rparr>,
                hdr_flags = flags, hdr_seq = seq, hdr_ack = ack\<rparr>)"
proof -
  obtain a b c d where src: "src = [a, b, c, d]"
    using assms(1) by (auto simp: numeral_eq_Suc length_Suc_conv)
  obtain e f g h where dst: "dst = [e, f, g, h]"
    using assms(2) by (auto simp: numeral_eq_Suc length_Suc_conv)
  have ip: "parse_ip (packet src dst sport dport flags seq ack) = Some (Some (AddrFrom4 src, AddrFrom4 dst,
      PutUint16 sport @ PutUint16 dport @ PutUint32 seq @ PutUint32 ack
     @ [push_bit 4 5, flags, 0, 0, 0, 0, 0, 0]))"
    by (simp add: parse_ip_def packet_def src dst PutUint16_def PutUint32_def)
  show ?thesis
    unfolding parseTCP_def ip
    using Uint16_Put [of sport] Uint16_Put [of dport] Uint32_Put [of seq] Uint32_Put [of ack]
    by (simp add: PutUint16_def PutUint32_def del: Uint16_Put Uint32_Put)
qed


section \<open>The steps of the meter\<close>

definition add_syn :: "instant \<Rightarrow> flow \<Rightarrow> 32 word \<Rightarrow> Meter \<Rightarrow> Meter" where
  "add_syn t f q m = m\<lparr>pending := fmupd f \<lparr>syn_at = t, syn_seq = q, again = False\<rparr> (pending m)\<rparr>"

definition add_sample :: "instant \<Rightarrow> duration \<Rightarrow> Meter \<Rightarrow> Meter" where
  "add_sample t d m =
     m\<lparr>samples := push_sample \<lparr>sample_at = t, rtt = d\<rparr> (samples m), seen := True\<rparr>"

interpretation window: bounded_history maxSamples push_sample
  by unfold_locales (auto simp: maxSamples_def push_sample_def)

lemma set_push_sample: "set (push_sample s ss) \<subseteq> insert s (set ss)"
  by (cases ss) (auto simp: push_sample_def)

lemma last_push_sample [simp]: "push_sample s ss \<noteq> []" "last (push_sample s ss) = s"
  by (simp_all add: push_sample_def)

lemma Outbound_eq:
  "Outbound t p m = Some
     (case syn_of p of
        None \<Rightarrow> m
      | Some (f, q) \<Rightarrow>
          (case fmlookup (pending m) f of
             Some earlier \<Rightarrow> m\<lparr>pending := fmupd f (earlier\<lparr>again := True\<rparr>) (pending m)\<rparr>
           | None \<Rightarrow>
               if map_len (pending m) < maxPending then add_syn t f q m
               else if map_len (pending (expireLocked t m)) < maxPending
                    then add_syn t f q (expireLocked t m) else expireLocked t m))"
  by (auto simp: Outbound_def parseTCP_eq syn_of_def add_syn_def Let_def split: option.split)

lemma Inbound_eq:
  "Inbound t p m = Some
     (case synack_of p of
        None \<Rightarrow> m
      | Some (f, a) \<Rightarrow>
          (case fmlookup (pending m) f of
             None \<Rightarrow> m
           | Some sent \<Rightarrow>
               (let m' = m\<lparr>pending := fmdrop f (pending m)\<rparr>; d = time_sub t (syn_at sent) in
                if again sent \<or> a \<noteq> syn_seq sent + 1 \<or> d \<le> 0 \<or> d > pendingFor then m'
                else add_sample t d m')))"
  by (auto simp: Inbound_def parseTCP_eq synack_of_def add_sample_def Let_def split: option.split)

lemma Outbound_cases:
  assumes "Outbound t p m = Some m'"
  obtains (ignored) "syn_of p = None" "m' = m"
  | (repeated) f q earlier where "syn_of p = Some (f, q)" "fmlookup (pending m) f = Some earlier"
      "m' = m\<lparr>pending := fmupd f (earlier\<lparr>again := True\<rparr>) (pending m)\<rparr>"
  | (added) f q m0 where "syn_of p = Some (f, q)" "fmlookup (pending m) f = None"
      "m0 = m \<or> m0 = expireLocked t m" "map_len (pending m0) < maxPending" "m' = add_syn t f q m0"
  | (full) f q where "syn_of p = Some (f, q)" "fmlookup (pending m) f = None"
      "maxPending \<le> map_len (pending m')" "m' = expireLocked t m"
proof (cases "syn_of p")
  case None
  with assms show ?thesis by (intro ignored) (simp_all add: Outbound_eq)
next
  case (Some fq)
  obtain f q where fq: "fq = (f, q)" by (cases fq)
  show ?thesis
  proof (cases "fmlookup (pending m) f")
    case None
    with Some fq assms show ?thesis
      by (auto simp: Outbound_eq not_less split: if_splits intro: added full)
  next
    case (Some earlier)
    with \<open>syn_of p = Some fq\<close> fq assms show ?thesis
      by (intro repeated) (auto simp: Outbound_eq)
  qed
qed

lemma Inbound_cases:
  assumes "Inbound t p m = Some m'"
  obtains (ignored) "m' = m"
  | (discarded) f where "m' = m\<lparr>pending := fmdrop f (pending m)\<rparr>"
  | (counted) f sent where "synack_of p = Some (f, syn_seq sent + 1)"
      "fmlookup (pending m) f = Some sent" "\<not> again sent"
      "0 < time_sub t (syn_at sent)" "time_sub t (syn_at sent) \<le> pendingFor"
      "m' = add_sample t (time_sub t (syn_at sent)) (m\<lparr>pending := fmdrop f (pending m)\<rparr>)"
proof (cases "synack_of p")
  case None
  with assms show ?thesis by (intro ignored) (simp add: Inbound_eq)
next
  case (Some fa)
  obtain f a where fa: "fa = (f, a)" by (cases fa)
  show ?thesis
  proof (cases "fmlookup (pending m) f")
    case None
    with Some fa assms show ?thesis by (intro ignored) (simp add: Inbound_eq)
  next
    case (Some sent)
    let ?d = "time_sub t (syn_at sent)"
    show ?thesis
    proof (cases "again sent \<or> a \<noteq> syn_seq sent + 1 \<or> ?d \<le> 0 \<or> ?d > pendingFor")
      case True
      with Some \<open>synack_of p = Some fa\<close> fa assms show ?thesis
        by (intro discarded [of f]) (simp add: Inbound_eq)
    next
      case False
      with Some \<open>synack_of p = Some fa\<close> fa assms show ?thesis
        by (intro counted [of f sent]) (auto simp: Inbound_eq)
    qed
  qed
qed

section \<open>The invariant of the meter\<close>

definition figure :: "duration \<Rightarrow> bool" where
  "figure d \<longleftrightarrow> 0 < d \<and> d \<le> pendingFor"

definition meter_inv :: "Meter \<Rightarrow> bool" where
  "meter_inv m \<longleftrightarrow>
     map_len (pending m) \<le> maxPending \<and> length (samples m) \<le> maxSamples \<and>
     (\<forall>s \<in> set (samples m). figure (rtt s)) \<and>
     (last_rtt m = 0 \<or> figure (last_rtt m)) \<and>
     (seen m \<longrightarrow> samples m \<noteq> [] \<or> figure (last_rtt m)) \<and>
     (samples m \<noteq> [] \<longrightarrow> seen m)"

lemma fold_min_Min: "fold (\<lambda>s least. min least (rtt s)) ss d = Min (insert d (rtt ` set ss))"
proof (induction ss arbitrary: d)
  case Nil
  then show ?case by simp
next
  case (Cons s ss)
  have "Min (insert (min d (rtt s)) (rtt ` set ss)) = Min (insert d (insert (rtt s) (rtt ` set ss)))"
    by (cases "ss = []") (simp_all add: min.assoc)
  with Cons show ?case by simp
qed

lemma least_rtt_Min: "ss \<noteq> [] \<Longrightarrow> least_rtt ss = Min (rtt ` set ss)"
  by (cases ss) (simp_all add: least_rtt_def fold_min_Min)

lemma least_rtt_in: "ss \<noteq> [] \<Longrightarrow> \<exists>s \<in> set ss. least_rtt ss = rtt s"
  using Min_in [of "rtt ` set ss"] by (metis List.finite_set finite_imageI image_iff image_is_empty
      least_rtt_Min set_empty)

lemma figure_least: "ss \<noteq> [] \<Longrightarrow> \<forall>s \<in> set ss. figure (rtt s) \<Longrightarrow> figure (least_rtt ss)"
  using least_rtt_in by fastforce

lemma meter_inv_New: "meter_inv New"
  by (simp add: meter_inv_def New_def)

lemma expireLocked_simps [simp]:
  "samples (expireLocked t m) = filter (\<lambda>s. time_sub t (sample_at s) \<le> Window) (samples m)"
  "seen (expireLocked t m) = seen m"
  by (simp_all add: expireLocked_eq Let_def)

lemma expireLocked_pending:
  "fmlookup (pending (expireLocked t m)) f =
     (case fmlookup (pending m) f of
        None \<Rightarrow> None | Some s \<Rightarrow> if time_sub t (syn_at s) > pendingFor then None else Some s)"
  by (auto simp: expireLocked_eq Let_def split: option.split)

lemma expireLocked_pending_len: "map_len (pending (expireLocked t m)) \<le> map_len (pending m)"
  by (simp add: expireLocked_eq Let_def map_len_filter_le)

lemma expireLocked_inv:
  assumes "meter_inv m" shows "meter_inv (expireLocked t m)"
proof -
  let ?keep = "filter (\<lambda>s. time_sub t (sample_at s) \<le> Window) (samples m)"
  have last: "last_rtt (expireLocked t m) =
      (if ?keep = [] \<and> samples m \<noteq> [] then least_rtt (samples m) else last_rtt m)"
    by (simp only: expireLocked_eq Let_def) simp
  have "length ?keep \<le> maxSamples"
    using assms by (meson length_filter_le meter_inv_def order_trans)
  moreover have "map_len (pending (expireLocked t m)) \<le> maxPending"
    using assms expireLocked_pending_len [of t m] by (simp add: meter_inv_def)
  moreover have "samples m \<noteq> [] \<Longrightarrow> figure (least_rtt (samples m))"
    using assms by (intro figure_least) (auto simp: meter_inv_def)
  ultimately show ?thesis
    using assms unfolding meter_inv_def last expireLocked_simps by auto
qed


text \<open>What can happen to a meter, and the meters that come of it, with the events so far.\<close>

datatype event = Out instant bytes | In instant bytes | Look instant | Drop

fun meter_step :: "event \<Rightarrow> Meter \<Rightarrow> Meter option" where
  "meter_step (Out t p) m = Outbound t p m"
| "meter_step (In t p) m = Inbound t p m"
| "meter_step (Look t) m = Some (snd (Latency t m))"
| "meter_step Drop m = Some (Forget m)"

inductive metered :: "event list \<Rightarrow> Meter \<Rightarrow> bool" where
  start: "metered [] New"
| step: "metered es m \<Longrightarrow> meter_step e m = Some m' \<Longrightarrow> metered (es @ [e]) m'"

inductive_simps metered_Nil: "metered [] m"
inductive_simps metered_snoc: "metered (es @ [e]) m"

lemma meter_step_total: "\<exists>m'. meter_step e m = Some m'"
  by (cases e) (simp_all add: Outbound_eq Inbound_eq)

lemma metered_total: "\<exists>m. metered es m"
  by (induction es rule: rev_induct) (use metered.intros meter_step_total in blast)+

lemma Latency_snd:
  "snd (Latency t m) =
     (if \<not> seen m then m
      else if samples (expireLocked t m) = [] then expireLocked t m
      else (expireLocked t m)\<lparr>last_rtt := least_rtt (samples (expireLocked t m))\<rparr>)"
  by (simp add: Latency_def Let_def)

lemma Latency_inv: "meter_inv m \<Longrightarrow> meter_inv (snd (Latency t m))"
proof -
  assume "meter_inv m"
  then have inv: "meter_inv (expireLocked t m)" by (rule expireLocked_inv)
  show ?thesis
  proof (cases "samples (expireLocked t m) = []")
    case True
    with inv \<open>meter_inv m\<close> show ?thesis by (simp add: Latency_snd)
  next
    case False
    then have "figure (least_rtt (samples (expireLocked t m)))"
      using inv by (intro figure_least) (auto simp: meter_inv_def)
    with False inv \<open>meter_inv m\<close> show ?thesis
      unfolding Latency_snd meter_inv_def by simp
  qed
qed

lemma add_syn_inv: "meter_inv m \<Longrightarrow> map_len (pending m) < maxPending \<Longrightarrow> meter_inv (add_syn t f q m)"
  using map_len_upd_le [of f "\<lparr>syn_at = t, syn_seq = q, again = False\<rparr>" "pending m"]
  by (simp add: meter_inv_def add_syn_def)

lemma add_sample_inv: "meter_inv m \<Longrightarrow> figure d \<Longrightarrow> meter_inv (add_sample t d m)"
  using window.push_length [of "samples m" "\<lparr>sample_at = t, rtt = d\<rparr>"]
    set_push_sample [of "\<lparr>sample_at = t, rtt = d\<rparr>" "samples m"]
  by (auto simp: meter_inv_def add_sample_def)

lemma fmdrop_inv: "meter_inv m \<Longrightarrow> meter_inv (m\<lparr>pending := fmdrop f (pending m)\<rparr>)"
  using map_len_drop_le [of f "pending m"] by (auto simp: meter_inv_def)

lemma Outbound_inv:
  assumes "Outbound t p m = Some m'" and "meter_inv m"
  shows "meter_inv m'"
  using assms(1)
proof (cases rule: Outbound_cases)
  case (repeated f q earlier)
  then have "map_len (fmupd f (earlier\<lparr>again := True\<rparr>) (pending m)) = map_len (pending m)"
    by (auto simp: map_len_upd fmlookup_dom_iff)
  with repeated(3) assms(2) show ?thesis by (simp add: meter_inv_def)
next
  case (added f q m0)
  then have "meter_inv m0" using assms(2) expireLocked_inv by blast
  with added show ?thesis by (simp add: add_syn_inv)
qed (use assms(2) expireLocked_inv in simp_all)

lemma Inbound_inv:
  assumes "Inbound t p m = Some m'" and "meter_inv m"
  shows "meter_inv m'"
  using assms(1)
  by (cases rule: Inbound_cases) (use assms(2) in \<open>simp_all add: fmdrop_inv add_sample_inv figure_def\<close>)

lemma Forget_inv: "meter_inv m \<Longrightarrow> meter_inv (Forget m)"
  by (simp add: meter_inv_def Forget_def)

lemma meter_step_inv: "meter_step e m = Some m' \<Longrightarrow> meter_inv m \<Longrightarrow> meter_inv m'"
  by (cases e) (auto simp: Outbound_inv Inbound_inv Latency_inv Forget_inv)

lemma metered_inv: "metered es m \<Longrightarrow> meter_inv m"
  by (induction rule: metered.induct) (auto simp: meter_inv_New dest: meter_step_inv)


section \<open>Where a sample comes from\<close>

text \<open>Event \<open>i\<close> showed the meter a SYN of the flow \<open>f\<close>, numbered \<open>q\<close>, at \<open>t\<close>.\<close>

definition sent_at :: "event list \<Rightarrow> nat \<Rightarrow> flow \<Rightarrow> 32 word \<Rightarrow> instant \<Rightarrow> bool" where
  "sent_at es i f q t \<longleftrightarrow> i < length es \<and> (\<exists>p. es ! i = Out t p \<and> syn_of p = Some (f, q))"

definition answered_at :: "event list \<Rightarrow> nat \<Rightarrow> flow \<Rightarrow> 32 word \<Rightarrow> instant \<Rightarrow> bool" where
  "answered_at es j f a t \<longleftrightarrow> j < length es \<and> (\<exists>p. es ! j = In t p \<and> synack_of p = Some (f, a))"

definition alone_between :: "event list \<Rightarrow> nat \<Rightarrow> nat \<Rightarrow> flow \<Rightarrow> bool" where
  "alone_between es i j f \<longleftrightarrow> (\<forall>k q t. i < k \<and> k < j \<longrightarrow> \<not> sent_at es k f q t)"

text \<open>A pending entry is the last SYN of its flow; a sample is a SYN with its answer.\<close>

definition pending_ok :: "event list \<Rightarrow> flow \<Rightarrow> syn \<Rightarrow> bool" where
  "pending_ok es f s \<longleftrightarrow>
     (\<exists>i. sent_at es i f (syn_seq s) (syn_at s) \<and>
          (\<not> again s \<longrightarrow> alone_between es i (length es) f))"

definition sample_ok :: "event list \<Rightarrow> sample \<Rightarrow> bool" where
  "sample_ok es s \<longleftrightarrow>
     (\<exists>i j f q t. i < j \<and> sent_at es i f q t \<and> answered_at es j f (q + 1) (sample_at s) \<and>
        alone_between es i j f \<and> rtt s = time_sub (sample_at s) t \<and> figure (rtt s))"

lemma sent_at_end [simp]: "\<not> sent_at es (length es) f q t"
  by (simp add: sent_at_def)

lemma sent_at_snoc:
  "sent_at (es @ [e]) i f q t \<longleftrightarrow>
     sent_at es i f q t \<or> i = length es \<and> (\<exists>p. e = Out t p \<and> syn_of p = Some (f, q))"
  by (auto simp: sent_at_def nth_append less_Suc_eq)

lemma answered_at_snoc:
  "answered_at (es @ [e]) i f a t \<longleftrightarrow>
     answered_at es i f a t \<or> i = length es \<and> (\<exists>p. e = In t p \<and> synack_of p = Some (f, a))"
  by (auto simp: answered_at_def nth_append less_Suc_eq)

lemma alone_between_snoc: "j \<le> length es \<Longrightarrow> alone_between (es @ [e]) i j f \<longleftrightarrow> alone_between es i j f"
  by (auto simp: alone_between_def sent_at_snoc)

lemma sample_ok_snoc: "sample_ok es s \<Longrightarrow> sample_ok (es @ [e]) s"
  unfolding sample_ok_def
  by (meson alone_between_snoc answered_at_def answered_at_snoc less_imp_le sent_at_snoc)

lemma alone_after_snoc:
  assumes "alone_between es i (length es) f" and "\<And>t p q. e = Out t p \<Longrightarrow> syn_of p \<noteq> Some (f, q)"
  shows "alone_between (es @ [e]) i (length (es @ [e])) f"
  using assms by (auto simp: alone_between_def sent_at_snoc less_Suc_eq)

lemma pending_ok_snoc:
  assumes "pending_ok es f s" and "\<And>t p q. e = Out t p \<Longrightarrow> syn_of p \<noteq> Some (f, q)"
  shows "pending_ok (es @ [e]) f s"
  using assms alone_after_snoc [OF _ assms(2)] unfolding pending_ok_def by (meson sent_at_snoc)

lemma pending_ok_again: "pending_ok es f s \<Longrightarrow> pending_ok (es @ [e]) f (s\<lparr>again := True\<rparr>)"
  by (auto simp: pending_ok_def sent_at_snoc)

lemma pending_ok_new:
  "syn_of p = Some (f, q) \<Longrightarrow>
   pending_ok (es @ [Out t p]) f \<lparr>syn_at = t, syn_seq = q, again = False\<rparr>"
  unfolding pending_ok_def
  by (intro exI [of _ "length es"]) (auto simp: sent_at_snoc alone_between_def)

definition history_ok :: "event list \<Rightarrow> Meter \<Rightarrow> bool" where
  "history_ok es m \<longleftrightarrow>
     (\<forall>f s. fmlookup (pending m) f = Some s \<longrightarrow> pending_ok es f s) \<and>
     (\<forall>s \<in> set (samples m). sample_ok es s)"

lemma history_ok_last [simp]: "history_ok es (m\<lparr>last_rtt := d\<rparr>) = history_ok es m"
  by (simp add: history_ok_def)

lemma history_ok_expire: "history_ok es m \<Longrightarrow> history_ok es (expireLocked t m)"
  by (auto simp: history_ok_def expireLocked_pending split: option.splits if_splits)

lemma history_ok_sub:
  assumes "history_ok es m"
    and "\<And>f s. fmlookup (pending m') f = Some s \<Longrightarrow> fmlookup (pending m) f = Some s"
    and "set (samples m') \<subseteq> set (samples m)"
    and "\<And>t p f q. e = Out t p \<Longrightarrow> syn_of p = Some (f, q) \<Longrightarrow> fmlookup (pending m') f = None"
  shows "history_ok (es @ [e]) m'"
  unfolding history_ok_def
proof (intro conjI allI impI ballI)
  fix f s assume "fmlookup (pending m') f = Some s"
  then show "pending_ok (es @ [e]) f s"
    using assms(1,2,4) by (intro pending_ok_snoc) (auto simp: history_ok_def)
next
  fix s assume "s \<in> set (samples m')"
  then show "sample_ok (es @ [e]) s"
    using assms(1,3) by (auto simp: history_ok_def intro: sample_ok_snoc)
qed

lemma history_ok_Outbound:
  assumes "Outbound t p m = Some m'" and "history_ok es m"
  shows "history_ok (es @ [Out t p]) m'"
  using assms(1)
proof (cases rule: Outbound_cases)
  case ignored
  with assms(2) show ?thesis by (intro history_ok_sub) auto
next
  case (repeated f q earlier)
  have "pending_ok (es @ [Out t p]) g s" if "fmlookup (pending m') g = Some s" for g s
  proof (cases "g = f")
    case True
    with that repeated assms(2) show ?thesis
      by (auto simp: history_ok_def intro: pending_ok_again)
  next
    case False
    with that repeated assms(2) show ?thesis
      by (intro pending_ok_snoc) (auto simp: history_ok_def)
  qed
  with repeated assms(2) show ?thesis by (auto simp: history_ok_def intro: sample_ok_snoc)
next
  case (added f q m0)
  have m0: "history_ok es m0" using added(3) assms(2) history_ok_expire by blast
  have "pending_ok (es @ [Out t p]) g s" if "fmlookup (pending m') g = Some s" for g s
  proof (cases "g = f")
    case True
    with that added show ?thesis by (auto simp: add_syn_def intro: pending_ok_new)
  next
    case False
    with that added m0 show ?thesis
      by (intro pending_ok_snoc) (auto simp: history_ok_def add_syn_def)
  qed
  with added m0 show ?thesis
    by (auto simp: history_ok_def add_syn_def intro: sample_ok_snoc)
next
  case (full f q)
  with history_ok_expire [OF assms(2), of t] show ?thesis
    by (intro history_ok_sub) (auto simp: expireLocked_pending)
qed

lemma history_ok_Inbound:
  assumes "Inbound t p m = Some m'" and "history_ok es m"
  shows "history_ok (es @ [In t p]) m'"
  using assms(1)
proof (cases rule: Inbound_cases)
  case (counted f sent)
  let ?s = "\<lparr>sample_at = t, rtt = time_sub t (syn_at sent)\<rparr>"
  have "pending_ok es f sent" using counted(2) assms(2) by (simp add: history_ok_def)
  then obtain i where i: "sent_at es i f (syn_seq sent) (syn_at sent)" "alone_between es i (length es) f"
    using counted(3) by (auto simp: pending_ok_def)
  have new: "sample_ok (es @ [In t p]) ?s"
    unfolding sample_ok_def
    by (intro exI [of _ i] exI [of _ "length es"] exI [of _ f] exI [of _ "syn_seq sent"]
        exI [of _ "syn_at sent"])
      (use i counted in \<open>auto simp: sent_at_def answered_at_snoc sent_at_snoc alone_between_snoc
        figure_def nth_append\<close>)
  let ?m = "m\<lparr>pending := fmdrop f (pending m)\<rparr>"
  have old: "history_ok (es @ [In t p]) ?m"
    using assms(2) by (intro history_ok_sub) (auto split: if_splits)
  have "set (samples m') \<subseteq> insert ?s (set (samples ?m))"
    unfolding counted(6) using set_push_sample by (simp add: add_sample_def)
  moreover have "pending m' = pending ?m"
    unfolding counted(6) by (simp add: add_sample_def)
  ultimately show ?thesis
    using old new unfolding history_ok_def by (metis (no_types, lifting) insertE subsetD)
qed (use assms(2) in \<open>auto intro!: history_ok_sub split: if_splits\<close>)

lemma history_ok_step:
  assumes "meter_step e m = Some m'" and "history_ok es m"
  shows "history_ok (es @ [e]) m'"
proof (cases e)
  case (Look t)
  have "history_ok (es @ [e]) m"
    using assms(2) by (rule history_ok_sub) (use Look in auto)
  moreover have "history_ok (es @ [e]) (expireLocked t m)"
    using history_ok_expire [OF assms(2), of t] by (rule history_ok_sub) (use Look in auto)
  ultimately have "history_ok (es @ [e]) m" "history_ok (es @ [e]) (expireLocked t m)" .
  with Look assms(1) show ?thesis by (auto simp: Latency_snd)
next
  case Drop
  with assms show ?thesis by (auto simp: Forget_def intro!: history_ok_sub)
qed (use assms in \<open>auto intro: history_ok_Outbound history_ok_Inbound\<close>)

lemma history_ok_New: "history_ok [] New"
  by (simp add: history_ok_def New_def)

lemma metered_history: "metered es m \<Longrightarrow> history_ok es m"
  by (induction rule: metered.induct) (auto simp: history_ok_New dest: history_ok_step)

section \<open>The figure\<close>

lemma Latency_fst:
  "fst (Latency t m) =
     (if \<not> seen m then None
      else if samples (expireLocked t m) \<noteq> [] then Some (least_rtt (samples (expireLocked t m)))
      else if samples m \<noteq> [] then Some (least_rtt (samples m)) else Some (last_rtt m))"
  by (simp add: Latency_def expireLocked_eq Let_def)

lemma Latency_is_figure:
  assumes "meter_inv m" and "fst (Latency t m) = Some d" shows "figure d"
proof -
  have "meter_inv (expireLocked t m)" using assms(1) by (rule expireLocked_inv)
  then have "samples (expireLocked t m) \<noteq> [] \<Longrightarrow> figure (least_rtt (samples (expireLocked t m)))"
    by (intro figure_least) (simp_all add: meter_inv_def del: expireLocked_simps)
  moreover have "samples m \<noteq> [] \<Longrightarrow> figure (least_rtt (samples m))"
    using assms(1) by (intro figure_least) (simp_all add: meter_inv_def)
  ultimately show ?thesis
    using assms by (simp add: Latency_fst meter_inv_def del: expireLocked_simps split: if_splits)
qed

lemma Latency_None_iff: "fst (Latency t m) = None \<longleftrightarrow> \<not> seen m"
  by (simp add: Latency_fst)

lemma Latency_held:
  assumes "samples (snd (Latency t m)) = []"
  shows "fst (Latency t' (snd (Latency t m))) = fst (Latency t m)"
  using assms by (auto simp: Latency_def expireLocked_eq Let_def split: if_splits)

section \<open>The packets of the tests\<close>

lemma tcp_header_packet:
  "length src = 4 \<Longrightarrow> length dst = 4 \<Longrightarrow> tcp_header (packet src dst sport dport flags seq ack) =
    Some \<lparr>hdr_flow = \<lparr>local_addr = AddrFrom4 src, remote_addr = AddrFrom4 dst,
                       localPort = sport, remotePort = dport\<rparr>,
          hdr_flags = flags, hdr_seq = seq, hdr_ack = ack\<rparr>"
  by (simp add: tcp_header_def parseTCP_packet)

lemma syn_of_packet:
  "length src = 4 \<Longrightarrow> length dst = 4 \<Longrightarrow> syn_of (packet src dst sport dport 2 seq ack) =
     Some (\<lparr>local_addr = AddrFrom4 src, remote_addr = AddrFrom4 dst,
            localPort = sport, remotePort = dport\<rparr>, seq)"
  by (simp add: syn_of_def tcp_header_packet flagSYN_def flagACK_def)

lemma synack_of_packet:
  "length src = 4 \<Longrightarrow> length dst = 4 \<Longrightarrow> synack_of (packet src dst sport dport 0x12 seq ack) =
     Some (\<lparr>local_addr = AddrFrom4 dst, remote_addr = AddrFrom4 src,
            localPort = dport, remotePort = sport\<rparr>, ack)"
  by (simp add: synack_of_def tcp_header_packet flagSYN_def flagACK_def swap_flow_def)

section \<open>The device\<close>

text \<open>The packets a read shows the meter, and those a write shows it.\<close>

fun read_packets :: "int \<Rightarrow> int \<Rightarrow> bytes list \<Rightarrow> int list \<Rightarrow> bytes list" where
  "read_packets n off (buf # bufs) (sz # szs) =
     (if n \<le> 0 then []
      else (if 0 < sz \<and> off + sz \<le> int (length buf)
            then [take (nat sz) (drop (nat off) buf)] else [])
           @ read_packets (n - 1) off bufs szs)"
| "read_packets n off _ _ = []"

definition write_packets :: "int \<Rightarrow> bytes list \<Rightarrow> bytes list" where
  "write_packets off bufs = map (drop (nat off)) (filter (\<lambda>buf. off < int (length buf)) bufs)"

definition show_all :: "(bytes \<Rightarrow> Meter \<Rightarrow> Meter option) \<Rightarrow> bytes list \<Rightarrow> Meter \<Rightarrow> Meter" where
  "show_all f ps m = fold (\<lambda>p m. the (f p m)) ps m"

lemma read_loop_packets:
  "0 \<le> off \<Longrightarrow> read_loop now n off bufs szs m =
     Some (show_all (Outbound now) (read_packets n off bufs szs) m)"
proof (induction now n off bufs szs m rule: read_loop.induct)
  case (1 now n off buf bufs sz szs m)
  have "nat (off + sz) - nat off = nat sz" if "0 < sz"
    using 1(2) that by (simp add: nat_add_distrib)
  moreover have "nat (off + sz) \<le> length buf" if "off + sz \<le> int (length buf)"
    using that by linarith
  ultimately show ?case
    using 1 by (auto simp: show_all_def slice_def Outbound_eq)
qed (simp_all add: show_all_def)

lemma write_loop_packets:
  "0 \<le> off \<Longrightarrow> write_loop now off bufs m = Some (show_all (Inbound now) (write_packets off bufs) m)"
proof (induction bufs arbitrary: m)
  case Nil
  then show ?case by (simp add: show_all_def write_packets_def)
next
  case (Cons buf bufs)
  have "nat off \<le> length buf" if "off < int (length buf)" using that by linarith
  with Cons show ?case
    by (auto simp: show_all_def write_packets_def slice_def Inbound_eq)
qed

end
