(* ===== verification/Rtt_Properties.thy ===== *)
theory Rtt_Properties
  imports Rtt
begin

text \<open>
  The properties of the latency meter, over every sequence of packets, readings and resets that a
  meter can be shown, at any instants.
\<close>

section \<open>A trace for the witnesses\<close>

definition client :: bytes where "client = [10, 8, 1, 2]"
definition server :: bytes where "server = [1, 1, 1, 1]"

definition client_syn :: "16 word \<Rightarrow> bytes" where
  "client_syn port = packet client server port 443 2 1000 0"

definition server_answer :: "16 word \<Rightarrow> bytes" where
  "server_answer port = packet server client 443 port 0x12 9000 1001"

definition client_flow :: "16 word \<Rightarrow> flow" where
  "client_flow port = \<lparr>local_addr = V4 10 8 1 2, remote_addr = V4 1 1 1 1,
     localPort = port, remotePort = 443\<rparr>"

lemma client_flow_inject [simp]: "client_flow p = client_flow q \<longleftrightarrow> p = q"
  by (simp add: client_flow_def)

lemma client_packets [simp]:
  "syn_of (client_syn port) = Some (client_flow port, 1000)"
  "synack_of (server_answer port) = Some (client_flow port, 1001)"
  by (simp_all add: client_syn_def server_answer_def syn_of_packet synack_of_packet client_def
      server_def client_flow_def AddrFrom4_def)

lemma metered_step_Some: "metered es m \<Longrightarrow> meter_step e m = Some m' \<Longrightarrow> es' = es @ [e] \<Longrightarrow> metered es' m'"
  using metered.step by blast

lemma metered_connection:
  "metered [Out 0 (client_syn 1), In 1000000 (server_answer 1)]
     \<lparr>pending = fmempty, samples = [\<lparr>sample_at = 1000000, rtt = 1000000\<rparr>], last_rtt = 0, seen = True\<rparr>"
proof -
  have "metered [Out 0 (client_syn 1)] (add_syn 0 (client_flow 1) 1000 New)"
    by (rule metered_step_Some [OF metered.start]) (simp_all add: Outbound_eq New_def maxPending_def)
  then show ?thesis
    by (rule metered_step_Some) (simp_all add: Inbound_eq add_syn_def New_def add_sample_def push_sample_def
        maxSamples_def pendingFor_def seconds_def time_sub_def int64_min_def int64_max_def)
qed

section \<open>Properties\<close>

definition resent_trace :: "event list" where
  "resent_trace =
     [Out 0 (client_syn 1), In 1000000 (server_answer 1),
      Out 0 (client_syn 2), Look 5000000001,
      Out 7000000000 (client_syn 2), In 7005000000 (server_answer 2)]"

text \<open>
  C30: However the traffic goes, a meter stays small and its figures stay sane: at most 512 SYNs and
  256 round trips are remembered, every round trip is positive and at most five seconds, and a
  meter that has seen one has a figure to give.
\<close>

theorem meter_bounded:
  "metered es m \<Longrightarrow>
     map_len (pending m) \<le> 512 \<and> length (samples m) \<le> 256 \<and>
     (\<forall>s \<in> set (samples m). 0 < rtt s \<and> rtt s \<le> 5000000000) \<and>
     (\<forall>t d. fst (Latency t m) = Some d \<longrightarrow> 0 < d \<and> d \<le> 5000000000) \<and>
     (\<forall>t. fst (Latency t m) = None \<longleftrightarrow> \<not> seen m)"
  using metered_inv [of es m] Latency_is_figure [of m]
  by (simp add: meter_inv_def figure_def pendingFor_def seconds_def maxPending_def maxSamples_def
      Latency_None_iff)

theorem meter_bounded_witness:
  "map_len (pending New) \<le> 512 \<and> length (samples New) \<le> 256"
  using meter_bounded [OF metered.start] by blast

text \<open>
  C3: Every round trip the meter holds is one that happened: some SYN of a connection was shown to
  it going out, the SYN-ACK that acknowledges exactly that SYN was shown to it coming back, no other
  SYN of the connection was shown to it in between, and the round trip is the time between the two.
\<close>

theorem sample_provenance:
  assumes "metered es m" and "s \<in> set (samples m)"
  shows "\<exists>i j f q t p p'. i < j \<and> j < length es \<and>
     es ! i = Out t p \<and> syn_of p = Some (f, q) \<and>
     es ! j = In (sample_at s) p' \<and> synack_of p' = Some (f, q + 1) \<and>
     rtt s = time_sub (sample_at s) t \<and> 0 < rtt s \<and> rtt s \<le> pendingFor \<and>
     (\<forall>k t' p'' q'. i < k \<and> k < j \<and> es ! k = Out t' p'' \<longrightarrow> syn_of p'' \<noteq> Some (f, q'))"
proof -
  have "sample_ok es s"
    using metered_history [OF assms(1)] assms(2) by (simp add: history_ok_def)
  then obtain i j f q t where ok: "i < j" "sent_at es i f q t" "answered_at es j f (q + 1) (sample_at s)"
    "alone_between es i j f" "rtt s = time_sub (sample_at s) t" "figure (rtt s)"
    unfolding sample_ok_def by blast
  then obtain p p' where pp: "es ! i = Out t p" "syn_of p = Some (f, q)"
    "es ! j = In (sample_at s) p'" "synack_of p' = Some (f, q + 1)" "j < length es"
    unfolding sent_at_def answered_at_def by blast
  have "syn_of p'' \<noteq> Some (f, q')" if "i < k" "k < j" "es ! k = Out t' p''" for k t' p'' q'
    using ok(4) that pp(5) unfolding alone_between_def sent_at_def by (meson order.strict_trans)
  with ok(1,5,6) pp show ?thesis
    unfolding figure_def by blast
qed

theorem sample_provenance_witness:
  "\<exists>i f q t p. [Out 0 (client_syn 1), In 1000000 (server_answer 1)] ! i = Out t p \<and>
     syn_of p = Some (f, q) \<and> 1000000 = time_sub 1000000 t"
  using sample_provenance [OF metered_connection, of "\<lparr>sample_at = 1000000, rtt = 1000000\<rparr>"]
  by (simp only: Meter.simps sample.simps list.set insert_iff simp_thms) blast

text \<open>
  The figure a meter gives is the shortest of the round trips of the last ten seconds.  When all
  are older it is the shortest of those that have just expired, and from then on the same figure
  is given until something new is measured; \<^verbatim>\<open>Milliseconds\<close> is that figure in milliseconds,
  at least one, and zero exactly when there is none.
\<close>

theorem Latency_figure:
  assumes "metered es m"
  shows "(\<not> seen m \<longrightarrow> fst (Latency t m) = None \<and> fst (Milliseconds t (Some m)) = 0) \<and>
     (seen m \<longrightarrow>
       (let recent = filter (\<lambda>s. time_sub t (sample_at s) \<le> Window) (samples m) in
        fst (Latency t m) = Some
          (if recent \<noteq> [] then Min (rtt ` set recent)
           else if samples m \<noteq> [] then Min (rtt ` set (samples m)) else last_rtt m) \<and>
        (recent = [] \<longrightarrow> (\<forall>t'. fst (Latency t' (snd (Latency t m))) = fst (Latency t m))) \<and>
        (\<forall>d. fst (Latency t m) = Some d \<longrightarrow>
           fst (Milliseconds t (Some m)) = max 1 (d div 1000000))))"
proof -
  have nonneg: "0 \<le> d" if "fst (Latency t m) = Some d" for d
    using Latency_is_figure [OF metered_inv [OF assms] that] by (simp add: figure_def)
  have "fst (Milliseconds t (Some m)) = max 1 (d div 1000000)" if "fst (Latency t m) = Some d" for d
    using that nonneg [OF that]
    by (cases "Latency t m") (simp add: Milliseconds_def Milliseconds_of_nonneg milliseconds_def max.commute)
  moreover have "fst (Milliseconds t (Some m)) = 0" if "\<not> seen m"
    using that by (simp add: Milliseconds_def Latency_def)
  moreover have "samples (snd (Latency t m)) = []"
    if "filter (\<lambda>s. time_sub t (sample_at s) \<le> Window) (samples m) = []" "seen m"
    using that by (simp add: Latency_snd)
  ultimately show ?thesis
    using Latency_held [of t m]
    by (auto simp: Let_def Latency_fst least_rtt_Min)
qed

theorem Latency_figure_witness: "fst (Latency 5 New) = None"
  using Latency_figure [OF metered.start, of 5] by (simp add: New_def)

text \<open>
  No packet makes the meter panic, and the header it reads is the one that was written: for any
  bytes \<^verbatim>\<open>parseTCP\<close> returns, and for the packets of the tests it returns their flow, flags and
  numbers.
\<close>

theorem parseTCP_safe_and_right:
  "parseTCP p \<noteq> None \<and>
   parseTCP (packet [a, b, c, d] [a', b', c', d'] sport dport flags seq ack) =
     Some (Some \<lparr>hdr_flow = \<lparr>local_addr = V4 a b c d, remote_addr = V4 a' b' c' d',
                              localPort = sport, remotePort = dport\<rparr>,
                 hdr_flags = flags, hdr_seq = seq, hdr_ack = ack\<rparr>)"
  by (simp add: parseTCP_total parseTCP_packet AddrFrom4_def)

text \<open>
  The wrapping device changes nothing: with a non-negative offset a read returns what the
  wrapped device returned and a write what it returns on the same buffers, neither panics whatever
  the counts, sizes and buffers are, and the meter has been shown exactly the packets that lie
  inside their buffers, in order.
\<close>

theorem Device_transparent:
  assumes "0 \<le> off"
  shows "Device_Read now r bufs sizes off m =
       Some (r, show_all (Outbound now) (read_packets (fst r) off bufs sizes) m) \<and>
     Device_Write now inner bufs off m =
       Some (inner bufs off, show_all (Inbound now) (write_packets off bufs) m)"
  using assms by (simp add: Device_Read_def Device_Write_def read_loop_packets write_loop_packets)

theorem Device_transparent_witness:
  "fst (the (Device_Read 0 (1, ''eof'') [[1, 2, 3]] [2] 1 New)) = (1, ''eof'')"
  using Device_transparent [of 1 0 "(1, ''eof'')" "[[1, 2, 3]]" "[2]" New "\<lambda>bufs off. (0, off)"]
  by simp

text \<open>
  One connection opening gives a figure: when the answer comes within five seconds and after
  the SYN, a meter that was not already waiting for that connection and has room holds the time
  between the two as its newest round trip, and reports at most that.
\<close>

theorem Connect_measured:
  assumes "t1 < t2" and "t2 \<le> t1 + 5000000000"
    and "fmlookup (pending m) (client_flow 50000) = None" and "map_len (pending m) < 512"
  shows "\<exists>m'. Connect t1 t2 m = Some m' \<and> samples m' \<noteq> [] \<and>
     last (samples m') = \<lparr>sample_at = t2, rtt = t2 - t1\<rparr> \<and> seen m' \<and>
     (\<exists>d. fst (Latency t2 m') = Some d \<and> d \<le> t2 - t1)"
proof -
  have d: "time_sub t2 t1 = t2 - t1" "0 < t2 - t1" "t2 - t1 \<le> pendingFor"
    using assms(1,2) by (simp_all add: time_sub_def int64_min_def int64_max_def pendingFor_def seconds_def)
  define m' where "m' = add_sample t2 (t2 - t1)
    ((add_syn t1 (client_flow 50000) 1000 m)\<lparr>pending := fmdrop (client_flow 50000)
       (pending (add_syn t1 (client_flow 50000) 1000 m))\<rparr>)"
  have "Outbound t1 (client_syn 50000) m = Some (add_syn t1 (client_flow 50000) 1000 m)"
    using assms(3,4) by (simp add: Outbound_eq maxPending_def)
  moreover have "Inbound t2 (server_answer 50000) (add_syn t1 (client_flow 50000) 1000 m) = Some m'"
    using d by (simp add: Inbound_eq m'_def) (simp add: add_syn_def)
  ultimately have "Connect t1 t2 m = Some m'"
    by (simp add: Connect_def client_syn_def server_answer_def client_def server_def)
  moreover have last: "samples m' \<noteq> []" "last (samples m') = \<lparr>sample_at = t2, rtt = t2 - t1\<rparr>" "seen m'"
    by (simp_all add: m'_def add_sample_def)
  moreover have "\<lparr>sample_at = t2, rtt = t2 - t1\<rparr> \<in> set (samples (expireLocked t2 m'))"
    using last by (auto simp: time_sub_def int64_min_def int64_max_def Window_def seconds_def
        intro: last_in_set [of "samples m'", simplified last(2)])
  then have "samples (expireLocked t2 m') \<noteq> []"
    "t2 - t1 \<in> rtt ` set (samples (expireLocked t2 m'))"
    by (force simp del: expireLocked_simps)+
  then have "samples (expireLocked t2 m') \<noteq> []" "least_rtt (samples (expireLocked t2 m')) \<le> t2 - t1"
    by (simp_all add: least_rtt_Min del: expireLocked_simps)
  then have "\<exists>d. fst (Latency t2 m') = Some d \<and> d \<le> t2 - t1"
    using last(3) by (simp add: Latency_fst)
  ultimately show ?thesis by blast
qed

theorem Connect_measured_witness: "\<exists>m'. Connect 0 1000000 New = Some m' \<and> seen m'"
proof -
  have "\<exists>m'. Connect 0 1000000 New = Some m' \<and> samples m' \<noteq> [] \<and>
     last (samples m') = \<lparr>sample_at = 1000000, rtt = 1000000 - 0\<rparr> \<and> seen m' \<and>
     (\<exists>d. fst (Latency 1000000 m') = Some d \<and> d \<le> 1000000 - 0)"
    by (rule Connect_measured) (simp_all add: New_def)
  then show ?thesis by blast
qed

text \<open>
  Karn's rule has a gap.  A reading of the meter forgets a SYN that has waited longer than five
  seconds, and with it that it was sent; when the system sends the same SYN again, with the same
  number, it counts as the first, and the answer is counted although it may be the answer to the
  SYN sent seven seconds before.
\<close>

theorem resent_syn_counted:
  "\<exists>m. metered resent_trace m \<and>
     sent_at resent_trace 2 (client_flow 2) 1000 0 \<and>
     sent_at resent_trace 4 (client_flow 2) 1000 7000000000 \<and>
     answered_at resent_trace 5 (client_flow 2) 1001 7005000000 \<and>
     \<lparr>sample_at = 7005000000, rtt = 5000000\<rparr> \<in> set (samples m)"
proof -
  let ?s = "\<lparr>sample_at = 1000000, rtt = 1000000\<rparr>"
  let ?m = "\<lambda>p. \<lparr>pending = p, samples = [?s], last_rtt = 0, seen = True\<rparr>"
  have nums: "time_sub 5000000001 0 = 5000000001" "time_sub 5000000001 1000000 = 4999000001"
    "time_sub 7005000000 7000000000 = 5000000" "pendingFor = 5000000000" "Window = 10000000000"
    by (simp_all add: time_sub_def int64_min_def int64_max_def pendingFor_def Window_def seconds_def)
  have gone: "\<not> P k \<Longrightarrow> fmfilter P (fmupd k v fmempty) = fmempty" for P :: "flow \<Rightarrow> bool" and k and v :: syn
    by (auto intro: fmap_ext)
  let ?p = "fmupd (client_flow 2) \<lparr>syn_at = 0, syn_seq = 1000, again = False\<rparr> fmempty"
  have "metered [Out 0 (client_syn 1), In 1000000 (server_answer 1), Out 0 (client_syn 2)] (?m ?p)"
    by (rule metered_step_Some [OF metered_connection])
      (simp_all add: Outbound_eq add_syn_def maxPending_def)
  moreover have "expireLocked 5000000001 (?m ?p) = ?m fmempty"
    by (simp only: expireLocked_eq Let_def Meter.select_convs) (simp add: nums gone)
  then have "snd (Latency 5000000001 (?m ?p)) = (?m fmempty)\<lparr>last_rtt := 1000000\<rparr>"
    by (simp add: Latency_snd least_rtt_def del: expireLocked_simps)
  ultimately have "metered [Out 0 (client_syn 1), In 1000000 (server_answer 1), Out 0 (client_syn 2),
      Look 5000000001] ((?m fmempty)\<lparr>last_rtt := 1000000\<rparr>)"
    by (elim metered_step_Some) simp_all
  then have "metered [Out 0 (client_syn 1), In 1000000 (server_answer 1), Out 0 (client_syn 2),
      Look 5000000001, Out 7000000000 (client_syn 2)]
      (add_syn 7000000000 (client_flow 2) 1000 ((?m fmempty)\<lparr>last_rtt := 1000000\<rparr>))"
    by (rule metered_step_Some) (simp_all add: Outbound_eq maxPending_def)
  then have "metered resent_trace (add_sample 7005000000 5000000 ((?m fmempty)\<lparr>last_rtt := 1000000\<rparr>))"
    by (rule metered_step_Some) (simp_all add: Inbound_eq add_syn_def nums resent_trace_def)
  then show ?thesis
    by (intro exI conjI) (auto simp: resent_trace_def sent_at_def answered_at_def add_sample_def
        push_sample_def maxSamples_def)
qed

end
