(* ===== verification/Go_Utf8.thy ===== *)
theory Go_Utf8
  imports Go_Text
begin

text \<open>
  Go's view of a string as code points (\<^verbatim>\<open>utf8.DecodeRune\<close>, the loop
  \<^verbatim>\<open>for i, r := range s\<close>): a valid encoding is decoded, and a byte that begins none is the
  replacement character, one byte wide.  \<open>runes\<close> gives every code point with the bytes it was read
  from; the bytes put together are the string.
\<close>

section \<open>Decoding\<close>

definition RuneError :: nat where "RuneError = 0xFFFD"

definition between :: "nat \<Rightarrow> nat \<Rightarrow> nat \<Rightarrow> bool" where
  "between lo hi n \<longleftrightarrow> lo \<le> n \<and> n \<le> hi"

abbreviation cont :: "nat \<Rightarrow> bool" where "cont \<equiv> between 0x80 0xBF"

text \<open>The code point at the front of a list of bytes and its width, at least one.\<close>

definition decode_rune :: "nat list \<Rightarrow> nat \<times> nat" where
  "decode_rune bs =
     (case bs of
        [] \<Rightarrow> (RuneError, 1)
      | b0 # t \<Rightarrow>
          if b0 < 0x80 then (b0, 1)
          else (case t of
             [] \<Rightarrow> (RuneError, 1)
           | b1 # t1 \<Rightarrow>
               if between 0xC2 0xDF b0 \<and> cont b1 then ((b0 - 0xC0) * 64 + (b1 - 0x80), 2)
               else (case t1 of
                  [] \<Rightarrow> (RuneError, 1)
                | b2 # t2 \<Rightarrow>
                    if (b0 = 0xE0 \<and> between 0xA0 0xBF b1 \<or> between 0xE1 0xEC b0 \<and> cont b1
                        \<or> b0 = 0xED \<and> between 0x80 0x9F b1 \<or> between 0xEE 0xEF b0 \<and> cont b1)
                       \<and> cont b2
                    then (((b0 - 0xE0) * 64 + (b1 - 0x80)) * 64 + (b2 - 0x80), 3)
                    else (case t2 of
                       [] \<Rightarrow> (RuneError, 1)
                     | b3 # _ \<Rightarrow>
                         if (b0 = 0xF0 \<and> between 0x90 0xBF b1 \<or> between 0xF1 0xF3 b0 \<and> cont b1
                             \<or> b0 = 0xF4 \<and> between 0x80 0x8F b1)
                            \<and> cont b2 \<and> cont b3
                         then ((((b0 - 0xF0) * 64 + (b1 - 0x80)) * 64 + (b2 - 0x80)) * 64
                               + (b3 - 0x80), 4)
                         else (RuneError, 1)))))"

lemma decode_rune_width: "0 < snd (decode_rune bs)"
  by (simp add: decode_rune_def split: list.split)

type_synonym rune = "nat \<times> string"

function runes :: "string \<Rightarrow> rune list" where
  "runes s =
     (if s = [] then []
      else (let (r, w) = decode_rune (map code (take 4 s)) in (r, take w s) # runes (drop w s)))"
  by pat_completeness auto
termination
proof (relation "measure length")
  fix s :: string and x r w
  assume "s \<noteq> []" and "x = decode_rune (map code (take 4 s))" and "(r, w) = x"
  then have "0 < w" using decode_rune_width by (metis snd_conv)
  with \<open>s \<noteq> []\<close> show "(drop w s, s) \<in> measure length" by simp
qed simp

declare runes.simps [simp del]

text \<open>The bytes of a list of code points.\<close>

definition rune_bytes :: "rune list \<Rightarrow> string" where
  "rune_bytes rs = concat (map snd rs)"

lemma rune_bytes_simps [simp]:
  "rune_bytes [] = []"
  "rune_bytes (r # rs) = snd r @ rune_bytes rs"
  "rune_bytes (rs @ rs') = rune_bytes rs @ rune_bytes rs'"
  by (simp_all add: rune_bytes_def)

lemma runes_Nil [simp]: "runes [] = []"
  by (simp add: runes.simps)

lemma rune_bytes_runes [simp]: "rune_bytes (runes s) = s"
proof (induction s rule: runes.induct)
  case (1 s)
  show ?case
  proof (cases "s = []")
    case False
    obtain r w where rw: "decode_rune (map code (take 4 s)) = (r, w)" by fastforce
    with False have "runes s = (r, take w s) # runes (drop w s)" by (simp add: runes.simps [of s])
    with 1 False rw show ?thesis by simp
  qed simp
qed

section \<open>ASCII\<close>

definition ascii :: "char \<Rightarrow> bool" where
  "ascii c \<longleftrightarrow> code c < 0x80"

abbreviation ascii_rune :: "char \<Rightarrow> rune" where
  "ascii_rune c \<equiv> (code c, [c])"

lemma runes_ascii_Cons: "ascii c \<Longrightarrow> runes (c # s) = ascii_rune c # runes s"
  by (subst runes.simps) (simp add: decode_rune_def ascii_def)

lemma runes_ascii: "list_all ascii a \<Longrightarrow> runes (a @ s) = map ascii_rune a @ runes s"
  by (induction a) (simp_all add: runes_ascii_Cons)

lemma runes_all_ascii: "list_all ascii a \<Longrightarrow> runes a = map ascii_rune a"
  using runes_ascii [of a "[]"] by simp

end
