(* ===== verification/Diag.thy ===== *)
theory Diag
  imports Go_Utf8 Go_Encoding "HOL-Library.Monad_Syntax"
begin

text \<open>
  \<^verbatim>\<open>core/internal/diag/log.go\<close> and \<^verbatim>\<open>logger.go\<close>: the lines kept in memory and the
  redaction every line goes through.  The regular expression \<^verbatim>\<open>secrets\<close> is a matcher over code
  points that follows the rules of Go's \<^verbatim>\<open>regexp\<close>: the leftmost match, the first alternative
  that matches there, greedy repetition, ASCII word boundaries, and simple case folding, by which
  U+212A matches the letter k and U+017F the letter s.
\<close>

section \<open>Character classes\<close>

definition fold_rune :: "nat \<Rightarrow> nat" where
  "fold_rune r =
     (if 65 \<le> r \<and> r \<le> 90 then r + 32
      else if r = 0x212A then code (CHR ''k'')
      else if r = 0x017F then code (CHR ''s'') else r)"

definition is_space :: "nat \<Rightarrow> bool" where
  "is_space r \<longleftrightarrow> r \<in> set [9, 10, 12, 13, 32]"

definition assigns :: "nat \<Rightarrow> bool" where
  "assigns r \<longleftrightarrow> r = code (CHR ''='') \<or> r = code (CHR '':'')"

text \<open>\<^verbatim>\<open>[A-Za-z0-9+/]\<close> and \<^verbatim>\<open>[0-9a-f]\<close>, ignoring case, and the word characters of
  \<^verbatim>\<open>\b\<close>.\<close>

definition class64 :: "nat \<Rightarrow> bool" where
  "class64 r \<longleftrightarrow> (let f = fold_rune r in between 97 122 f \<or> between 48 57 f \<or> f = 43 \<or> f = 47)"

definition class_hex :: "nat \<Rightarrow> bool" where
  "class_hex r \<longleftrightarrow> (let f = fold_rune r in between 48 57 f \<or> between 97 102 f)"

definition is_word :: "nat \<Rightarrow> bool" where
  "is_word r \<longleftrightarrow> between 48 57 r \<or> between 65 90 r \<or> between 97 122 r \<or> r = 95"

section \<open>The expression\<close>

text \<open>What is left after a word, compared without case.\<close>

definition after_word :: "string \<Rightarrow> nat list \<Rightarrow> nat list option" where
  "after_word w cs =
     (if take (length w) (map fold_rune cs) = map code w then Some (drop (length w) cs) else None)"

definition after_owner :: "nat list \<Rightarrow> nat list option" where
  "after_owner cs =
     (case after_word ''private'' cs of
        Some t \<Rightarrow> Some t
      | None \<Rightarrow> (case after_word ''public'' cs of
           Some t \<Rightarrow> Some t
         | None \<Rightarrow> after_word ''preshared'' cs))"

definition after_key :: "nat list \<Rightarrow> nat list option" where
  "after_key t =
     (case t of
        [] \<Rightarrow> None
      | c # t' \<Rightarrow>
          if c = code (CHR ''_'') \<or> c = code (CHR '' '')
          then (case after_word ''key'' t' of Some u \<Rightarrow> Some u | None \<Rightarrow> after_word ''key'' t)
          else after_word ''key'' t)"

text \<open>The three alternatives; each gives the number of code points it matches.\<close>

definition match_label :: "nat list \<Rightarrow> nat option" where
  "match_label cs = do {
     t \<leftarrow> after_owner cs;
     t \<leftarrow> after_key t;
     let t = dropWhile is_space t;
     t \<leftarrow> (case t of [] \<Rightarrow> None | c # t' \<Rightarrow> if assigns c then Some t' else None);
     let t = dropWhile is_space t;
     let u = dropWhile (\<lambda>c. \<not> is_space c) t;
     if u = t then None else Some (length cs - length u)
   }"

definition match_base64 :: "nat list \<Rightarrow> nat option" where
  "match_base64 cs =
     (if length (takeWhile class64 (take 42 cs)) = 42
      then (let n = length (takeWhile (\<lambda>c. class64 c \<or> c = code (CHR ''='')) (take 2 (drop 42 cs)))
            in if n = 0 then None else Some (42 + n))
      else None)"

definition match_hex :: "nat option \<Rightarrow> nat list \<Rightarrow> nat option" where
  "match_hex before cs =
     (if length (takeWhile class_hex (take 64 cs)) = 64
         \<and> \<not> (case before of None \<Rightarrow> False | Some c \<Rightarrow> is_word c)
         \<and> \<not> (case drop 64 cs of [] \<Rightarrow> False | c # _ \<Rightarrow> is_word c)
      then Some 64 else None)"

definition secret_at :: "nat option \<Rightarrow> nat list \<Rightarrow> nat option" where
  "secret_at before cs =
     (case match_label cs of
        Some n \<Rightarrow> Some n
      | None \<Rightarrow> (case match_base64 cs of Some n \<Rightarrow> Some n | None \<Rightarrow> match_hex before cs))"

section \<open>Redaction\<close>

definition redacted :: string where
  "redacted = ''<redacted>''"

text \<open>\<^verbatim>\<open>indexOfAssignment\<close>, as the part of the match up to it; \<open>None\<close> is \<^verbatim>\<open>-1\<close>.\<close>

fun upto_assignment :: "rune list \<Rightarrow> string option" where
  "upto_assignment [] = None"
| "upto_assignment (r # rs) =
     (if assigns (fst r) then Some (snd r) else map_option ((@) (snd r)) (upto_assignment rs))"

definition replacement :: "rune list \<Rightarrow> string" where
  "replacement m = (case upto_assignment m of Some kept \<Rightarrow> kept @ redacted | None \<Rightarrow> redacted)"

text \<open>\<^verbatim>\<open>ReplaceAllStringFunc\<close> from a position on, with the code point before it.  No match
  is empty.\<close>

function replace_from :: "nat option \<Rightarrow> rune list \<Rightarrow> string" where
  "replace_from before [] = []"
| "replace_from before (r # rs) =
     (case secret_at before (map fst (r # rs)) of
        Some (Suc n) \<Rightarrow>
          replacement (r # take n rs) @ replace_from (Some (fst (last (r # take n rs)))) (drop n rs)
      | _ \<Rightarrow> snd r @ replace_from (Some (fst r)) rs)"
  by pat_completeness auto
termination
  by (relation "measure (length \<circ> snd)") auto

definition redact :: "string \<Rightarrow> string" where
  "redact message = replace_from None (runes message)"

section \<open>The log\<close>

definition capacity :: nat where "capacity = 400"

record Log =
  lines :: "string list"
  verbose :: bool

definition empty_Log :: Log where
  "empty_Log = \<lparr>lines = [], verbose = False\<rparr>"

text \<open>\<^verbatim>\<open>time.Now().UTC().Format("15:04:05.000")\<close> for an instant since the epoch.\<close>

definition pad_digits :: "nat \<Rightarrow> nat \<Rightarrow> string" where
  "pad_digits width n = (let ds = nat_digits n in replicate (width - length ds) (CHR ''0'') @ ds)"

definition clock_stamp :: "instant \<Rightarrow> string" where
  "clock_stamp now =
     (let ms = nat (now div milliseconds mod 86400000)
      in pad_digits 2 (ms div 3600000) @ '':'' @ pad_digits 2 (ms div 60000 mod 60) @ '':''
         @ pad_digits 2 (ms div 1000 mod 60) @ ''.'' @ pad_digits 3 (ms mod 1000))"

text \<open>
  The operations.  A message is the result of \<^verbatim>\<open>fmt.Sprintf(format, args...)\<close>.  Each is one
  critical section, \<open>Verbosef\<close> two: it reads the switch, then records.
\<close>

definition push_line :: "string \<Rightarrow> string list \<Rightarrow> string list" where
  "push_line line ls = (if length ls = capacity then tl ls @ [line] else ls @ [line])"

definition Logf :: "instant \<Rightarrow> string \<Rightarrow> Log \<Rightarrow> Log" where
  "Logf now message l =
     (let line = clock_stamp now @ ''  '' @ redact message in l\<lparr>lines := push_line line (lines l)\<rparr>)"

definition Verbosef :: "instant \<Rightarrow> string \<Rightarrow> Log \<Rightarrow> Log" where
  "Verbosef now message l = (let on = verbose l in if on then Logf now message l else l)"

definition SetVerbose :: "instant \<Rightarrow> bool \<Rightarrow> Log \<Rightarrow> Log" where
  "SetVerbose now on l =
     l\<lparr>verbose := on,
       lines := lines l @ [clock_stamp now @ ''  verbose logging '' @ (if on then ''on'' else ''off'')]\<rparr>"

definition Verbose :: "Log \<Rightarrow> bool" where "Verbose l = verbose l"
definition Lines :: "Log \<Rightarrow> string list" where "Lines l = lines l"
definition Clear :: "Log \<Rightarrow> Log" where "Clear l = l\<lparr>lines := []\<rparr>"

text \<open>\<^verbatim>\<open>DeviceLogger\<close>'s two functions.\<close>

definition device_Verbosef :: "instant \<Rightarrow> string \<Rightarrow> Log \<Rightarrow> Log" where
  "device_Verbosef = Verbosef"

definition device_Errorf :: "instant \<Rightarrow> string \<Rightarrow> Log \<Rightarrow> Log" where
  "device_Errorf now message = Logf now (''error: '' @ message)"

interpretation ring: bounded_history capacity push_line
  by unfold_locales (auto simp: capacity_def push_line_def)

end
