(* ===== verification/Diag_Properties.thy ===== *)
theory Diag_Properties
  imports Diag
begin

text \<open>
  The properties of the log: what redaction removes and what it leaves, and how many lines are kept.
\<close>

section \<open>The matcher\<close>

lemma after_word_bound: "after_word w cs = Some t \<Longrightarrow> length w \<le> k \<Longrightarrow> \<exists>n \<le> k. t = drop n cs"
  by (auto simp: after_word_def split: if_splits)

lemma after_owner_Some: "after_owner cs = Some t \<Longrightarrow> \<exists>n \<le> 9. t = drop n cs"
  by (rule after_word_bound [of "if after_word ''private'' cs \<noteq> None then ''private''
        else if after_word ''public'' cs \<noteq> None then ''public'' else ''preshared''"])
    (auto simp: after_owner_def split: option.splits)

lemma after_key_Some:
  assumes "after_key cs = Some t" shows "\<exists>n \<le> 4. t = drop n cs"
proof -
  obtain c cs' where cs: "cs = c # cs'"
    using assms by (cases cs) (auto simp: after_key_def)
  have "after_word ''key'' cs' = Some t \<or> after_word ''key'' cs = Some t"
    using assms by (auto simp: after_key_def cs split: if_splits option.splits)
  then show ?thesis
  proof
    assume "after_word ''key'' cs' = Some t"
    then obtain n where "n \<le> 3" "t = drop n cs'" using after_word_bound [of _ _ _ 3] by force
    then show ?thesis unfolding cs by (intro exI [of _ "Suc n"]) simp
  qed (use after_word_bound [of _ _ _ 4] in force)
qed

lemma class64_not_space: "class64 c \<Longrightarrow> \<not> is_space c"
  by (auto simp: class64_def is_space_def between_def fold_rune_def Let_def split: if_splits)

lemma class64_not_assigns: "class64 c \<Longrightarrow> \<not> assigns c"
  by (auto simp: class64_def assigns_def code_def between_def fold_rune_def Let_def split: if_splits)

text \<open>A label ends with an equals sign or a colon, at most thirteen code points in, or a space.\<close>

lemma match_label_stop:
  assumes "match_label cs = Some k"
  shows "\<exists>n \<le> 13. n < length cs \<and> \<not> class64 (cs ! n)"
proof -
  obtain t u where t: "after_owner cs = Some t" "after_key t = Some u"
    using assms by (auto simp: match_label_def Let_def bind_eq_Some_conv)
  obtain c v where c: "dropWhile is_space u = c # v" "assigns c"
    using assms by (cases "dropWhile is_space u")
      (auto simp: match_label_def Let_def bind_eq_Some_conv t split: if_splits)
  obtain i j where ij: "i \<le> 9" "j \<le> 4" "u = drop (i + j) cs"
    using after_owner_Some [OF t(1)] after_key_Some [OF t(2)] by (auto simp: add.commute)
  from c(1) obtain d w where d: "u = d # w" by (cases u) auto
  have "\<not> class64 d"
    using c d class64_not_space class64_not_assigns by (auto split: if_splits)
  moreover have "i + j < length cs" using ij(3) d by (metis drop_eq_Nil2 list.distinct(1) not_less)
  moreover have "cs ! (i + j) = d" using ij(3) d \<open>i + j < length cs\<close>
    by (metis hd_drop_conv_nth list.sel(1))
  ultimately show ?thesis using ij(1,2) by (intro exI [of _ "i + j"]) simp
qed

lemma match_label_none: "list_all class64 cs \<Longrightarrow> match_label cs = None"
  using match_label_stop by (cases "match_label cs") (auto simp: list_all_length)

lemma match_label_none_prefix: "list_all class64 a \<Longrightarrow> 13 < length a \<Longrightarrow> match_label (a @ b) = None"
  using match_label_stop [of "a @ b"]
  by (cases "match_label (a @ b)") (auto simp: list_all_length nth_append)

lemma takeWhile_all: "list_all P xs \<Longrightarrow> takeWhile P xs = xs"
  by (simp add: takeWhile_eq_all_conv list_all_iff)

lemma match_base64_44:
  assumes "list_all class64 a" and "length a = 43" and "list_all (\<lambda>c. class64 c \<or> c = 61) (take 1 b)"
    and "b \<noteq> []"
  shows "match_base64 (a @ b) = Some 44"
proof -
  have "list_all class64 (take 42 a)" using assms(1) by (metis append_take_drop_id list_all_append)
  then have first: "takeWhile class64 (take 42 (a @ b)) = take 42 a"
    using assms(2) by (simp add: takeWhile_all)
  obtain x y where x: "drop 42 a = [x]" "class64 x"
  proof -
    have "length (drop 42 a) = 1" using assms(2) by simp
    then obtain x where "drop 42 a = [x]" by (metis length_0_conv length_Suc_conv One_nat_def)
    moreover have "list_all class64 (drop 42 a)"
      using assms(1) by (metis append_take_drop_id list_all_append)
    ultimately show thesis using that by simp
  qed
  obtain z w where "b = z # w" using assms(4) by (cases b) auto
  then have "takeWhile (\<lambda>c. class64 c \<or> c = 61) (take 2 (drop 42 (a @ b))) = [x, z]"
    using x assms(2,3) by (simp add: numeral_2_eq_2)
  moreover have "length (takeWhile class64 (take 42 (a @ b))) = 42"
    unfolding first using assms(2) by simp
  ultimately show ?thesis
    unfolding match_base64_def by (simp only: if_True Let_def) (simp add: code_def)
qed

lemma match_base64_short: "length cs < 43 \<Longrightarrow> match_base64 cs = None"
proof -
  assume "length cs < 43"
  then have "drop 42 cs = []" by simp
  then show ?thesis by (simp add: match_base64_def)
qed

lemma match_hex_short: "length cs < 64 \<Longrightarrow> match_hex before cs = None"
proof -
  assume "length cs < 64"
  then have "length (takeWhile class_hex (take 64 cs)) < 64"
    using length_takeWhile_le [of class_hex "take 64 cs"] by simp
  then show ?thesis by (simp add: match_hex_def)
qed

lemma secret_at_short: "list_all class64 cs \<Longrightarrow> length cs < 43 \<Longrightarrow> secret_at before cs = None"
  by (simp add: secret_at_def match_label_none match_base64_short match_hex_short)

lemma replace_from_class64:
  "list_all (\<lambda>r. class64 (fst r)) rs \<Longrightarrow> length rs < 43 \<Longrightarrow> replace_from before rs = rune_bytes rs"
proof (induction rs arbitrary: before)
  case Nil
  then show ?case by simp
next
  case (Cons r rs)
  have "secret_at before (map fst (r # rs)) = None"
    using Cons.prems by (intro secret_at_short) (simp_all add: list.pred_map comp_def)
  with Cons show ?case by simp
qed


section \<open>Keys as text\<close>

definition key_char :: "char \<Rightarrow> bool" where
  "key_char c \<longleftrightarrow> ascii c \<and> class64 (code c)"

lemma key_char_b64: "v < 64 \<Longrightarrow> key_char (b64_char v)"
proof -
  assume v: "v < 64"
  have "\<forall>v \<in> set [0..<64]. key_char (b64_char v)" by code_simp
  with v show ?thesis by simp
qed

lemma key_char_hex: "is_hex c \<Longrightarrow> key_char c"
  by (auto simp: is_hex_def key_char_def ascii_def class64_def between_def fold_rune_def Let_def)

text \<open>The base64 of a key ends with one padding character, and has no other.\<close>

lemma b64_encode_mod2:
  "length raw mod 3 = 2 \<Longrightarrow>
   \<exists>a. b64_encode raw = a @ ''='' \<and> length a = 4 * (length raw div 3) + 3 \<and> list_all key_char a"
proof (induction raw rule: b64_encode.induct)
  case (4 x y z rest)
  then obtain a where a: "b64_encode rest = a @ ''=''" "length a = 4 * (length rest div 3) + 3"
    "list_all key_char a" by auto
  define v where "v = (unat x * 256 + unat y) * 256 + unat z"
  have "v div 262144 < 64" unfolding v_def by (rule byte_digits(3)) simp_all
  moreover have "b64_encode (x # y # z # rest) = b64_char (v div 262144) # b64_char (v div 4096 mod 64)
        # b64_char (v div 64 mod 64) # b64_char (v mod 64) # b64_encode rest"
    by (simp only: b64_encode.simps Let_def v_def)
  ultimately show ?case
    using a by (intro exI [of _ "b64_char (v div 262144) # b64_char (v div 4096 mod 64)
        # b64_char (v div 64 mod 64) # b64_char (v mod 64) # a"])
      (simp add: key_char_b64 del: b64_encode.simps)
next
  case (3 x y)
  define v where "v = (unat x * 256 + unat y) * 4"
  have "v div 4096 < 64"
    using unat_byte_less [of x] unat_byte_less [of y]
    unfolding v_def by (simp add: div_less_iff_less_mult del: unat_byte_less)
  moreover have "b64_encode [x, y] =
      [b64_char (v div 4096), b64_char (v div 64 mod 64), b64_char (v mod 64), pad]"
    by (simp only: b64_encode.simps Let_def v_def)
  ultimately show ?case
    by (intro exI [of _ "[b64_char (v div 4096), b64_char (v div 64 mod 64), b64_char (v mod 64)]"])
      (simp add: key_char_b64 del: b64_encode.simps)
qed auto

lemma runes_key_chars:
  "list_all key_char a \<Longrightarrow> runes (a @ s) = map ascii_rune a @ runes s"
  by (rule runes_ascii) (simp add: list_all_iff key_char_def)

lemma rune_bytes_ascii [simp]: "rune_bytes (map ascii_rune a) = a"
  by (induction a) auto

lemma class64_key_chars:
  "list_all key_char a \<Longrightarrow> list_all class64 (map fst (map ascii_rune a))"
  by (simp add: list_all_iff key_char_def)

lemma upto_assignment_none: "list_all (\<lambda>r. \<not> assigns (fst r)) rs \<Longrightarrow> upto_assignment rs = None"
  by (induction rs) auto

lemma upto_assignment_at:
  "list_all (\<lambda>r. \<not> assigns (fst r)) rs \<Longrightarrow> assigns (fst r) \<Longrightarrow>
   upto_assignment (rs @ r # t) = Some (rune_bytes rs @ snd r)"
  by (induction rs) auto

lemma not_assigns_key_chars: "list_all key_char a \<Longrightarrow> list_all (\<lambda>r. \<not> assigns (fst r)) (map ascii_rune a)"
  by (auto simp: list_all_iff key_char_def dest: class64_not_assigns)

lemma replace_from_match:
  assumes "secret_at before (map fst rs) = Some (Suc n)" and "rs \<noteq> []"
  shows "replace_from before rs =
    replacement (take (Suc n) rs) @ replace_from (Some (fst (last (take (Suc n) rs)))) (drop (Suc n) rs)"
  using assms by (cases rs) simp_all

section \<open>What redaction removes\<close>

text \<open>The labels as a UAPI line and a configuration file write them.\<close>

definition labels :: "string list" where
  "labels = [''private_key'', ''public_key'', ''preshared_key'', ''private key'', ''public key'',
     ''preshared key'', ''PrivateKey'', ''PublicKey'', ''PresharedKey'']"

lemma after_labels: "\<forall>l \<in> set labels. Option.bind (after_owner (map code l @ t)) after_key = Some t"
  by (simp add: labels_def after_owner_def after_key_def after_word_def code_def fold_rune_def)

lemma match_label_labels:
  assumes "l \<in> set labels" and "gap = [] \<or> gap = [32]" and "\<not> is_space c"
  shows "match_label (map code l @ gap @ 61 # gap @ c # cs) =
    Some (length l + 2 * length gap + 2 + length (takeWhile (\<lambda>c. \<not> is_space c) cs))"
proof -
  define t where "t = gap @ 61 # gap @ c # cs"
  have label: "Option.bind (after_owner (map code l @ t)) after_key = Some t"
    using after_labels assms(1) by blast
  have space: "is_space 32" "\<not> is_space 61" "assigns 61"
    by (simp_all add: is_space_def assigns_def code_def)
  have t1: "dropWhile is_space t = 61 # gap @ c # cs"
    unfolding t_def using assms(2) space by auto
  have t2: "dropWhile is_space (gap @ c # cs) = c # cs"
    using assms(2,3) space by auto
  have len: "length (dropWhile (\<lambda>c. \<not> is_space c) cs) = length cs - length (takeWhile (\<lambda>c. \<not> is_space c) cs)"
    by (metis add_diff_cancel_left' length_append takeWhile_dropWhile_id)
  have neq: "dropWhile (\<lambda>c. \<not> is_space c) cs \<noteq> c # cs"
    by (metis dropWhile_eq_Cons_conv not_Cons_self2 assms(3))
  have le: "length (takeWhile (\<lambda>c. \<not> is_space c) cs) \<le> length cs" by (rule length_takeWhile_le)
  from label obtain u where u: "after_owner (map code l @ t) = Some u" "after_key u = Some t"
    by (auto simp: bind_eq_Some_conv)
  have "match_label (map code l @ t) =
      Some (length (map code l @ t) - length (dropWhile (\<lambda>c. \<not> is_space c) cs))"
    unfolding match_label_def Let_def by (simp add: u t1 t2 neq space assms(3))
  also have "length (map code l @ t) - length (dropWhile (\<lambda>c. \<not> is_space c) cs) =
      length l + 2 * length gap + 2 + length (takeWhile (\<lambda>c. \<not> is_space c) cs)"
    unfolding len t_def using le by simp
  finally show ?thesis unfolding t_def .
qed

lemma labels_ascii: "\<forall>l \<in> set labels. list_all (\<lambda>c. ascii c \<and> \<not> assigns (code c)) l"
  by code_simp

lemma replace_whole_match:
  assumes "secret_at before (map fst (m @ rs)) = Some (length m)" and "m \<noteq> []"
  shows "replace_from before (m @ rs) = replacement m @ replace_from (Some (fst (last m))) rs"
proof -
  obtain n where n: "length m = Suc n" using assms(2) by (cases m) auto
  have "replace_from before (m @ rs) = replacement (take (Suc n) (m @ rs)) @
      replace_from (Some (fst (last (take (Suc n) (m @ rs))))) (drop (Suc n) (m @ rs))"
    by (rule replace_from_match) (use assms n in simp_all)
  then show ?thesis by (simp add: n [symmetric])
qed



text \<open>
  C39: A bare key in base64 is not removed.  Every key of 32 bytes in base64 ends with an equals
  sign, the expression matches it with the sign included, and what stands before the first equals
  sign of a match is kept: the whole key is in the line that is logged.
\<close>

theorem redact_keeps_bare_key:
  assumes "length raw = 32"
  shows "redact (b64_encode raw) = b64_encode raw @ ''<redacted>''"
proof -
  obtain a where a: "b64_encode raw = a @ ''=''" "length a = 43" "list_all key_char a"
    using b64_encode_mod2 [of raw] assms by auto
  have runes: "runes (b64_encode raw) = map ascii_rune a @ [ascii_rune (CHR ''='')]"
    unfolding a(1) runes_key_chars [OF a(3)] by (subst runes_ascii_Cons) (simp_all add: ascii_def code_def)
  have codes: "map fst (map ascii_rune a @ [ascii_rune (CHR ''='')]) = map code a @ [61]"
    by (simp add: comp_def code_def [of "CHR ''=''"])
  have class64: "list_all class64 (map code a)"
    using class64_key_chars [OF a(3)] by (simp add: comp_def)
  have "match_label (map code a @ [61]) = None"
    by (rule match_label_none_prefix) (use a class64 in simp_all)
  moreover have "match_base64 (map code a @ [61]) = Some 44"
    by (rule match_base64_44) (use a class64 in simp_all)
  ultimately have "secret_at None (map fst (map ascii_rune a @ [ascii_rune (CHR ''='')])) = Some 44"
    unfolding codes by (simp add: secret_at_def)
  then have "replace_from None ((map ascii_rune a @ [ascii_rune (CHR ''='')]) @ []) =
      replacement (map ascii_rune a @ [ascii_rune (CHR ''='')]) @ replace_from (Some 61) []"
    by (subst replace_whole_match) (use a(2) in \<open>simp_all add: code_def\<close>)
  moreover have "upto_assignment (map ascii_rune a @ [ascii_rune (CHR ''='')]) = Some (a @ ''='')"
    by (subst upto_assignment_at) (simp_all add: not_assigns_key_chars a(3), simp add: assigns_def)
  ultimately show ?thesis
    unfolding redact_def runes by (simp add: replacement_def redacted_def a(1))
qed

theorem redact_keeps_bare_key_witness:
  "redact (b64_encode (replicate 32 7)) = b64_encode (replicate 32 7) @ ''<redacted>''"
  by (rule redact_keeps_bare_key) simp

text \<open>
  A bare key in hexadecimal is removed in part.  The alternative for base64 is tried first and
  takes 44 of its 64 digits, and the remaining 20 are no match: they are in the line that is logged.
\<close>

theorem redact_keeps_hex_tail:
  assumes "length raw = 32"
  shows "redact (hex_encode raw) = ''<redacted>'' @ drop 44 (hex_encode raw)"
proof -
  let ?h = "hex_encode raw"
  have keys: "list_all key_char ?h"
    using hex_encode_chars [of raw] key_char_hex by (auto simp: list_all_iff)
  then have split: "list_all key_char (take 44 ?h)" "list_all key_char (drop 44 ?h)"
    by (metis append_take_drop_id list_all_append)+
  have len: "length ?h = 64" using assms by simp
  let ?m = "map ascii_rune (take 44 ?h)" and ?t = "map ascii_rune (drop 44 ?h)"
  have runes: "runes ?h = ?m @ ?t"
    using runes_key_chars [OF keys, of "[]"] by (simp flip: map_append)
  have class64: "list_all class64 (map code ?h)"
    using class64_key_chars [OF keys] by (simp add: comp_def)
  have codes: "map fst (?m @ ?t) = map code (take 43 ?h) @ map code (drop 43 ?h)"
    by (simp flip: map_append add: comp_def)
  have "match_label (map code ?h) = None" using class64 by (rule match_label_none)
  moreover have "match_base64 (map code (take 43 ?h) @ map code (drop 43 ?h)) = Some 44"
  proof (rule match_base64_44)
    have "list_all class64 (map code (take 43 ?h) @ map code (drop 43 ?h))"
      using class64 by (simp flip: map_append)
    then show "list_all class64 (map code (take 43 ?h))"
      "list_all (\<lambda>c. class64 c \<or> c = 61) (take 1 (map code (drop 43 ?h)))"
      by (auto simp: list_all_iff dest!: in_set_takeD)
  qed (use len in simp_all)
  ultimately have "secret_at None (map fst (?m @ ?t)) = Some (length ?m)"
    using len unfolding codes by (simp add: secret_at_def flip: map_append)
  then have "replace_from None (?m @ ?t) = replacement ?m @ replace_from (Some (fst (last ?m))) ?t"
    by (rule replace_whole_match) (use len in \<open>auto simp del: length_hex_encode\<close>)
  moreover have "replacement ?m = redacted"
    using upto_assignment_none [OF not_assigns_key_chars [OF split(1)]] by (simp add: replacement_def)
  moreover have "replace_from b ?t = drop 44 ?h" for b
    using replace_from_class64 [of ?t b] split(2) len
    by (simp add: list.pred_map comp_def key_char_def list_all_iff)
  ultimately show ?thesis unfolding redact_def runes by (simp add: redacted_def)
qed

theorem redact_keeps_hex_tail_witness:
  "redact (hex_encode (replicate 32 7)) = ''<redacted>'' @ drop 44 (hex_encode (replicate 32 7))"
  by (rule redact_keeps_hex_tail) simp

section \<open>How much is kept\<close>

datatype log_op =
    Record instant string
  | Detail instant string
  | Switch instant bool
  | Erase

fun log_step :: "log_op \<Rightarrow> Log \<Rightarrow> Log" where
  "log_step (Record t m) l = Logf t m l"
| "log_step (Detail t m) l = Verbosef t m l"
| "log_step (Switch t on) l = SetVerbose t on l"
| "log_step Erase l = Clear l"

text \<open>The lines recorded since the log was last emptied, all of them.\<close>

definition log_line :: "instant \<Rightarrow> string \<Rightarrow> string" where
  "log_line t m = clock_stamp t @ ''  '' @ redact m"

fun history_step :: "bool \<Rightarrow> log_op \<Rightarrow> string list \<Rightarrow> string list" where
  "history_step on (Record t m) h = h @ [log_line t m]"
| "history_step on (Detail t m) h = (if on then h @ [log_line t m] else h)"
| "history_step on (Switch t b) h = h"
| "history_step on Erase h = []"

fun switches :: "log_op \<Rightarrow> bool" where
  "switches (Switch t on) = True"
| "switches _ = False"

lemma log_step_recent:
  "\<not> switches op \<Longrightarrow> lines l = ring.recent h \<Longrightarrow>
   lines (log_step op l) = ring.recent (history_step (verbose l) op h) \<and> verbose (log_step op l) = verbose l"
  by (cases op)
    (simp_all add: Logf_def Verbosef_def Clear_def log_line_def ring.push_recent ring.recent_def [of "[]"])

lemma log_fold_recent:
  "list_all (\<lambda>op. \<not> switches op) ops \<Longrightarrow> lines l = ring.recent h \<Longrightarrow>
   lines (fold log_step ops l) = ring.recent (fold (history_step (verbose l)) ops h)"
proof (induction ops arbitrary: l h)
  case Nil
  then show ?case by simp
next
  case (Cons op ops)
  then show ?case using log_step_recent [of op l h] by simp
qed

text \<open>
  C31: As long as nobody touches the switch, the log is the last 400 of the lines recorded since it
  was emptied, in order, with the verbose ones exactly when the switch is on; so it never holds
  more than 400.
\<close>

theorem log_keeps_last:
  assumes "list_all (\<lambda>op. \<not> switches op) ops" and "lines l = []"
  shows "Lines (fold log_step ops l) =
      (let h = fold (history_step (verbose l)) ops [] in drop (length h - 400) h) \<and>
    length (Lines (fold log_step ops l)) \<le> 400"
proof -
  have "lines l = ring.recent []" using assms(2) by (simp add: ring.recent_def)
  from log_fold_recent [OF assms(1) this] show ?thesis
    by (simp add: Lines_def Let_def ring.recent_def) (simp add: capacity_def)
qed

theorem log_keeps_last_witness:
  "length (Lines (fold log_step (replicate 500 (Record 0 ''x'')) empty_Log)) \<le> 400"
proof -
  have "list_all (\<lambda>op. \<not> switches op) (replicate 500 (Record 0 ''x''))" "lines empty_Log = []"
    by (simp_all add: list_all_iff empty_Log_def)
  from log_keeps_last [OF this] show ?thesis by blast
qed

text \<open>
  The bound does not survive the switch.  Flipping it while the log is full puts a line beyond
  the capacity, and from then on nothing is dropped any more: every line recorded makes the log
  one longer, without end.
\<close>

theorem switch_unbounds_log:
  assumes "length (lines l) = 400"
  shows "Lines (fold (\<lambda>(t, m). Logf t m) msgs (SetVerbose now on l)) =
      Lines (SetVerbose now on l) @ map (\<lambda>(t, m). log_line t m) msgs \<and>
    length (Lines (fold (\<lambda>(t, m). Logf t m) msgs (SetVerbose now on l))) = 401 + length msgs"
proof -
  have grow: "lines (fold (\<lambda>(t, m). Logf t m) msgs l') = lines l' @ map (\<lambda>(t, m). log_line t m) msgs"
    if "400 < length (lines l')" for l'
    using that
  proof (induction msgs arbitrary: l')
    case Nil
    then show ?case by simp
  next
    case (Cons tm msgs)
    obtain t m where tm: "tm = (t, m)" by (cases tm)
    have "lines (Logf t m l') = lines l' @ [log_line t m]"
      using Cons.prems by (simp add: Logf_def push_line_def capacity_def log_line_def)
    with Cons tm show ?case by simp
  qed
  then show ?thesis
    using assms by (simp add: Lines_def SetVerbose_def)
qed

theorem switch_unbounds_log_witness:
  "length (Lines (fold (\<lambda>(t, m). Logf t m) (replicate 1000 (0, ''x''))
     (SetVerbose 0 True \<lparr>lines = replicate 400 [], verbose = False\<rparr>))) = 401 + length (replicate 1000 (0 :: instant, ''x''))"
proof -
  have "length (lines \<lparr>lines = replicate 400 [], verbose = False\<rparr>) = 400" by simp
  from switch_unbounds_log [OF this] show ?thesis by blast
qed

end
