(* ===== verification/Handshake.thy ===== *)
theory Handshake
  imports Go_Text
begin

text \<open>
  \<^verbatim>\<open>core/internal/handshake/handshake.go\<close>: when a device last heard from its peer, read from
  a UAPI dump, and the loop that waits for it.  A \<^verbatim>\<open>time.Time\<close> made by \<^verbatim>\<open>time.Unix\<close> is
  its number of seconds since the zero time, an \<^verbatim>\<open>int64\<close> that wraps; zero is the zero time.
\<close>

section \<open>Times\<close>

definition wrap64 :: "int \<Rightarrow> int" where
  "wrap64 i = (i + 2 ^ 63) mod 2 ^ 64 - 2 ^ 63"

lemma wrap64_id: "in_int64 i \<Longrightarrow> wrap64 i = i"
  by (simp add: wrap64_def in_int64_def int64_min_def int64_max_def)

text \<open>Seconds from the zero time (the year 1) to the Unix epoch.\<close>

definition unixToInternal :: int where
  "unixToInternal = 62135596800"

definition time_Unix :: "int \<Rightarrow> int" where
  "time_Unix sec = wrap64 (sec + unixToInternal)"

definition Unix_of :: "int \<Rightarrow> int" where
  "Unix_of t = wrap64 (t - unixToInternal)"

section \<open>Reading a dump\<close>

definition handshakePrefix :: string where
  "handshakePrefix = ''last_handshake_time_sec=''"

definition Parse_line :: "int \<Rightarrow> string \<Rightarrow> int" where
  "Parse_line latest line =
     (case CutPrefix line handshakePrefix of
        None \<Rightarrow> latest
      | Some v \<Rightarrow>
          (case ParseInt64 (TrimSpace v) of
             None \<Rightarrow> latest
           | Some sec \<Rightarrow>
               if sec \<le> 0 then latest
               else let at = time_Unix sec in if at > latest then at else latest))"

definition Parse :: "string \<Rightarrow> int" where
  "Parse uapi = foldl Parse_line 0 (Split newline uapi)"

section \<open>Waiting\<close>

definition pollEvery :: duration where
  "pollEvery = 200 * milliseconds"

text \<open>
  The loop, from its \<open>i\<close>-th round on: \<open>read i\<close> is what the call of \<^verbatim>\<open>read\<close> returns in that
  round (\<open>None\<close> for an error) and \<open>clock i\<close> what \<^verbatim>\<open>time.Now\<close> returns after it.  The value
  \<open>None\<close> is not returning.
\<close>

definition answered :: "string option \<Rightarrow> bool" where
  "answered r = (case r of None \<Rightarrow> False | Some uapi \<Rightarrow> Parse uapi \<noteq> 0)"

partial_function (option) wait_loop ::
  "(nat \<Rightarrow> string option) \<Rightarrow> (nat \<Rightarrow> instant) \<Rightarrow> instant \<Rightarrow> nat \<Rightarrow> bool option" where
  "wait_loop read clock deadline i =
     (if answered (read i) then Some True
      else if clock i > deadline then Some False
      else wait_loop read clock deadline (i + 1))"

text \<open>\<^verbatim>\<open>Wait\<close>, called at \<open>start\<close>.\<close>

definition Wait ::
  "(nat \<Rightarrow> string option) \<Rightarrow> (nat \<Rightarrow> instant) \<Rightarrow> instant \<Rightarrow> duration \<Rightarrow> bool option" where
  "Wait read clock start timeout = wait_loop read clock (start + timeout) 0"

section \<open>The latest handshake\<close>

text \<open>The seconds a dump states, one for each line that states them well.\<close>

definition stated :: "string \<Rightarrow> int list" where
  "stated uapi =
     concat (map (\<lambda>line.
       (case CutPrefix line handshakePrefix of
          None \<Rightarrow> []
        | Some v \<Rightarrow> (case ParseInt64 (TrimSpace v) of
             None \<Rightarrow> [] | Some s \<Rightarrow> if s \<le> 0 then [] else [s]))) (Split newline uapi))"

lemma foldl_Parse_line:
  "foldl Parse_line latest ls =
     fold max (map time_Unix (concat (map (\<lambda>line.
       (case CutPrefix line handshakePrefix of
          None \<Rightarrow> []
        | Some v \<Rightarrow> (case ParseInt64 (TrimSpace v) of
             None \<Rightarrow> [] | Some s \<Rightarrow> if s \<le> 0 then [] else [s]))) ls))) latest"
  by (induction ls arbitrary: latest)
    (auto simp: Parse_line_def Let_def max_def split: option.split)

lemma Parse_stated: "Parse uapi = Max (insert 0 (time_Unix ` set (stated uapi)))"
proof -
  have "Parse uapi = fold max (map time_Unix (stated uapi)) 0"
    by (simp add: Parse_def stated_def foldl_Parse_line)
  also have "\<dots> = Max (set (0 # map time_Unix (stated uapi)))"
    by (subst Max.set_eq_fold) simp
  finally show ?thesis by simp
qed

lemma stated_positive: "s \<in> set (stated uapi) \<Longrightarrow> 0 < s \<and> in_int64 s"
  by (auto simp: stated_def dest: ParseInt64_range [OF sym] split: option.splits if_splits)

lemma time_Unix_small: "0 < s \<Longrightarrow> s \<le> int64_max - unixToInternal \<Longrightarrow> time_Unix s = s + unixToInternal"
  unfolding time_Unix_def
  by (rule wrap64_id) (simp add: in_int64_def int64_min_def unixToInternal_def)

lemma time_Unix_large: "s \<le> int64_max \<Longrightarrow> int64_max - unixToInternal < s \<Longrightarrow> time_Unix s < 0"
proof -
  assume s: "s \<le> int64_max" "int64_max - unixToInternal < s"
  have "(s + unixToInternal + 2 ^ 63) mod 2 ^ 64 = (s + unixToInternal + 2 ^ 63 - 2 ^ 64) mod 2 ^ 64"
    by (rule minus_mod_self2 [symmetric])
  also have "\<dots> = s + unixToInternal + 2 ^ 63 - 2 ^ 64"
    by (rule mod_pos_pos_trivial) (use s in \<open>simp_all add: int64_max_def unixToInternal_def\<close>)
  finally have "(s + unixToInternal + 2 ^ 63) mod 2 ^ 64 = s + unixToInternal + 2 ^ 63 - 2 ^ 64" .
  with s show ?thesis by (simp add: time_Unix_def wrap64_def int64_max_def unixToInternal_def)
qed

section \<open>The loop returns\<close>

lemma wait_loop_unfold:
  assumes "\<forall>j. i \<le> j \<and> j < i + n \<longrightarrow> \<not> answered (read j) \<and> clock j \<le> deadline"
  shows "wait_loop read clock deadline i = wait_loop read clock deadline (i + n)"
  using assms
proof (induction n)
  case 0
  then show ?case by simp
next
  case (Suc n)
  then have "\<not> answered (read (i + n)) \<and> clock (i + n) \<le> deadline" by simp
  then have "wait_loop read clock deadline (i + n) = wait_loop read clock deadline (i + n + 1)"
    by (subst wait_loop.simps) simp
  with Suc show ?case by simp
qed

lemma wait_loop_at:
  assumes "\<forall>j < n. \<not> answered (read j) \<and> clock j \<le> deadline"
    and "answered (read n) \<or> clock n > deadline"
  shows "wait_loop read clock deadline 0 = Some (answered (read n))"
proof -
  have "wait_loop read clock deadline 0 = wait_loop read clock deadline n"
    using wait_loop_unfold [of 0 n read clock deadline] assms(1) by simp
  also have "\<dots> = Some (answered (read n))"
    using assms(2) by (subst wait_loop.simps) auto
  finally show ?thesis .
qed

lemma clock_advances:
  assumes "\<forall>i. clock i + pollEvery \<le> clock (Suc i)"
  shows "clock 0 + int n * pollEvery \<le> clock n"
proof (induction n)
  case 0
  then show ?case by simp
next
  case (Suc n)
  then show ?case using assms [rule_format, of n] by (simp add: distrib_right)
qed

text \<open>How often \<^verbatim>\<open>read\<close> is called at most: once, and once for each full poll interval.\<close>

definition rounds :: "duration \<Rightarrow> nat" where
  "rounds timeout = nat (timeout div pollEvery) + 1"

lemma deadline_passes:
  assumes "\<forall>i. clock i + pollEvery \<le> clock (Suc i)" and "start \<le> clock 0" and "0 \<le> timeout"
  shows "clock (rounds timeout) > start + timeout"
proof -
  have p: "0 < pollEvery" by (simp add: pollEvery_def milliseconds_def)
  have "timeout < int (rounds timeout) * pollEvery"
  proof -
    have "timeout = timeout div pollEvery * pollEvery + timeout mod pollEvery" by simp
    moreover have "timeout mod pollEvery < pollEvery" using p by simp
    ultimately have "timeout < (timeout div pollEvery + 1) * pollEvery"
      by (simp only: distrib_right)
    moreover have "0 \<le> timeout div pollEvery" using p assms(3) by (simp add: pos_imp_zdiv_nonneg_iff)
    ultimately show ?thesis by (simp add: rounds_def add.commute)
  qed
  with clock_advances [OF assms(1), of "rounds timeout"] assms(2) show ?thesis by linarith
qed

section \<open>Properties\<close>

text \<open>
  The latest handshake.  \<^verbatim>\<open>Parse\<close> returns the latest of the positive times the dump states,
  whatever the number and order of its lines, and the zero time when it states none.  A number of
  seconds so large that \<^verbatim>\<open>time.Unix\<close> overflows counts as none.
\<close>

theorem Parse_latest:
  "(set (stated uapi) \<inter> {s. s \<le> int64_max - unixToInternal} = {} \<longrightarrow> Parse uapi = 0) \<and>
   (set (stated uapi) \<inter> {s. s \<le> int64_max - unixToInternal} \<noteq> {} \<longrightarrow>
      Parse uapi = time_Unix (Max (set (stated uapi) \<inter> {s. s \<le> int64_max - unixToInternal})) \<and>
      0 < Parse uapi)"
proof -
  let ?A = "set (stated uapi)" and ?S = "{s. s \<le> int64_max - unixToInternal}"
  have fin: "finite (time_Unix ` ?A)" by simp
  have large: "time_Unix s < 0" if "s \<in> ?A" "s \<notin> ?S" for s
    using that stated_positive [of s uapi] by (intro time_Unix_large) (auto simp: in_int64_def)
  have small: "time_Unix s = s + unixToInternal \<and> 0 < s + unixToInternal" if "s \<in> ?A" "s \<in> ?S" for s
    using that stated_positive [of s uapi] time_Unix_small [of s] by (simp add: unixToInternal_def)
  have "Parse uapi = 0" if "?A \<inter> ?S = {}"
    unfolding Parse_stated by (rule Max_eqI) (use that large in \<open>force+\<close>)
  moreover have "Parse uapi = time_Unix (Max (?A \<inter> ?S)) \<and> 0 < Parse uapi" if ne: "?A \<inter> ?S \<noteq> {}"
  proof -
    have m: "Max (?A \<inter> ?S) \<in> ?A \<inter> ?S" using ne by (intro Max_in) auto
    have "Max (insert 0 (time_Unix ` ?A)) = time_Unix (Max (?A \<inter> ?S))"
    proof (rule Max_eqI)
      fix t assume t: "t \<in> insert 0 (time_Unix ` ?A)"
      have pos: "0 < time_Unix (Max (?A \<inter> ?S))" using small m by simp
      from t consider "t = 0" | s where "s \<in> ?A" "s \<notin> ?S" "t = time_Unix s"
        | s where "s \<in> ?A" "s \<in> ?S" "t = time_Unix s" by blast
      then show "t \<le> time_Unix (Max (?A \<inter> ?S))"
      proof cases
        case 3
        then have "s \<le> Max (?A \<inter> ?S)" by (intro Max_ge) auto
        with 3 small m show ?thesis by simp
      qed (use pos large in force)+
    qed (use m in auto)
    with small m show ?thesis unfolding Parse_stated by simp
  qed
  ultimately show ?thesis by blast
qed

theorem Parse_latest_witness:
  "\<exists>dump. stated dump = [5, 9] \<and> Parse dump = time_Unix 9"
proof -
  define dump where "dump = ''last_handshake_time_sec=5'' @ newline # ''last_handshake_time_sec= 9 ''"
  have stated: "stated dump = [5, 9]" unfolding dump_def by code_simp
  have "{5, 9} \<inter> {s. s \<le> int64_max - unixToInternal} = {5, 9 :: int}"
    by (auto simp: int64_max_def unixToInternal_def)
  with Parse_latest [of dump] show ?thesis
    by (intro exI [of _ dump]) (simp add: stated)
qed

text \<open>
  C29: \<^verbatim>\<open>Wait\<close> returns.  When sleeping advances the clock by what was asked for, it returns
  after at most one call of \<^verbatim>\<open>read\<close> for each 200 milliseconds of the timeout and two more, and
  its answer is true exactly when one of the calls it makes before the deadline has passed reports
  a handshake.
\<close>

theorem Wait_returns:
  assumes "\<forall>i. clock i + pollEvery \<le> clock (Suc i)" and "start \<le> clock 0" and "0 \<le> timeout"
  shows "\<exists>n \<le> rounds timeout.
     Wait read clock start timeout = Some (answered (read n)) \<and>
     (\<forall>j < n. \<not> answered (read j) \<and> clock j \<le> start + timeout) \<and>
     (Wait read clock start timeout = Some True \<longleftrightarrow>
        (\<exists>i. answered (read i) \<and> (\<forall>j < i. clock j \<le> start + timeout)))"
proof -
  let ?stop = "\<lambda>n. answered (read n) \<or> clock n > start + timeout"
  define n where "n = (LEAST n. ?stop n)"
  have last: "?stop (rounds timeout)" using deadline_passes [OF assms] by simp
  then have n: "?stop n" "n \<le> rounds timeout"
    unfolding n_def by (rule LeastI, rule Least_le)
  have "\<not> ?stop j" if "j < n" for j
    using that unfolding n_def by (rule not_less_Least)
  then have before: "\<forall>j < n. \<not> answered (read j) \<and> clock j \<le> start + timeout"
    by (simp add: not_less)
  have result: "Wait read clock start timeout = Some (answered (read n))"
    unfolding Wait_def using wait_loop_at [OF before n(1)] .
  have "answered (read n)" if "answered (read i)" "\<forall>j < i. clock j \<le> start + timeout" for i
    using that n(1) before by (metis linorder_neqE_nat not_less)
  then have "Wait read clock start timeout = Some True \<longleftrightarrow>
      (\<exists>i. answered (read i) \<and> (\<forall>j < i. clock j \<le> start + timeout))"
    unfolding result using before by blast
  with before n(2) result show ?thesis by (intro exI [of _ n]) simp
qed

theorem Wait_returns_witness:
  "\<exists>b. Wait (\<lambda>_. None) (\<lambda>i. int i * pollEvery) 0 seconds = Some b"
proof -
  have "\<forall>i. int i * pollEvery + pollEvery \<le> int (Suc i) * pollEvery"
    by (simp add: distrib_right)
  moreover have "0 \<le> int 0 * pollEvery" "0 \<le> seconds" by (simp_all add: seconds_def)
  ultimately show ?thesis
    using Wait_returns [of "\<lambda>i. int i * pollEvery" 0 seconds "\<lambda>_. None"] by meson
qed

end
