(* ===== verification/Release.thy ===== *)
theory Release
  imports Go_Encoding
begin

text \<open>
  \<^verbatim>\<open>core/internal/release/verify.go\<close>: whether a file was signed by one of the trusted keys.
  The signature scheme itself is a parameter: \<open>signs key message sig\<close> is whether Ed25519 accepts,
  for a key of 32 bytes; \<^verbatim>\<open>ed25519.Verify\<close> panics on a key of any other length, and a panic
  is the value \<open>None\<close>.  The file system is a parameter of \<open>VerifyFile\<close>.
\<close>

section \<open>Keys\<close>

datatype key_error =
    KeyNotBase64 string
  | KeyLength string nat
  | NoTrustedKeys

datatype verify_error =
    ErrUntrusted
  | OpenFailed
  | ReadFailed

type_synonym Trusted = "bytes list"

definition PublicKeySize :: nat where "PublicKeySize = 32"
definition SignatureSize :: nat where "SignatureSize = 64"

definition parseKey :: "string \<Rightarrow> Trusted \<Rightarrow> key_error + Trusted" where
  "parseKey v keys =
     (case b64_decode v of
        None \<Rightarrow> Inl (KeyNotBase64 v)
      | Some raw \<Rightarrow>
          if length raw \<noteq> PublicKeySize then Inl (KeyLength v (length raw)) else Inr (keys @ [raw]))"

definition ParseTrusted :: "string list \<Rightarrow> key_error + Trusted" where
  "ParseTrusted encoded =
     bindE (foldE parseKey encoded [])
       (\<lambda>keys. if length keys = 0 then Inl NoTrustedKeys else Inr keys)"

section \<open>Verification\<close>

definition ed25519_Verify ::
  "(bytes \<Rightarrow> bytes \<Rightarrow> bytes \<Rightarrow> bool) \<Rightarrow> bytes \<Rightarrow> bytes \<Rightarrow> bytes \<Rightarrow> bool option" where
  "ed25519_Verify signs key message sig =
     (if length key \<noteq> PublicKeySize then None
      else Some (length sig = SignatureSize \<and> signs key message sig))"

fun verify_keys ::
  "(bytes \<Rightarrow> bytes \<Rightarrow> bytes \<Rightarrow> bool) \<Rightarrow> bytes \<Rightarrow> bytes \<Rightarrow> bytes list \<Rightarrow> bool \<Rightarrow> bool option" where
  "verify_keys signs message raw [] accepted = Some accepted"
| "verify_keys signs message raw (key # keys) accepted =
     Option.bind (ed25519_Verify signs key message raw)
       (\<lambda>ok. verify_keys signs message raw keys (if ok then True else accepted))"

text \<open>\<^verbatim>\<open>Verify\<close>: a panic, an error, or success.\<close>

definition Verify ::
  "(bytes \<Rightarrow> bytes \<Rightarrow> bytes \<Rightarrow> bool) \<Rightarrow> bytes \<Rightarrow> string \<Rightarrow> Trusted \<Rightarrow> (verify_error + unit) option"
  where
  "Verify signs message signature keys =
     (case b64_decode signature of
        None \<Rightarrow> Some (Inl ErrUntrusted)
      | Some raw \<Rightarrow>
          if length raw \<noteq> SignatureSize then Some (Inl ErrUntrusted)
          else Option.bind (verify_keys signs message raw keys False)
            (\<lambda>accepted. Some (if \<not> accepted then Inl ErrUntrusted else Inr ())))"

text \<open>A file opens or not, and is then read to its end or not.\<close>

definition VerifyFile ::
  "(bytes \<Rightarrow> bytes \<Rightarrow> bytes \<Rightarrow> bool) \<Rightarrow> (string \<Rightarrow> bytes option option) \<Rightarrow> string \<Rightarrow> string \<Rightarrow> Trusted \<Rightarrow>
     (verify_error + unit) option" where
  "VerifyFile signs files path signature keys =
     (case files path of
        None \<Rightarrow> Some (Inl OpenFailed)
      | Some None \<Rightarrow> Some (Inl ReadFailed)
      | Some (Some contents) \<Rightarrow> Verify signs contents signature keys)"

section \<open>Facts\<close>

definition well_sized :: "Trusted \<Rightarrow> bool" where
  "well_sized keys \<longleftrightarrow> (\<forall>key \<in> set keys. length key = PublicKeySize)"

lemma parseKey_fold:
  "foldE parseKey encoded keys = Inr keys' \<longleftrightarrow>
     (\<exists>raws. those (map b64_decode encoded) = Some raws \<and> well_sized raws \<and> keys' = keys @ raws)"
proof (induction encoded arbitrary: keys)
  case Nil
  then show ?case by (auto simp: well_sized_def)
next
  case (Cons v encoded)
  show ?case
  proof (cases "b64_decode v")
    case None
    then show ?thesis by (simp add: parseKey_def)
  next
    case (Some raw)
    then show ?thesis
      using Cons by (auto simp: parseKey_def well_sized_def)
  qed
qed

lemma ParseTrusted_iff:
  "ParseTrusted encoded = Inr keys \<longleftrightarrow>
     those (map b64_decode encoded) = Some keys \<and> well_sized keys \<and> keys \<noteq> []"
  by (auto simp: ParseTrusted_def parseKey_fold split: if_splits)

lemma verify_keys_well_sized:
  "well_sized keys \<Longrightarrow> verify_keys signs message raw keys accepted =
     Some (accepted \<or> (length raw = SignatureSize \<and> (\<exists>key \<in> set keys. signs key message raw)))"
  by (induction keys arbitrary: accepted) (auto simp: well_sized_def ed25519_Verify_def)

lemma Verify_well_sized:
  "well_sized keys \<Longrightarrow> Verify signs message signature keys =
     Some (if \<exists>raw. b64_decode signature = Some raw \<and> length raw = SignatureSize \<and>
                    (\<exists>key \<in> set keys. signs key message raw)
           then Inr () else Inl ErrUntrusted)"
  by (auto simp: Verify_def verify_keys_well_sized split: option.split)

section \<open>Properties\<close>

text \<open>
  C28: Only a signature by a trusted key is accepted, and one that is, is.  With keys that
  \<^verbatim>\<open>ParseTrusted\<close> returned, verifying never panics; it succeeds exactly when the signature is
  base64 of 64 bytes and some key of the set, whichever it is and wherever it stands, signed the
  message; every other outcome is the one error \<^verbatim>\<open>ErrUntrusted\<close>.
\<close>

theorem Verify_exactly_trusted:
  assumes "ParseTrusted encoded = Inr keys"
  shows "Verify signs message signature keys \<noteq> None \<and>
     (Verify signs message signature keys = Some (Inr ()) \<longleftrightarrow>
        (\<exists>v raw key. v \<in> set encoded \<and> b64_decode v = Some key \<and>
           b64_decode signature = Some raw \<and> length raw = 64 \<and> signs key message raw)) \<and>
     (Verify signs message signature keys \<noteq> Some (Inr ()) \<longrightarrow>
        Verify signs message signature keys = Some (Inl ErrUntrusted))"
proof -
  have keys: "those (map b64_decode encoded) = Some keys" "well_sized keys"
    using assms by (simp_all add: ParseTrusted_iff)
  have "those (map f xs) = Some ys \<Longrightarrow> set ys = {y. \<exists>x \<in> set xs. f x = Some y}"
    for f :: "string \<Rightarrow> bytes option" and xs ys
  proof (induction xs arbitrary: ys)
    case Nil
    then show ?case by simp
  next
    case (Cons x xs)
    then show ?case by (cases "f x") auto
  qed
  from this [OF keys(1)] show ?thesis
    by (auto simp: Verify_well_sized [OF keys(2)] SignatureSize_def)
qed

lemma sample_trusted: "ParseTrusted [b64_encode (replicate 32 7)] = Inr [replicate 32 7]"
  by (simp add: ParseTrusted_iff well_sized_def PublicKeySize_def)

theorem Verify_exactly_trusted_witness:
  "Verify (\<lambda>key message sig. message = [1]) [1] (b64_encode (replicate 64 0)) [replicate 32 7] = Some (Inr ())"
  using Verify_exactly_trusted [OF sample_trusted, of "\<lambda>key message sig. message = [1]" "[1]"
      "b64_encode (replicate 64 0)"]
  by simp

text \<open>
  A set of keys is never empty and never holds a key of a wrong length, and it is refused for
  the first value that is not base64 or not 32 bytes, whatever follows it.
\<close>

theorem ParseTrusted_keys:
  "(ParseTrusted encoded = Inr keys \<longrightarrow>
      keys \<noteq> [] \<and> length keys = length encoded \<and> (\<forall>key \<in> set keys. length key = 32)) \<and>
   (\<forall>raws. well_sized raws \<longrightarrow> b64_decode bad = None \<longrightarrow>
      ParseTrusted (map b64_encode raws @ bad # rest) = Inl (KeyNotBase64 bad)) \<and>
   (\<forall>raws raw. well_sized raws \<longrightarrow> length raw \<noteq> 32 \<longrightarrow>
      ParseTrusted (map b64_encode raws @ b64_encode raw # rest) =
        Inl (KeyLength (b64_encode raw) (length raw)))"
proof -
  have those_length: "those xs = Some ys \<Longrightarrow> length ys = length xs" for xs :: "bytes option list" and ys
    by (induction xs arbitrary: ys) (auto split: option.splits)
  have those_Some: "those (map (\<lambda>x. Some x) xs) = Some xs" for xs :: "bytes list"
    by (induction xs) auto
  have "foldE parseKey (map b64_encode raws) [] = Inr raws" if "well_sized raws" for raws
    using that by (simp add: parseKey_fold comp_def those_Some)
  then show ?thesis
    using those_length [of "map b64_decode encoded" keys]
    by (auto simp: ParseTrusted_iff well_sized_def PublicKeySize_def)
      (auto simp: ParseTrusted_def foldE_append parseKey_def PublicKeySize_def well_sized_def)
qed

theorem ParseTrusted_keys_witness:
  "ParseTrusted [b64_encode (replicate 32 7), ''?''] = Inl (KeyNotBase64 ''?'')"
proof -
  have "b64_decode ''?'' = None" by code_simp
  moreover have "well_sized [replicate 32 7]" by (simp add: well_sized_def PublicKeySize_def)
  moreover have "well_sized [replicate 32 7] \<longrightarrow> b64_decode ''?'' = None \<longrightarrow>
      ParseTrusted (map b64_encode [replicate 32 7] @ ''?'' # []) = Inl (KeyNotBase64 ''?'')"
    using ParseTrusted_keys [of "[]" "[]" "''?''" "[]", THEN conjunct2, THEN conjunct1] by (rule spec)
  ultimately show ?thesis by simp
qed

end
