(* ===== verification/World.thy ===== *)
theory World
  imports Go_Text "HOL-Library.State_Monad"
begin

text \<open>
  Effects.  The program's calls to the operating system, the device layer and the clock are values
  of \<open>call\<close>; what they return is decided by an environment, a function of everything that happened
  before, about which nothing is assumed unless a theorem says so.  A function of the source that
  makes such calls is a computation over the trace of calls and answers, in the state monad of the
  library; one that can fail returns an error sum.
\<close>

section \<open>Calls and answers\<close>

datatype call =
    Exec string "string list"
  | LookPath string
  | Readlink string
  | ReadFile string
  | WriteFile string string
  | RemoveFile string
  | Symlink string string
  | LookupHost string
  | Now
  | Sleep duration
  | CreateTUN string int
  | TunName
  | TunHandle
  | TunClose
  | NewDevice
  | IpcSet string
  | DeviceUp
  | IpcGet
  | DeviceClose
  | Os string "string list"

text \<open>\<open>Os\<close> is any other call of the system, by its name.\<close>

datatype answer =
    Done string
  | Failed string
  | Missing
  | Hosts "string list"
  | Clock instant
  | Handle int

type_synonym trace = "(call \<times> answer) list"
type_synonym environment = "trace \<Rightarrow> call \<Rightarrow> answer"
type_synonym 'a io = "(trace, 'a) state"

text \<open>Errors: what failed, and the text each layer puts in front of it.\<close>

datatype failure =
    ExecFailed string "string list"
  | OsFailed call
  | NotExist
  | Message string
  | Context string failure
  | Problems "(string \<times> failure) list"

section \<open>The combinators\<close>

definition ret :: "'a \<Rightarrow> 'a io" where
  "ret = State_Monad.return"

definition ask :: "environment \<Rightarrow> call \<Rightarrow> answer io" where
  "ask env c = State (\<lambda>t. (env t c, t @ [(c, env t c)]))"

text \<open>\<^verbatim>\<open>if err != nil { return err }\<close> and \<^verbatim>\<open>fmt.Errorf("...: %w", err)\<close>.\<close>

definition andThen :: "('e + 'a) io \<Rightarrow> ('a \<Rightarrow> ('e + 'b) io) \<Rightarrow> ('e + 'b) io" where
  "andThen m f = State_Monad.bind m (\<lambda>r. (case r of Inl e \<Rightarrow> ret (Inl e) | Inr a \<Rightarrow> f a))"

definition inContext :: "string \<Rightarrow> (failure + 'a) io \<Rightarrow> (failure + 'a) io" where
  "inContext what m = State_Monad.bind m (\<lambda>r. ret (wrapE (Context what) r))"

text \<open>A call whose answer is its output or an error.\<close>

definition attempt :: "environment \<Rightarrow> call \<Rightarrow> (failure + string) io" where
  "attempt env c = State_Monad.bind (ask env c) (\<lambda>r. ret
     (case r of Done out \<Rightarrow> Inr out | Missing \<Rightarrow> Inl NotExist | _ \<Rightarrow> Inl (OsFailed c)))"

fun forEach :: "('x \<Rightarrow> (failure + unit) io) \<Rightarrow> 'x list \<Rightarrow> (failure + unit) io" where
  "forEach f [] = ret (Inr ())"
| "forEach f (x # xs) = andThen (f x) (\<lambda>_. forEach f xs)"

text \<open>A loop that threads a value and never stops early.\<close>

fun foldIO :: "('x \<Rightarrow> 'v \<Rightarrow> 'v io) \<Rightarrow> 'x list \<Rightarrow> 'v \<Rightarrow> 'v io" where
  "foldIO f [] v = ret v"
| "foldIO f (x # xs) v = State_Monad.bind (f x v) (foldIO f xs)"

lemma run_ret [simp]: "run_state (ret x) t = (x, t)"
  by (simp add: ret_def)

lemma run_ask [simp]: "run_state (ask env c) t = (env t c, t @ [(c, env t c)])"
  by (simp add: ask_def)

lemma run_andThen:
  "run_state (andThen m f) t =
     (case run_state m t of (Inl e, t') \<Rightarrow> (Inl e, t') | (Inr a, t') \<Rightarrow> run_state (f a) t')"
  by (auto simp: andThen_def split: prod.split sum.split)

lemma run_inContext [simp]:
  "run_state (inContext what m) t = (case run_state m t of (r, t') \<Rightarrow> (wrapE (Context what) r, t'))"
  by (simp add: inContext_def)

lemma run_attempt [simp]:
  "run_state (attempt env c) t =
     ((case env t c of Done out \<Rightarrow> Inr out | Missing \<Rightarrow> Inl NotExist | _ \<Rightarrow> Inl (OsFailed c)),
      t @ [(c, env t c)])"
  by (simp add: attempt_def)

section \<open>Triples\<close>

text \<open>
  \<open>triple P m Q\<close>: from a trace of \<open>P\<close>, \<open>m\<close> gives a result and a trace of \<open>Q\<close>.  Every
  computation ends, so this is total correctness.
\<close>

definition triple :: "('s \<Rightarrow> bool) \<Rightarrow> ('s, 'a) state \<Rightarrow> ('a \<Rightarrow> 's \<Rightarrow> bool) \<Rightarrow> bool" where
  "triple P m Q \<longleftrightarrow> (\<forall>t. P t \<longrightarrow> (case run_state m t of (a, t') \<Rightarrow> Q a t'))"

named_theorems triples \<open>rules for triples\<close>

lemma tripleD: "triple P m Q \<Longrightarrow> P t \<Longrightarrow> run_state m t = (a, t') \<Longrightarrow> Q a t'"
  by (auto simp: triple_def)

lemma triple_ret [triples]: "(\<And>t. P t \<Longrightarrow> Q x t) \<Longrightarrow> triple P (ret x) Q"
  by (simp add: triple_def)

lemma triple_bind [triples]:
  "triple P m R \<Longrightarrow> (\<And>a. triple (R a) (f a) Q) \<Longrightarrow> triple P (State_Monad.bind m f) Q"
  by (fastforce simp: triple_def split: prod.splits)

lemma triple_weaken: "triple P m R \<Longrightarrow> (\<And>t. P' t \<Longrightarrow> P t) \<Longrightarrow> (\<And>a t. R a t \<Longrightarrow> Q a t) \<Longrightarrow> triple P' m Q"
  by (fastforce simp: triple_def split: prod.splits)

lemma triple_ask [triples]: "(\<And>t. P t \<Longrightarrow> Q (env t c) (t @ [(c, env t c)])) \<Longrightarrow> triple P (ask env c) Q"
  by (simp add: triple_def)

lemma triple_andThen [triples]:
  "triple P m (\<lambda>r t. (case r of Inl e \<Rightarrow> Q (Inl e) t | Inr a \<Rightarrow> R a t)) \<Longrightarrow>
   (\<And>a. triple (R a) (f a) Q) \<Longrightarrow> triple P (andThen m f) Q"
  unfolding andThen_def
  by (rule triple_bind, assumption) (auto simp: triple_def split: sum.splits)

lemma triple_inContext [triples]:
  "triple P m (\<lambda>r. Q (wrapE (Context what) r)) \<Longrightarrow> triple P (inContext what m) Q"
  by (auto simp: triple_def split: prod.splits)

lemma triple_attempt [triples]:
  assumes "\<And>t out. P t \<Longrightarrow> env t c = Done out \<Longrightarrow> Q (Inr out) (t @ [(c, Done out)])"
    and "\<And>t a e. P t \<Longrightarrow> env t c = a \<Longrightarrow> (\<And>out. a \<noteq> Done out) \<Longrightarrow> Q (Inl e) (t @ [(c, a)])"
  shows "triple P (attempt env c) Q"
  using assms by (auto simp: triple_def split: answer.split)

text \<open>\<open>keeps I m\<close>: whatever happens, \<open>I\<close> still holds.  \<open>gives P m R\<close>: if \<open>m\<close> succeeds from
  \<open>P\<close>, then \<open>R\<close>.\<close>

definition keeps :: "('s \<Rightarrow> bool) \<Rightarrow> ('s, 'a) state \<Rightarrow> bool" where
  "keeps I m \<longleftrightarrow> triple I m (\<lambda>_. I)"

definition gives :: "('s \<Rightarrow> bool) \<Rightarrow> ('s, 'e + 'a) state \<Rightarrow> ('s \<Rightarrow> bool) \<Rightarrow> bool" where
  "gives P m R \<longleftrightarrow> triple P m (\<lambda>r t. (case r of Inl e \<Rightarrow> True | Inr a \<Rightarrow> R t))"

named_theorems keeps_rules \<open>rules for \<open>keeps\<close>\<close>
named_theorems gives_rules \<open>rules for \<open>gives\<close>\<close>

lemma keepsD: "keeps I m \<Longrightarrow> I t \<Longrightarrow> I (snd (run_state m t))"
  by (cases "run_state m t") (auto simp: keeps_def triple_def)

lemma givesD: "gives P m R \<Longrightarrow> P t \<Longrightarrow> run_state m t = (Inr a, t') \<Longrightarrow> R t'"
  by (force simp: gives_def triple_def)

lemma keeps_ret [keeps_rules]: "keeps I (ret x)"
  by (simp add: keeps_def triple_ret)

lemma keeps_bind [keeps_rules]:
  "keeps I m \<Longrightarrow> (\<And>a. keeps I (f a)) \<Longrightarrow> keeps I (State_Monad.bind m f)"
  unfolding keeps_def by (rule triple_bind)

lemma keeps_andThen [keeps_rules]:
  "keeps I m \<Longrightarrow> (\<And>a. keeps I (f a)) \<Longrightarrow> keeps I (andThen m f)"
  unfolding andThen_def by (rule keeps_bind) (auto split: sum.split intro: keeps_ret)

lemma keeps_inContext [keeps_rules]: "keeps I m \<Longrightarrow> keeps I (inContext what m)"
  unfolding inContext_def by (intro keeps_bind keeps_ret)

lemma keeps_ask [keeps_rules]: "(\<And>t a. I t \<Longrightarrow> I (t @ [(c, a)])) \<Longrightarrow> keeps I (ask env c)"
  by (simp add: keeps_def triple_def)

lemma keeps_attempt [keeps_rules]: "(\<And>t a. I t \<Longrightarrow> I (t @ [(c, a)])) \<Longrightarrow> keeps I (attempt env c)"
  by (simp add: keeps_def triple_def)

lemma keeps_forEach [keeps_rules]: "(\<And>x. x \<in> set xs \<Longrightarrow> keeps I (f x)) \<Longrightarrow> keeps I (forEach f xs)"
  by (induction xs) (simp_all add: keeps_ret keeps_andThen)

lemma keeps_foldIO [keeps_rules]:
  "(\<And>x v. x \<in> set xs \<Longrightarrow> keeps I (f x v)) \<Longrightarrow> keeps I (foldIO f xs v)"
  by (induction xs arbitrary: v) (simp_all add: keeps_ret keeps_bind)

lemma keeps_if [keeps_rules]: "(b \<Longrightarrow> keeps I m) \<Longrightarrow> (\<not> b \<Longrightarrow> keeps I m') \<Longrightarrow> keeps I (if b then m else m')"
  by simp

lemma gives_ret [gives_rules]: "(\<And>t. P t \<Longrightarrow> R t) \<Longrightarrow> gives P (ret x) R"
  by (auto simp: gives_def triple_def split: sum.split)

lemma gives_andThen [gives_rules]:
  "gives P m R \<Longrightarrow> (\<And>a. gives R (f a) S) \<Longrightarrow> gives P (andThen m f) S"
  by (fastforce simp: gives_def triple_def run_andThen split: prod.splits sum.splits)

lemma gives_inContext [gives_rules]: "gives P m R \<Longrightarrow> gives P (inContext what m) R"
  unfolding gives_def by (rule triple_inContext) (auto elim!: triple_weaken split: sum.splits)

lemma gives_attempt [gives_rules]:
  "(\<And>t out. P t \<Longrightarrow> R (t @ [(c, Done out)])) \<Longrightarrow> gives P (attempt env c) R"
  by (auto simp: gives_def triple_def split: sum.split answer.split)

lemma gives_if [gives_rules]:
  "(b \<Longrightarrow> gives P m R) \<Longrightarrow> (\<not> b \<Longrightarrow> gives P m' R) \<Longrightarrow> gives P (if b then m else m') R"
  by simp

lemma gives_keeps: "keeps I m \<Longrightarrow> gives I m I"
  unfolding keeps_def gives_def by (auto elim!: triple_weaken split: sum.splits)

lemma gives_weaken: "gives P m R \<Longrightarrow> (\<And>t. P' t \<Longrightarrow> P t) \<Longrightarrow> (\<And>t. R t \<Longrightarrow> R' t) \<Longrightarrow> gives P' m R'"
  unfolding gives_def by (erule triple_weaken) (auto split: sum.splits)

text \<open>Every computation only adds to the trace.\<close>

lemma keeps_suffix_step: "\<exists>s. t = t0 @ s \<Longrightarrow> \<exists>s. t @ [x] = t0 @ s"
  by auto

end
