(* ===== verification/System_Linux.thy ===== *)
theory System_Linux
  imports World Go_Netip
begin

text \<open>
  \<^verbatim>\<open>core/internal/system/network_linux.go\<close>: taking over a Linux machine's routing and DNS and
  putting them back.  Every command and file operation is a call of \<open>World\<close>, in the order of the
  source; a file's bytes are a string.  \<open>machine\<close> is what these calls change.
\<close>

section \<open>Data\<close>

record Network =
  Interface :: string
  AdapterHandle :: int
  Address :: string
  NetMTU :: int
  EndpointHost :: string
  NetDNS :: "string list"

record State =
  DefaultGateway :: string
  DefaultInterface :: string
  Resolved :: bool
  PreviousResolvConf :: "string option"
  ResolvConfLink :: string

definition empty_State :: State where
  "empty_State =
     \<lparr>DefaultGateway = [], DefaultInterface = [], Resolved = False,
      PreviousResolvConf = None, ResolvConfLink = []\<rparr>"

definition resolvConf :: string where
  "resolvConf = ''/etc/resolv.conf''"

definition defaultHalves :: "string list" where
  "defaultHalves = [''0.0.0.0/1'', ''128.0.0.0/1'']"

definition v6Halves :: "string list" where
  "v6Halves = [''::/1'', ''8000::/1'']"

section \<open>Commands\<close>

definition run :: "environment \<Rightarrow> string \<Rightarrow> string list \<Rightarrow> (failure + string) io" where
  "run env name args = do {
     r \<leftarrow> ask env (Exec name args);
     ret (case r of Done out \<Rightarrow> Inr out | _ \<Rightarrow> Inl (ExecFailed name args))
   }"

text \<open>A command whose output is not used.\<close>

definition runs :: "environment \<Rightarrow> string \<Rightarrow> string list \<Rightarrow> (failure + unit) io" where
  "runs env name args = andThen (run env name args) (\<lambda>_. ret (Inr ()))"

section \<open>Snapshot\<close>

text \<open>\<^verbatim>\<open>strings.Fields\<close>: the words between white space.\<close>

function Fields_from :: "string \<Rightarrow> string \<Rightarrow> string list" where
  "Fields_from word s =
     (if s = [] then (if word = [] then [] else [word])
      else (case find (\<lambda>w. w \<noteq> [] \<and> HasPrefix s w) space_runes of
              Some w \<Rightarrow> (if word = [] then [] else [word]) @ Fields_from [] (drop (length w) s)
            | None \<Rightarrow> Fields_from (word @ [hd s]) (tl s)))"
  by pat_completeness auto
termination
  by (relation "measure (\<lambda>(word, s). length s)") (auto simp: find_Some_iff)

definition Fields :: "string \<Rightarrow> string list" where
  "Fields s = Fields_from [] s"

text \<open>The loop over the fields of the default route: the gateway and the interface.\<close>

fun route_fields :: "string list \<Rightarrow> string \<times> string \<Rightarrow> string \<times> string" where
  "route_fields (f # g # rest) (gw, dev) =
     route_fields (g # rest)
       (if f = ''via'' then (g, dev) else if f = ''dev'' then (gw, g) else (gw, dev))"
| "route_fields _ gd = gd"

definition defaultRoute :: "string \<Rightarrow> string \<times> string" where
  "defaultRoute out =
     (case find (\<lambda>ws. ws \<noteq> [] \<and> hd ws = ''default'') (map Fields (Split newline out)) of
        None \<Rightarrow> ([], [])
      | Some ws \<Rightarrow> route_fields ws ([], []))"

definition resolvedIsAnswering :: "environment \<Rightarrow> bool io" where
  "resolvedIsAnswering env = do {
     path \<leftarrow> attempt env (LookPath ''resolvectl'');
     (case path of
        Inl e \<Rightarrow> ret False
      | Inr _ \<Rightarrow> do {
          r \<leftarrow> run env ''resolvectl'' [''status''];
          ret (case r of Inl e \<Rightarrow> False | Inr _ \<Rightarrow> True)
        })
   }"

text \<open>What is read of \<^verbatim>\<open>/etc/resolv.conf\<close> when resolved is not answering.\<close>

definition snapshotResolv :: "environment \<Rightarrow> State \<Rightarrow> State io" where
  "snapshotResolv env st = do {
     target \<leftarrow> attempt env (Readlink resolvConf);
     contents \<leftarrow> attempt env (ReadFile resolvConf);
     ret (st\<lparr>ResolvConfLink := (case target of Inl e \<Rightarrow> [] | Inr t \<Rightarrow> t),
             PreviousResolvConf := (case contents of Inl e \<Rightarrow> None | Inr c \<Rightarrow> Some c)\<rparr>)
   }"

definition Snapshot :: "environment \<Rightarrow> (failure + State) io" where
  "Snapshot env =
     andThen (inContext ''finding the default route'' (run env ''ip'' [''-4'', ''route'', ''show'', ''default'']))
       (\<lambda>out.
         let (gw, dev) = defaultRoute out in
         if gw = [] \<or> dev = [] then
           ret (Inl (Message ''no default route: this machine is not on a network''))
         else do {
           resolved \<leftarrow> resolvedIsAnswering env;
           let st = empty_State\<lparr>DefaultGateway := gw, DefaultInterface := dev, Resolved := resolved\<rparr> in
           do {
             st' \<leftarrow> (if resolved then ret st else snapshotResolv env st);
             ret (Inr st')
           }
         })"

section \<open>Apply\<close>

text \<open>\<^verbatim>\<open>net.ParseIP\<close>: an address without a zone.\<close>

definition ParseIP :: "string \<Rightarrow> addr option" where
  "ParseIP s =
     (case ParseAddr s of
        None \<Rightarrow> None
      | Some (V4 a b c d) \<Rightarrow> Some (V4 a b c d)
      | Some (V6 bs zone) \<Rightarrow> if zone = [] then Some (V6 bs zone) else None)"

definition resolvHeader :: string where
  "resolvHeader =
     ''# Written by Caelo while a tunnel is up.'' @ newline
     # ''# The previous contents are restored when it comes down.'' @ [newline]"

text \<open>The file's contents, or the first server that is not an address (without the quotes of
  \<^verbatim>\<open>%q\<close>).\<close>

definition resolvFile :: "string list \<Rightarrow> failure + string" where
  "resolvFile servers =
     foldE (\<lambda>server file.
       if ParseIP server = None then Inl (Message (''DNS server '' @ server @ '' is not an address''))
       else Inr (file @ ''nameserver '' @ server @ [newline])) servers resolvHeader"

definition applyDNS :: "environment \<Rightarrow> State \<Rightarrow> Network \<Rightarrow> (failure + unit) io" where
  "applyDNS env st cfg =
     (if Resolved st then
        andThen (inContext (''setting DNS on '' @ Interface cfg)
            (runs env ''resolvectl'' ([''dns'', Interface cfg] @ NetDNS cfg)))
          (\<lambda>_. inContext (''claiming DNS for '' @ Interface cfg)
            (runs env ''resolvectl'' [''domain'', Interface cfg, ''~.'']))
      else
        (case resolvFile (NetDNS cfg) of
           Inl e \<Rightarrow> ret (Inl e)
         | Inr file \<Rightarrow>
             andThen
               (if ResolvConfLink st \<noteq> [] then
                  inContext (''replacing '' @ resolvConf)
                    (andThen (attempt env (RemoveFile resolvConf)) (\<lambda>_. ret (Inr ())))
                else ret (Inr ()))
               (\<lambda>_. inContext (''writing '' @ resolvConf)
                 (andThen (attempt env (WriteFile resolvConf file)) (\<lambda>_. ret (Inr ()))))))"

text \<open>The route that keeps the server reachable, and the two loops over the halves.\<close>

definition pinEndpoint :: "environment \<Rightarrow> State \<Rightarrow> Network \<Rightarrow> (failure + unit) io" where
  "pinEndpoint env st cfg =
     inContext ''pinning the endpoint route''
       (runs env ''ip'' [''route'', ''add'', EndpointHost cfg @ ''/32'',
          ''via'', DefaultGateway st, ''dev'', DefaultInterface st])"

definition routeHalves :: "environment \<Rightarrow> Network \<Rightarrow> (failure + unit) io" where
  "routeHalves env cfg =
     forEach (\<lambda>half. inContext (''routing '' @ half @ '' into the tunnel'')
       (runs env ''ip'' [''route'', ''add'', half, ''dev'', Interface cfg])) defaultHalves"

definition blockV6 :: "environment \<Rightarrow> (failure + unit) io" where
  "blockV6 env =
     forEach (\<lambda>half. do {
       _ \<leftarrow> run env ''ip'' [''-6'', ''route'', ''add'', ''unreachable'', half];
       ret (Inr ())
     }) v6Halves"

definition Apply :: "environment \<Rightarrow> State \<Rightarrow> Network \<Rightarrow> (failure + unit) io" where
  "Apply env st cfg =
     andThen (inContext (''addressing '' @ Interface cfg)
       (runs env ''ip'' [''address'', ''add'', Address cfg @ ''/32'', ''dev'', Interface cfg])) (\<lambda>_.
     andThen (if 0 < NetMTU cfg then inContext (''setting MTU on '' @ Interface cfg)
         (runs env ''ip'' [''link'', ''set'', ''dev'', Interface cfg, ''mtu'', Itoa (NetMTU cfg)])
       else ret (Inr ())) (\<lambda>_.
     andThen (inContext (''bringing '' @ Interface cfg @ '' up'')
       (runs env ''ip'' [''link'', ''set'', ''dev'', Interface cfg, ''up''])) (\<lambda>_.
     andThen (pinEndpoint env st cfg) (\<lambda>_.
     andThen (routeHalves env cfg) (\<lambda>_.
     andThen (blockV6 env) (\<lambda>_.
     if NetDNS cfg \<noteq> [] then applyDNS env st cfg else ret (Inr ())))))))"

section \<open>Restore\<close>

text \<open>\<^verbatim>\<open>note\<close> adds a problem and goes on.\<close>

definition note_problem :: "string \<Rightarrow> failure + 'a \<Rightarrow> (string \<times> failure) list \<Rightarrow> (string \<times> failure) list"
  where
  "note_problem what r problems = (case r of Inl e \<Rightarrow> problems @ [(what, e)] | Inr _ \<Rightarrow> problems)"

definition attempt_command ::
  "environment \<Rightarrow> string \<Rightarrow> string \<Rightarrow> string list \<Rightarrow> (string \<times> failure) list \<Rightarrow> (string \<times> failure) list io"
  where
  "attempt_command env what name args problems = do {
     r \<leftarrow> run env name args;
     ret (note_problem what r problems)
   }"

text \<open>\<^verbatim>\<open>os.Remove\<close>, not existing being no error.\<close>

definition removeIfPresent :: "environment \<Rightarrow> string \<Rightarrow> (failure + unit) io" where
  "removeIfPresent env path = do {
     r \<leftarrow> attempt env (RemoveFile path);
     ret (case r of Inr _ \<Rightarrow> Inr () | Inl NotExist \<Rightarrow> Inr () | Inl e \<Rightarrow> Inl e)
   }"

definition restoreDNS :: "environment \<Rightarrow> State \<Rightarrow> Network \<Rightarrow> (failure + unit) io" where
  "restoreDNS env st cfg =
     (if Resolved st then runs env ''resolvectl'' [''revert'', Interface cfg]
      else if ResolvConfLink st \<noteq> [] then
        andThen (removeIfPresent env resolvConf)
          (\<lambda>_. andThen (attempt env (Symlink (ResolvConfLink st) resolvConf)) (\<lambda>_. ret (Inr ())))
      else (case PreviousResolvConf st of
              None \<Rightarrow> removeIfPresent env resolvConf
            | Some contents \<Rightarrow>
                andThen (attempt env (WriteFile resolvConf contents)) (\<lambda>_. ret (Inr ()))))"

definition Restore :: "environment \<Rightarrow> State \<Rightarrow> Network \<Rightarrow> (failure + unit) io" where
  "Restore env st cfg = do {
     problems \<leftarrow> foldIO (\<lambda>half. attempt_command env (''removing route '' @ half) ''ip''
       [''route'', ''del'', half, ''dev'', Interface cfg]) defaultHalves [];
     problems \<leftarrow> attempt_command env ''removing the endpoint route'' ''ip''
       [''route'', ''del'', EndpointHost cfg @ ''/32''] problems;
     _ \<leftarrow> foldIO (\<lambda>half _. do {
         _ \<leftarrow> run env ''ip'' [''-6'', ''route'', ''del'', ''unreachable'', half];
         ret ()
       }) v6Halves ();
     dns \<leftarrow> restoreDNS env st cfg;
     let problems = note_problem ''restoring DNS'' dns problems;
     ret (if problems \<noteq> [] then Inl (Problems problems) else Inr ())
   }"

lemma run_run [simp]:
  "run_state (run env name args) t =
     ((case env t (Exec name args) of Done out \<Rightarrow> Inr out | _ \<Rightarrow> Inl (ExecFailed name args)),
      t @ [(Exec name args, env t (Exec name args))])"
  by (simp add: run_def)

lemma triple_run [triples]:
  assumes "\<And>t out. P t \<Longrightarrow> env t (Exec name args) = Done out \<Longrightarrow> Q (Inr out) (t @ [(Exec name args, Done out)])"
    and "\<And>t a. P t \<Longrightarrow> env t (Exec name args) = a \<Longrightarrow> (\<And>out. a \<noteq> Done out) \<Longrightarrow>
      Q (Inl (ExecFailed name args)) (t @ [(Exec name args, a)])"
  shows "triple P (run env name args) Q"
  using assms by (auto simp: triple_def split: answer.split)

lemma triple_runs [triples]:
  assumes "\<And>t out. P t \<Longrightarrow> env t (Exec name args) = Done out \<Longrightarrow> Q (Inr ()) (t @ [(Exec name args, Done out)])"
    and "\<And>t a. P t \<Longrightarrow> env t (Exec name args) = a \<Longrightarrow> (\<And>out. a \<noteq> Done out) \<Longrightarrow>
      Q (Inl (ExecFailed name args)) (t @ [(Exec name args, a)])"
  shows "triple P (runs env name args) Q"
  using assms by (auto simp: triple_def run_def runs_def run_andThen split: answer.split)

lemma keeps_run [keeps_rules]:
  "(\<And>t a. I t \<Longrightarrow> I (t @ [(Exec name args, a)])) \<Longrightarrow> keeps I (run env name args)"
  by (simp add: keeps_def triple_def)

lemma keeps_runs [keeps_rules]:
  "(\<And>t a. I t \<Longrightarrow> I (t @ [(Exec name args, a)])) \<Longrightarrow> keeps I (runs env name args)"
  unfolding runs_def by (intro keeps_rules)

lemma gives_runs [gives_rules]:
  "(\<And>t out. P t \<Longrightarrow> R (t @ [(Exec name args, Done out)])) \<Longrightarrow> gives P (runs env name args) R"
  by (auto simp: gives_def triple_def runs_def run_andThen split: sum.split answer.split)

end
