(* ===== verification/Go_Json.thy ===== *)
theory Go_Json
  imports Go_Utf8
begin

text \<open>
  Go's \<^verbatim>\<open>encoding/json\<close>, as far as the core uses it: the syntax with its depth limit, strings
  with their escapes, numbers kept as text, decoding into the kinds of fields the program's structs
  have (with the case-insensitive match of names), and the compact rendering \<^verbatim>\<open>Marshal\<close> gives.
  A string is the bytes it stands for; a document is \<open>None\<close> when the syntax is rejected.
\<close>

section \<open>Values\<close>

datatype json =
    JNull
  | JBool bool
  | JNumber string
  | JString string
  | JArray "json list"
  | JObject "(string \<times> json) list"

section \<open>Code points\<close>

text \<open>\<^verbatim>\<open>utf8.AppendRune\<close>.\<close>

definition encode_rune :: "nat \<Rightarrow> string" where
  "encode_rune r =
     (if r < 0x80 then [char_of r]
      else if r < 0x800 then [char_of (0xC0 + r div 64), char_of (0x80 + r mod 64)]
      else if between 0xD800 0xDFFF r \<or> 0x10FFFF < r then [CHR 0xEF, CHR 0xBF, CHR 0xBD]
      else if r < 0x10000 then
        [char_of (0xE0 + r div 4096), char_of (0x80 + r div 64 mod 64), char_of (0x80 + r mod 64)]
      else
        [char_of (0xF0 + r div 262144), char_of (0x80 + r div 4096 mod 64),
         char_of (0x80 + r div 64 mod 64), char_of (0x80 + r mod 64)])"

definition hex_digit :: "char \<Rightarrow> bool" where
  "hex_digit c \<longleftrightarrow> is_digit c \<or> between 97 102 (code c) \<or> between 65 70 (code c)"

definition hex_digit_value :: "char \<Rightarrow> nat" where
  "hex_digit_value c =
     (if is_digit c then digit_val c else if code c < 97 then code c - 55 else code c - 87)"

definition hex4 :: "string \<Rightarrow> nat" where
  "hex4 = foldl (\<lambda>n c. 16 * n + hex_digit_value c) 0"

definition surrogate :: "nat \<Rightarrow> bool" where
  "surrogate r \<longleftrightarrow> between 0xD800 0xDFFF r"

text \<open>\<^verbatim>\<open>utf16.DecodeRune\<close>.\<close>

definition decode_surrogates :: "nat \<Rightarrow> nat \<Rightarrow> nat" where
  "decode_surrogates a b =
     (if between 0xD800 0xDBFF a \<and> between 0xDC00 0xDFFF b
      then (a - 0xD800) * 1024 + (b - 0xDC00) + 0x10000 else RuneError)"

section \<open>Strings\<close>

abbreviation quote :: char where "quote \<equiv> CHR 0x22"
abbreviation backslash :: char where "backslash \<equiv> CHR 0x5C"

text \<open>The scanner: the text between the quotes, escapes as written, and what follows.\<close>

fun scan_string :: "string \<Rightarrow> (string \<times> string) option" where
  "scan_string [] = None"
| "scan_string (c # s) =
     (if c = quote then Some ([], s)
      else if c = backslash then
        (case s of
           [] \<Rightarrow> None
         | e # s1 \<Rightarrow>
             if e \<in> set [quote, backslash, CHR ''/'', CHR ''b'', CHR ''f'', CHR ''n'', CHR ''r'', CHR ''t'']
             then map_option (\<lambda>(body, rest). (c # e # body, rest)) (scan_string s1)
             else if e = CHR ''u'' \<and> 4 \<le> length s1 \<and> list_all hex_digit (take 4 s1)
             then map_option (\<lambda>(body, rest). (c # e # take 4 s1 @ body, rest)) (scan_string (drop 4 s1))
             else None)
      else if code c < 0x20 then None
      else map_option (\<lambda>(body, rest). (c # body, rest)) (scan_string s))"

definition escaped_char :: "char \<Rightarrow> char" where
  "escaped_char e =
     (if e = CHR ''b'' then CHR 0x08 else if e = CHR ''f'' then CHR 0x0C
      else if e = CHR ''n'' then CHR 0x0A else if e = CHR ''r'' then CHR 0x0D
      else if e = CHR ''t'' then CHR 0x09 else e)"

text \<open>\<^verbatim>\<open>unquote\<close>: an escaped surrogate without its partner, and bytes that are no code point,
  become U+FFFD.\<close>

function unquote :: "string \<Rightarrow> string" where
  "unquote s =
     (case s of
        [] \<Rightarrow> []
      | c # s1 \<Rightarrow>
          if c = backslash then
            (case s1 of
               [] \<Rightarrow> []
             | e # s2 \<Rightarrow>
                 if e = CHR ''u'' then
                   (let r = hex4 (take 4 s2); s3 = drop 4 s2;
                        pair = decode_surrogates r (hex4 (take 4 (drop 2 s3)))
                    in if surrogate r \<and> HasPrefix s3 [backslash, CHR ''u''] \<and> pair \<noteq> RuneError
                       then encode_rune pair @ unquote (drop 6 s3)
                       else encode_rune r @ unquote s3)
                 else escaped_char e # unquote s2)
          else if code c < 0x80 then c # unquote s1
          else (let (r, w) = decode_rune (map code (take 4 s))
                in encode_rune r @ unquote (drop w s)))"
  by pat_completeness auto
termination
proof (relation "measure length")
  fix s c s1 x r w
  assume "s = (c :: char) # s1" "x = decode_rune (map code (take 4 s))" "(r, w) = x"
  then have "0 < w" using decode_rune_width by (metis snd_conv)
  with \<open>s = c # s1\<close> show "(drop w s, s) \<in> measure length" by simp
qed auto

declare unquote.simps [simp del]

section \<open>Numbers\<close>

text \<open>The optional fraction and exponent: \<open>None\<close> when one is begun and not finished.\<close>

definition scan_fraction :: "string \<Rightarrow> (string \<times> string) option" where
  "scan_fraction s =
     (case s of
        [] \<Rightarrow> Some ([], s)
      | c # s1 \<Rightarrow>
          if c \<noteq> CHR ''.'' then Some ([], s)
          else (let ds = takeWhile is_digit s1 in
                if ds = [] then None else Some (c # ds, dropWhile is_digit s1)))"

definition scan_exponent :: "string \<Rightarrow> (string \<times> string) option" where
  "scan_exponent s =
     (case s of
        [] \<Rightarrow> Some ([], s)
      | c # s1 \<Rightarrow>
          if c \<noteq> CHR ''e'' \<and> c \<noteq> CHR ''E'' then Some ([], s)
          else (let sg = (case s1 of [] \<Rightarrow> [] | d # _ \<Rightarrow> if d = CHR ''+'' \<or> d = CHR ''-'' then [d] else []);
                    s2 = drop (length sg) s1; ds = takeWhile is_digit s2
                in if ds = [] then None else Some (c # sg @ ds, dropWhile is_digit s2)))"

definition scan_number :: "string \<Rightarrow> (string \<times> string) option" where
  "scan_number s =
     (let sg = (if HasPrefix s ''-'' then ''-'' else []);
          s1 = drop (length sg) s;
          ds = (if HasPrefix s1 ''0'' then ''0'' else takeWhile is_digit s1);
          s2 = drop (length ds) s1
      in if ds = [] then None
         else Option.bind (scan_fraction s2) (\<lambda>(fr, s3).
              map_option (\<lambda>(ex, s4). (sg @ ds @ fr @ ex, s4)) (scan_exponent s3)))"

section \<open>Documents\<close>

definition json_space :: "char \<Rightarrow> bool" where
  "json_space c \<longleftrightarrow> c \<in> set [CHR '' '', CHR 0x09, CHR 0x0A, CHR 0x0D]"

abbreviation skip :: "string \<Rightarrow> string" where "skip \<equiv> dropWhile json_space"

text \<open>
  The reader.  Each call lowers the fuel by one; \<open>json_parse\<close> gives two units for every byte, and
  a value, an element or a member takes at most two calls for each byte it consumes.  \<open>d\<close> is how
  many more containers may be opened: ten thousand at the start.
\<close>

fun json_value :: "nat \<Rightarrow> nat \<Rightarrow> string \<Rightarrow> (json \<times> string) option"
  and json_elements :: "nat \<Rightarrow> nat \<Rightarrow> string \<Rightarrow> (json list \<times> string) option"
  and json_members :: "nat \<Rightarrow> nat \<Rightarrow> string \<Rightarrow> ((string \<times> json) list \<times> string) option"
  where
  "json_value 0 d s = None"
| "json_value (Suc f) d s =
     (case skip s of
        [] \<Rightarrow> None
      | c # r \<Rightarrow>
          if c = quote then map_option (\<lambda>(body, rest). (JString (unquote body), rest)) (scan_string r)
          else if c = CHR ''{'' then
            (if d = 0 then None
             else if HasPrefix (skip r) ''}'' then Some (JObject [], tl (skip r))
             else map_option (\<lambda>(ms, rest). (JObject ms, rest)) (json_members f (d - 1) r))
          else if c = CHR ''['' then
            (if d = 0 then None
             else if HasPrefix (skip r) '']'' then Some (JArray [], tl (skip r))
             else map_option (\<lambda>(vs, rest). (JArray vs, rest)) (json_elements f (d - 1) r))
          else if HasPrefix (c # r) ''null'' then Some (JNull, drop 3 r)
          else if HasPrefix (c # r) ''true'' then Some (JBool True, drop 3 r)
          else if HasPrefix (c # r) ''false'' then Some (JBool False, drop 4 r)
          else map_option (\<lambda>(t, rest). (JNumber t, rest)) (scan_number (c # r)))"
| "json_elements 0 d s = None"
| "json_elements (Suc f) d s =
     (case json_value f d s of
        None \<Rightarrow> None
      | Some (v, s1) \<Rightarrow>
          (case skip s1 of
             [] \<Rightarrow> None
           | c # r \<Rightarrow>
               if c = CHR '','' then map_option (\<lambda>(vs, rest). (v # vs, rest)) (json_elements f d r)
               else if c = CHR '']'' then Some ([v], r) else None))"
| "json_members 0 d s = None"
| "json_members (Suc f) d s =
     (if \<not> HasPrefix (skip s) [quote] then None
      else (case scan_string (tl (skip s)) of
        None \<Rightarrow> None
      | Some (body, s1) \<Rightarrow>
          if \<not> HasPrefix (skip s1) '':'' then None
          else (case json_value f d (tl (skip s1)) of
             None \<Rightarrow> None
           | Some (v, s2) \<Rightarrow>
               (case skip s2 of
                  [] \<Rightarrow> None
                | c # r \<Rightarrow>
                    if c = CHR '','' then
                      map_option (\<lambda>(ms, rest). ((unquote body, v) # ms, rest)) (json_members f d r)
                    else if c = CHR ''}'' then Some ([(unquote body, v)], r) else None))))"

definition maxNestingDepth :: nat where "maxNestingDepth = 10000"

definition json_parse :: "string \<Rightarrow> json option" where
  "json_parse s =
     (case json_value (2 * length s + 2) maxNestingDepth s of
        None \<Rightarrow> None
      | Some (v, rest) \<Rightarrow> if skip rest = [] then Some v else None)"

section \<open>Decoding into fields\<close>

text \<open>
  \<^verbatim>\<open>foldName\<close>: letters of either case, and the long s and the Kelvin sign, are the same.  A key
  names the field it equals, or else the first it folds to.
\<close>

definition fold_rune :: "nat \<Rightarrow> nat" where
  "fold_rune r = (if between 97 122 r then r - 32 else if r = 0x17F then 83 else if r = 0x212A then 75 else r)"

definition fold_name :: "string \<Rightarrow> nat list" where
  "fold_name s = map (fold_rune \<circ> fst) (runes s)"

definition field_named :: "string list \<Rightarrow> string \<Rightarrow> string option" where
  "field_named names key =
     (if key \<in> set names then Some key else find (\<lambda>n. fold_name n = fold_name key) names)"

text \<open>Decoding over an existing value: \<^verbatim>\<open>null\<close> leaves it, the wrong kind is an error.\<close>

definition into_string :: "json \<Rightarrow> string \<Rightarrow> string option" where
  "into_string j old = (case j of JNull \<Rightarrow> Some old | JString s \<Rightarrow> Some s | _ \<Rightarrow> None)"

definition into_int :: "json \<Rightarrow> int \<Rightarrow> int option" where
  "into_int j old = (case j of JNull \<Rightarrow> Some old | JNumber t \<Rightarrow> ParseInt64 t | _ \<Rightarrow> None)"

text \<open>
  A slice: an element that exists already is decoded over, a new one over the zero value.  (A
  document that gives the same list three times can meet what an earlier, longer list left behind
  the slice's end; that is not modelled.)
\<close>

fun into_elements :: "(json \<Rightarrow> 'a \<Rightarrow> 'a option) \<Rightarrow> 'a \<Rightarrow> json list \<Rightarrow> 'a list \<Rightarrow> 'a list option" where
  "into_elements dec zero [] old = Some []"
| "into_elements dec zero (j # js) old =
     Option.bind (dec j (case old of [] \<Rightarrow> zero | x # _ \<Rightarrow> x)) (\<lambda>x.
     map_option (Cons x) (into_elements dec zero js (tl old)))"

definition into_list :: "(json \<Rightarrow> 'a \<Rightarrow> 'a option) \<Rightarrow> 'a \<Rightarrow> json \<Rightarrow> 'a list \<Rightarrow> 'a list option" where
  "into_list dec zero j old =
     (case j of JNull \<Rightarrow> Some [] | JArray js \<Rightarrow> into_elements dec zero js old | _ \<Rightarrow> None)"

text \<open>A struct: the members in order, each decoded into the field it names; others are skipped.\<close>

definition into_struct ::
  "string list \<Rightarrow> (string \<Rightarrow> json \<Rightarrow> 'r \<Rightarrow> 'r option) \<Rightarrow> json \<Rightarrow> 'r \<Rightarrow> 'r option" where
  "into_struct names set_field j old =
     (case j of
        JNull \<Rightarrow> Some old
      | JObject ms \<Rightarrow>
          fold (\<lambda>(key, v) r. Option.bind r (\<lambda>x.
            (case field_named names key of None \<Rightarrow> Some x | Some n \<Rightarrow> set_field n v x))) ms (Some old)
      | _ \<Rightarrow> None)"

text \<open>
  \<^verbatim>\<open>strconv.ParseFloat(text, 64)\<close> on a number of the grammar fails when the value rounds
  beyond the largest float; \<open>m * 10 ^ e\<close> is the value.
\<close>

definition float_in_range :: "string \<Rightarrow> bool" where
  "float_in_range t =
     (let s = (if HasPrefix t ''-'' then tl t else t);
          ds = takeWhile is_digit s; s1 = dropWhile is_digit s;
          fr = (if HasPrefix s1 ''.'' then takeWhile is_digit (tl s1) else []);
          s2 = (if HasPrefix s1 ''.'' then dropWhile is_digit (tl s1) else s1);
          e = (if s2 = [] then 0
               else (case ParseInt64 (tl s2) of
                       Some e \<Rightarrow> e
                     | None \<Rightarrow> if HasPrefix (tl s2) ''-'' then - 10000 else 10000)) - int (length fr);
          m = int (nat_of_digits 0 (ds @ fr));
          limit = 2 ^ 1024 - 2 ^ 970
      in if 0 \<le> e then m * 10 ^ nat e < limit else m < limit * 10 ^ nat (- e))"

section \<open>Rendering\<close>

text \<open>\<^verbatim>\<open>Marshal\<close> of a string: quotes, backslashes, control characters and the characters HTML gives
  a meaning to are escaped; bytes that are no code point are written as the replacement
  character.\<close>

definition hex_low :: "nat \<Rightarrow> char" where
  "hex_low n = char_of (if n < 10 then 48 + n else 87 + n)"

definition json_char :: "char \<Rightarrow> string" where
  "json_char c =
     (if c = quote \<or> c = backslash then [backslash, c]
      else if c = CHR 0x08 then [backslash, CHR ''b''] else if c = CHR 0x0C then [backslash, CHR ''f'']
      else if c = CHR 0x0A then [backslash, CHR ''n''] else if c = CHR 0x0D then [backslash, CHR ''r'']
      else if c = CHR 0x09 then [backslash, CHR ''t'']
      else if code c < 0x20 \<or> c = CHR ''<'' \<or> c = CHR ''>'' \<or> c = CHR ''&''
      then [backslash, CHR ''u'', CHR ''0'', CHR ''0'', hex_low (code c div 16), hex_low (code c mod 16)]
      else [c])"

definition json_rune :: "rune \<Rightarrow> string" where
  "json_rune r =
     (if fst r < 0x80 then concat (map json_char (snd r))
      else if fst r = RuneError \<and> length (snd r) = 1 then [backslash] @ ''ufffd''
      else if fst r = 0x2028 then [backslash] @ ''u2028''
      else if fst r = 0x2029 then [backslash] @ ''u2029''
      else snd r)"

definition json_string :: "string \<Rightarrow> string" where
  "json_string s = quote # concat (map json_rune (runes s)) @ [quote]"

fun json_render :: "json \<Rightarrow> string" where
  "json_render JNull = ''null''"
| "json_render (JBool b) = (if b then ''true'' else ''false'')"
| "json_render (JNumber t) = t"
| "json_render (JString s) = json_string s"
| "json_render (JArray vs) = ''['' @ Join (map json_render vs) '','' @ '']''"
| "json_render (JObject ms) =
     ''{'' @ Join (map (\<lambda>(k, v). json_string k @ '':'' @ json_render v) ms) '','' @ ''}''"

end
