(* ===== verification/Awg_Endpoint.thy ===== *)
theory Awg_Endpoint
  imports Awg_Config Go_Json
begin

text \<open>
  \<^verbatim>\<open>core/internal/awg/endpoint.go\<close>: a node of a subscription, in JSON, read into the same
  configuration a \<^verbatim>\<open>.conf\<close> gives.  The fields of type \<^verbatim>\<open>Scalar\<close> are a finite map from
  their JSON names to their texts, a missing one being empty; \<open>scalarFields\<close> is the table of those
  names and of the parameters they set.  The loop that stores them ranges over a Go map, in no
  fixed order; only one of its entries can fail, so the order shows nowhere, and it is the
  table's here.
\<close>

section \<open>Data\<close>

definition EndpointType :: string where
  "EndpointType = ''amneziawg''"

record EndpointPeer =
  PeerAddress :: string
  PeerPort :: int
  PeerPublicKey :: string
  PreSharedKey :: string
  PeerAllowedIPs :: "string list"
  PersistentKeepaliveInterval :: int

record Node =
  NodeType :: string
  NodeTag :: string
  NodeAddress :: "string list"
  NodePrivateKey :: string
  NodeMTU :: int
  NodeDNS :: "string list"
  NodePeers :: "EndpointPeer list"
  NodeScalars :: "(string, string) fmap"

definition zero_EndpointPeer :: EndpointPeer where
  "zero_EndpointPeer =
     \<lparr>PeerAddress = [], PeerPort = 0, PeerPublicKey = [], PreSharedKey = [], PeerAllowedIPs = [],
      PersistentKeepaliveInterval = 0\<rparr>"

definition zero_Node :: Node where
  "zero_Node =
     \<lparr>NodeType = [], NodeTag = [], NodeAddress = [], NodePrivateKey = [], NodeMTU = 0, NodeDNS = [],
      NodePeers = [], NodeScalars = fmempty\<rparr>"

definition scalarFields :: "(string \<times> string) list" where
  "scalarFields =
     [(''jc'', ''jc''), (''jmin'', ''jmin''), (''jmax'', ''jmax''),
      (''s1'', ''s1''), (''s2'', ''s2''), (''s3'', ''s3''), (''s4'', ''s4''),
      (''h1'', ''h1''), (''h2'', ''h2''), (''h3'', ''h3''), (''h4'', ''h4''),
      (''i1'', ''i1''), (''i2'', ''i2''), (''i3'', ''i3''), (''i4'', ''i4''), (''i5'', ''i5''),
      (''header_protection_key'', ''headerprotectionkey''),
      (''content_padding_addition'', ''contentpaddingaddition''),
      (''rekey_after_time'', ''rekeyaftertime''),
      (''rekey_timeout'', ''rekeytimeout''),
      (''reject_after_time'', ''rejectaftertime''),
      (''keepalive_timeout'', ''keepalivetimeout''),
      (''max_handshake_attempts'', ''maxhandshakeattempts''),
      (''random_trailers'', ''randomtrailers''),
      (''disable_cookies'', ''disablecookies'')]"

definition scalar_of :: "Node \<Rightarrow> string \<Rightarrow> string" where
  "scalar_of e name = (case fmlookup (NodeScalars e) name of None \<Rightarrow> [] | Some v \<Rightarrow> v)"

section \<open>Decoding\<close>

text \<open>\<^verbatim>\<open>Scalar.UnmarshalJSON\<close>: a string, or a number kept as it is written.\<close>

definition UnmarshalScalar :: "json \<Rightarrow> string \<Rightarrow> string option" where
  "UnmarshalScalar j old =
     (case j of
        JNull \<Rightarrow> Some old
      | JString v \<Rightarrow> Some v
      | JNumber txt \<Rightarrow> if float_in_range txt then Some txt else None
      | _ \<Rightarrow> None)"

definition peerNames :: "string list" where
  "peerNames =
     [''address'', ''port'', ''public_key'', ''pre_shared_key'', ''allowed_ips'',
      ''persistent_keepalive_interval'']"

definition set_peer_field :: "string \<Rightarrow> json \<Rightarrow> EndpointPeer \<Rightarrow> EndpointPeer option" where
  "set_peer_field name j p =
     (if name = ''address'' then map_option (\<lambda>v. p\<lparr>PeerAddress := v\<rparr>) (into_string j (PeerAddress p))
      else if name = ''port'' then map_option (\<lambda>v. p\<lparr>PeerPort := v\<rparr>) (into_int j (PeerPort p))
      else if name = ''public_key'' then
        map_option (\<lambda>v. p\<lparr>PeerPublicKey := v\<rparr>) (into_string j (PeerPublicKey p))
      else if name = ''pre_shared_key'' then
        map_option (\<lambda>v. p\<lparr>PreSharedKey := v\<rparr>) (into_string j (PreSharedKey p))
      else if name = ''allowed_ips'' then
        map_option (\<lambda>v. p\<lparr>PeerAllowedIPs := v\<rparr>) (into_list into_string [] j (PeerAllowedIPs p))
      else map_option (\<lambda>v. p\<lparr>PersistentKeepaliveInterval := v\<rparr>)
        (into_int j (PersistentKeepaliveInterval p)))"

definition nodeNames :: "string list" where
  "nodeNames =
     [''type'', ''tag'', ''address'', ''private_key'', ''mtu'', ''dns'', ''peers'']
     @ map fst scalarFields"

definition set_node_field :: "string \<Rightarrow> json \<Rightarrow> Node \<Rightarrow> Node option" where
  "set_node_field name j e =
     (if name = ''type'' then map_option (\<lambda>v. e\<lparr>NodeType := v\<rparr>) (into_string j (NodeType e))
      else if name = ''tag'' then map_option (\<lambda>v. e\<lparr>NodeTag := v\<rparr>) (into_string j (NodeTag e))
      else if name = ''address'' then
        map_option (\<lambda>v. e\<lparr>NodeAddress := v\<rparr>) (into_list into_string [] j (NodeAddress e))
      else if name = ''private_key'' then
        map_option (\<lambda>v. e\<lparr>NodePrivateKey := v\<rparr>) (into_string j (NodePrivateKey e))
      else if name = ''mtu'' then map_option (\<lambda>v. e\<lparr>NodeMTU := v\<rparr>) (into_int j (NodeMTU e))
      else if name = ''dns'' then
        map_option (\<lambda>v. e\<lparr>NodeDNS := v\<rparr>) (into_list into_string [] j (NodeDNS e))
      else if name = ''peers'' then
        map_option (\<lambda>v. e\<lparr>NodePeers := v\<rparr>)
          (into_list (into_struct peerNames set_peer_field) zero_EndpointPeer j (NodePeers e))
      else map_option (\<lambda>v. e\<lparr>NodeScalars := fmupd name v (NodeScalars e)\<rparr>)
        (UnmarshalScalar j (scalar_of e name)))"

section \<open>The configuration of a node\<close>

definition joinHostPort :: "string \<Rightarrow> int \<Rightarrow> string" where
  "joinHostPort host port =
     (if Contains host '':'' \<and> \<not> HasPrefix host ''['' then ''['' @ host @ '']:'' @ Itoa port
      else host @ '':'' @ Itoa port)"

text \<open>The loops that read the addresses and store the obfuscation parameters.\<close>

definition addAddresses :: "string \<Rightarrow> string list \<Rightarrow> awg_error + addr list" where
  "addAddresses field texts =
     foldE (\<lambda>txt addrs.
       bindE (wrapE (InField field) (parseAddrList txt)) (\<lambda>more. Inr (addrs @ more))) texts []"

definition addScalars :: "Node \<Rightarrow> Config \<Rightarrow> awg_error + Config" where
  "addScalars e =
     foldE (\<lambda>(name, key) c.
       if scalar_of e name = [] then Inr c else SetObfuscation key (scalar_of e name) c) scalarFields"

definition Node_Config :: "Node \<Rightarrow> awg_error + Config" where
  "Node_Config e =
     (if NodeType e \<noteq> [] \<and> NodeType e \<noteq> EndpointType then Inl (WrongEndpointType (NodeType e))
      else if NodePeers e = [] then Inl NoPeers
      else if 1 < length (NodePeers e) then Inl (ManyPeers (length (NodePeers e)))
      else
        (let cfg = (if 0 < NodeMTU e then empty_Config\<lparr>MTU := NodeMTU e\<rparr> else empty_Config);
             p = hd (NodePeers e) in
         bindE (wrapE (InField ''private_key'') (keyToHex (NodePrivateKey e))) (\<lambda>privateKey.
         let cfg = cfg\<lparr>PrivateKey := privateKey\<rparr> in
         if NodeAddress e = [] then Inl NoAddress
         else bindE (addAddresses ''address'' (NodeAddress e)) (\<lambda>addrs.
         let cfg = cfg\<lparr>Addresses := addrs\<rparr> in
         if addrs = [] then Inl NoAddress
         else bindE (addAddresses ''dns'' (NodeDNS e)) (\<lambda>servers.
         let cfg = cfg\<lparr>DNS := servers\<rparr> in
         bindE (wrapE (InField ''public_key'') (keyToHex (PeerPublicKey p))) (\<lambda>publicKey.
         let cfg = cfg\<lparr>peer := (peer cfg)\<lparr>PublicKey := publicKey\<rparr>\<rparr> in
         bindE (if PreSharedKey p = [] then Inr cfg
                else bindE (wrapE (InField ''pre_shared_key'') (keyToHex (PreSharedKey p)))
                  (\<lambda>presharedKey. Inr (cfg\<lparr>peer := (peer cfg)\<lparr>PresharedKey := presharedKey\<rparr>\<rparr>))) (\<lambda>cfg.
         if PeerAddress p = [] \<or> PeerPort p = 0 then Inl PeerWithoutAddress
         else addScalars e (cfg\<lparr>peer := (peer cfg)
                \<lparr>Endpoint := joinHostPort (PeerAddress p) (PeerPort p),
                 AllowedIPs := (if PeerAllowedIPs p = [] then [''0.0.0.0/0''] else PeerAllowedIPs p),
                 Keepalive := PersistentKeepaliveInterval p\<rparr>\<rparr>))))))))"

definition ParseEndpoint :: "string \<Rightarrow> awg_error + Config" where
  "ParseEndpoint doc =
     (case Option.bind (json_parse doc) (\<lambda>j. into_struct nodeNames set_node_field j zero_Node) of
        None \<Rightarrow> Inl BadEndpointJSON
      | Some e \<Rightarrow> Node_Config e)"

section \<open>Either form\<close>

definition LooksLikeJSON :: "string \<Rightarrow> bool" where
  "LooksLikeJSON txt \<longleftrightarrow> HasPrefix (TrimSpace txt) ''{''"

definition Parse :: "string \<Rightarrow> awg_error + Config" where
  "Parse txt = (if LooksLikeJSON txt then ParseEndpoint txt else ParseConfig txt)"

end
