(* ===== verification/Systunnel.thy ===== *)
theory Systunnel
  imports System_Linux Awg_Endpoint Handshake Rtt
begin

text \<open>
  \<^verbatim>\<open>core/internal/systunnel\<close> on Linux: the controller that brings a tunnel up and down.  Its
  mutex makes each operation atomic.  The device layer's device is a flag, there being one at a
  time; what is done to it, to its tun interface and to the machine is in the trace of calls.
  The loop that waits for the server has a bound on its rounds, \<open>fuel\<close>; running out of it is the
  error \<open>WaitOutOfFuel\<close>, which the code does not have.
\<close>

section \<open>Data\<close>

record Status =
  StUp :: bool
  StInterface :: string
  StEndpoint :: string
  StProtocol :: string
  StObfuscated :: bool
  StSinceUnix :: int
  StHandshakeUnix :: int
  StLatencyMs :: int

definition zero_Status :: Status where
  "zero_Status =
     \<lparr>StUp = False, StInterface = [], StEndpoint = [], StProtocol = [], StObfuscated = False,
      StSinceUnix = 0, StHandshakeUnix = 0, StLatencyMs = 0\<rparr>"

record Controller =
  device :: bool
  saved :: "State option"
  network :: Network
  status :: Status
  meter :: "Meter option"

definition HandshakeTimeout :: duration where
  "HandshakeTimeout = 10 * seconds"

definition deviceName :: string where
  "deviceName = ''caelo0''"

definition zero_Network :: Network where
  "zero_Network =
     \<lparr>Interface = [], AdapterHandle = 0, Address = [], NetMTU = 0, EndpointHost = [], NetDNS = []\<rparr>"

text \<open>\<^verbatim>\<open>New\<close>, without the logging switch it sets.\<close>

definition NewController :: Controller where
  "NewController =
     \<lparr>device = False, saved = None, network = zero_Network, status = zero_Status, meter = None\<rparr>"

text \<open>Why \<^verbatim>\<open>Start\<close> fails.\<close>

datatype tunnel_error =
    BadConfiguration awg_error
  | Failure failure
  | NoAnswer
  | WaitOutOfFuel

definition liftF :: "(failure + 'a) io \<Rightarrow> (tunnel_error + 'a) io" where
  "liftF m = do { r \<leftarrow> m; ret (map_sum Failure id r) }"

section \<open>The endpoint's address\<close>

text \<open>\<^verbatim>\<open>net.SplitHostPort\<close>: \<open>None\<close> is an error.\<close>

definition last_colon :: "string \<Rightarrow> nat option" where
  "last_colon s =
     (if CHR '':'' \<in> set s then Some (length s - 1 - length (takeWhile (\<lambda>c. c \<noteq> CHR '':'') (rev s)))
      else None)"

definition SplitHostPort :: "string \<Rightarrow> (string \<times> string) option" where
  "SplitHostPort s =
     (case last_colon s of
        None \<Rightarrow> None
      | Some i \<Rightarrow>
          if HasPrefix s ''['' then
            (let end = length (takeWhile (\<lambda>c. c \<noteq> CHR '']'') s) in
             if end = length s \<or> end + 1 \<noteq> i then None
             else if CHR ''['' \<in> set (drop 1 s) \<or> CHR '']'' \<in> set (drop (end + 1) s) then None
             else Some (take (end - 1) (drop 1 s), drop (i + 1) s))
          else if CHR '':'' \<in> set (take i s) \<or> CHR ''['' \<in> set s \<or> CHR '']'' \<in> set s then None
          else Some (take i s, drop (i + 1) s))"

text \<open>\<^verbatim>\<open>ip.To4() != nil\<close>.\<close>

definition is_To4 :: "string \<Rightarrow> bool" where
  "is_To4 s =
     (case ParseIP s of
        None \<Rightarrow> False
      | Some (V4 a b c d) \<Rightarrow> True
      | Some (V6 bs zone) \<Rightarrow> Is4In6 bs)"

definition EndpointAddress :: "environment \<Rightarrow> string \<Rightarrow> (failure + string) io" where
  "EndpointAddress env endpoint =
     (if endpoint = [] then ret (Inl (Message ''the configuration has no Endpoint''))
      else (case SplitHostPort endpoint of
        None \<Rightarrow> ret (Inl (Message (''endpoint '' @ endpoint @ '' is not host:port'')))
      | Some (host, port) \<Rightarrow>
          if ParseIP host \<noteq> None then ret (Inr host)
          else do {
            r \<leftarrow> ask env (LookupHost host);
            ret (case r of
                Hosts addrs \<Rightarrow>
                  (case find is_To4 addrs of
                     Some a \<Rightarrow> Inr a
                   | None \<Rightarrow> Inl (Message (''endpoint '' @ host @ '' has no IPv4 address'')))
              | _ \<Rightarrow> Inl (Context (''resolving endpoint '' @ host) (OsFailed (LookupHost host))))
          }))"

section \<open>Waiting for the server\<close>

text \<open>\<^verbatim>\<open>time.Now\<close> does not fail.\<close>

definition clock_of :: "answer \<Rightarrow> instant" where
  "clock_of a = (case a of Clock i \<Rightarrow> i | _ \<Rightarrow> 0)"

definition askNow :: "environment \<Rightarrow> instant io" where
  "askNow env = do { a \<leftarrow> ask env Now; ret (clock_of a) }"

text \<open>\<^verbatim>\<open>handshake.Wait\<close> with the device's state as its \<^verbatim>\<open>read\<close>; \<open>None\<close> is fuel run out.\<close>

definition read_of :: "answer \<Rightarrow> string option" where
  "read_of a = (case a of Done uapi \<Rightarrow> Some uapi | _ \<Rightarrow> None)"

fun wait_rounds :: "environment \<Rightarrow> instant \<Rightarrow> nat \<Rightarrow> bool option io" where
  "wait_rounds env deadline 0 = ret None"
| "wait_rounds env deadline (Suc n) = do {
     uapi \<leftarrow> ask env IpcGet;
     (if answered (read_of uapi) then ret (Some True)
      else do {
        now \<leftarrow> askNow env;
        (if now > deadline then ret (Some False)
         else do {
           _ \<leftarrow> ask env (Sleep pollEvery);
           wait_rounds env deadline n
         })
      })
   }"

definition waitServer :: "environment \<Rightarrow> nat \<Rightarrow> (tunnel_error + unit) io" where
  "waitServer env fuel = do {
     start \<leftarrow> askNow env;
     r \<leftarrow> wait_rounds env (start + HandshakeTimeout) fuel;
     ret (case r of None \<Rightarrow> Inl WaitOutOfFuel | Some True \<Rightarrow> Inr () | Some False \<Rightarrow> Inl NoAnswer)
   }"

section \<open>Start\<close>

text \<open>The interface and its name; an interface without a name is closed again.\<close>

definition openTUN :: "environment \<Rightarrow> int \<Rightarrow> (failure + string) io" where
  "openTUN env mtu =
     andThen (inContext ''creating the tunnel interface'' (attempt env (CreateTUN deviceName mtu))) (\<lambda>_. do {
       r \<leftarrow> attempt env TunName;
       (case r of
          Inr name \<Rightarrow> ret (Inr name)
        | Inl e \<Rightarrow> do {
            _ \<leftarrow> ask env TunClose;
            ret (Inl (Context ''naming the tunnel interface'' e))
          })
     })"

text \<open>\<^verbatim>\<open>fail\<close>: closes the device.  After \<^verbatim>\<open>Apply\<close> has begun, the machine is restored first.\<close>

definition orClose :: "environment \<Rightarrow> (tunnel_error + 'a) io \<Rightarrow> (tunnel_error + 'a) io" where
  "orClose env m = do {
     r \<leftarrow> m;
     (case r of
        Inr a \<Rightarrow> ret (Inr a)
      | Inl e \<Rightarrow> do { _ \<leftarrow> ask env DeviceClose; ret (Inl e) })
   }"

definition orRestore ::
  "environment \<Rightarrow> State \<Rightarrow> Network \<Rightarrow> (tunnel_error + 'a) io \<Rightarrow> (tunnel_error + 'a) io" where
  "orRestore env st net m = do {
     r \<leftarrow> m;
     (case r of
        Inr a \<Rightarrow> ret (Inr a)
      | Inl e \<Rightarrow> do {
          _ \<leftarrow> Restore env st net;
          _ \<leftarrow> ask env DeviceClose;
          ret (Inl e)
        })
   }"

definition networkOf :: "Config \<Rightarrow> string \<Rightarrow> string \<Rightarrow> Network" where
  "networkOf cfg name endpointHost =
     \<lparr>Interface = name, AdapterHandle = 0, Address = Addr_String (hd (Addresses cfg)),
      NetMTU = MTU cfg, EndpointHost = endpointHost,
      NetDNS = (if DNS cfg = [] then [''1.1.1.1''] else map Addr_String (DNS cfg))\<rparr>"

definition Unix_time :: "instant \<Rightarrow> int" where
  "Unix_time t = t div seconds - unixToInternal"

definition startedStatus :: "Config \<Rightarrow> string \<Rightarrow> instant \<Rightarrow> Status" where
  "startedStatus cfg name now =
     \<lparr>StUp = True, StInterface = name, StEndpoint = Endpoint (peer cfg),
      StProtocol = (if Obfuscation cfg = fmempty then ''WireGuard'' else ''AmneziaWG''),
      StObfuscated = (Obfuscation cfg \<noteq> fmempty), StSinceUnix = Unix_time now,
      StHandshakeUnix = 0, StLatencyMs = 0\<rparr>"

text \<open>From the interface on, for a configuration, a server and a snapshot.\<close>

definition bringUp ::
  "environment \<Rightarrow> nat \<Rightarrow> Config \<Rightarrow> string \<Rightarrow> State \<Rightarrow> (tunnel_error + Controller) io" where
  "bringUp env fuel cfg endpointHost st =
     andThen (liftF (openTUN env (MTU cfg))) (\<lambda>name. do {
       _ \<leftarrow> ask env NewDevice;
       andThen (orClose env (liftF (inContext ''configuring the device'' (attempt env (IpcSet (IPC cfg)))))) (\<lambda>_.
       andThen (orClose env (liftF (inContext ''bringing the device up'' (attempt env DeviceUp)))) (\<lambda>_.
       let net = networkOf cfg name endpointHost in
       andThen (orRestore env st net (liftF (Apply env st net))) (\<lambda>_.
       andThen (orRestore env st net (waitServer env fuel)) (\<lambda>_. do {
         now \<leftarrow> askNow env;
         ret (Inr \<lparr>device = True, saved = Some st, network = net,
                   status = startedStatus cfg name now, meter = Some Rtt.New\<rparr>)
       }))))
     })"

definition startFresh :: "environment \<Rightarrow> nat \<Rightarrow> string \<Rightarrow> (tunnel_error + Controller) io" where
  "startFresh env fuel configText =
     (case Awg_Endpoint.Parse configText of
        Inl e \<Rightarrow> ret (Inl (BadConfiguration e))
      | Inr cfg \<Rightarrow>
          andThen (liftF (EndpointAddress env (Endpoint (peer cfg)))) (\<lambda>endpointHost.
          andThen (liftF (Snapshot env)) (\<lambda>st.
          bringUp env fuel cfg endpointHost st)))"

section \<open>The operations\<close>

text \<open>A controller with a device and no saved state would fault; there is none.\<close>

definition stopLocked :: "environment \<Rightarrow> Controller \<Rightarrow> ((failure + unit) \<times> Controller) io" where
  "stopLocked env c =
     (if \<not> device c then ret (Inr (), c)
      else do {
        r \<leftarrow> (case saved c of
               None \<Rightarrow> ret (Inl (Message ''nil pointer dereference''))
             | Some st \<Rightarrow> Restore env st (network c));
        _ \<leftarrow> ask env DeviceClose;
        ret (r, c\<lparr>device := False, meter := None, saved := None, status := zero_Status\<rparr>)
      })"

definition Stop :: "environment \<Rightarrow> Controller \<Rightarrow> ((failure + unit) \<times> Controller) io" where
  "Stop env c = stopLocked env c"

definition Start ::
  "environment \<Rightarrow> nat \<Rightarrow> string \<Rightarrow> Controller \<Rightarrow> ((tunnel_error + Status) \<times> Controller) io" where
  "Start env fuel configText c = do {
     stopped \<leftarrow> (if device c then stopLocked env c else ret (Inr (), c));
     r \<leftarrow> startFresh env fuel configText;
     ret (case r of
            Inl e \<Rightarrow> (Inl e, snd stopped)
          | Inr c' \<Rightarrow> (Inr (status c'), c'))
   }"

text \<open>The meter reads the clock only when it has seen a connection.\<close>

definition meterNow :: "environment \<Rightarrow> Meter option \<Rightarrow> instant io" where
  "meterNow env mo =
     (case mo of None \<Rightarrow> ret 0 | Some m \<Rightarrow> if seen m then askNow env else ret 0)"

definition ControllerStatus :: "environment \<Rightarrow> Controller \<Rightarrow> (Status \<times> Controller) io" where
  "ControllerStatus env c =
     (if \<not> StUp (status c) then ret (status c, c)
      else do {
        st \<leftarrow> (if device c then do {
              r \<leftarrow> attempt env IpcGet;
              ret (case r of
                     Inl e \<Rightarrow> status c
                   | Inr out \<Rightarrow>
                       (let at = Handshake.Parse out in
                        if at \<noteq> 0 then (status c)\<lparr>StHandshakeUnix := Unix_of at\<rparr> else status c))
            } else ret (status c));
        now \<leftarrow> meterNow env (meter c);
        let (ms, mo) = Milliseconds now (meter c);
        ret (st\<lparr>StLatencyMs := ms\<rparr>, c\<lparr>meter := mo\<rparr>)
      })"

end
