(* ===== verification/Linux_Machine.thy ===== *)
theory Linux_Machine
  imports System_Linux
begin

text \<open>
  What the commands of \<^verbatim>\<open>network_linux.go\<close> do to the machine, and the properties of taking it
  over and giving it back.  The machine is the part those commands can change: routes, the
  unreachable routes for IPv6, \<^verbatim>\<open>/etc/resolv.conf\<close>, and the interfaces systemd-resolved has
  been told about.  A command that is answered with success has its documented effect; which
  commands succeed is the environment's choice.
\<close>

section \<open>The machine\<close>

datatype node = Absent | Regular string | Link string

record machine =
  routes :: "(string \<times> string) set"
  blocked :: "string set"
  resolv :: node
  claims :: "string set"
  through :: bool

text \<open>
  The words of a command: \<^verbatim>\<open>ip route add dst [via gw] dev if\<close>, \<^verbatim>\<open>ip route del dst [dev if]\<close>,
  \<^verbatim>\<open>ip -6 route add unreachable dst\<close>, \<^verbatim>\<open>resolvectl dns if server...\<close>; the last word of a
  route is its device.
\<close>

definition exec_effect :: "string \<Rightarrow> string list \<Rightarrow> machine \<Rightarrow> machine" where
  "exec_effect name args m =
     (if name = ''ip'' \<and> take 2 args = [''route'', ''add''] then
        m\<lparr>routes := insert (args ! 2, last args) (routes m)\<rparr>
      else if name = ''ip'' \<and> take 2 args = [''route'', ''del''] then
        m\<lparr>routes := (if length args = 3 then {r \<in> routes m. fst r \<noteq> args ! 2}
                     else routes m - {(args ! 2, last args)})\<rparr>
      else if name = ''ip'' \<and> take 4 args = [''-6'', ''route'', ''add'', ''unreachable''] then
        m\<lparr>blocked := insert (args ! 4) (blocked m)\<rparr>
      else if name = ''ip'' \<and> take 4 args = [''-6'', ''route'', ''del'', ''unreachable''] then
        m\<lparr>blocked := blocked m - {args ! 4}\<rparr>
      else if name = ''resolvectl'' \<and> take 1 args \<in> {[''dns''], [''domain'']} then
        m\<lparr>claims := insert (args ! 1) (claims m)\<rparr>
      else if name = ''resolvectl'' \<and> take 1 args = [''revert''] then
        m\<lparr>claims := claims m - {args ! 1}\<rparr>
      else m)"

text \<open>
  Writing through a symbolic link changes some other file, which \<open>through\<close> records.  A write
  that fails can leave part of the contents, the text of the failure.
\<close>

definition write_resolv :: "string \<Rightarrow> machine \<Rightarrow> machine" where
  "write_resolv content m =
     (case resolv m of Link _ \<Rightarrow> m\<lparr>through := True\<rparr> | _ \<Rightarrow> m\<lparr>resolv := Regular content\<rparr>)"

definition effect :: "call \<times> answer \<Rightarrow> machine \<Rightarrow> machine" where
  "effect e m =
     (case e of
        (Exec name args, Done _) \<Rightarrow> exec_effect name args m
      | (WriteFile path content, Done _) \<Rightarrow>
          if path = resolvConf then write_resolv content m else m
      | (WriteFile path content, Failed partial) \<Rightarrow>
          if path = resolvConf then write_resolv partial m else m
      | (RemoveFile path, Done _) \<Rightarrow> if path = resolvConf then m\<lparr>resolv := Absent\<rparr> else m
      | (Symlink target path, Done _) \<Rightarrow> if path = resolvConf then m\<lparr>resolv := Link target\<rparr> else m
      | _ \<Rightarrow> m)"

definition machine_after :: "machine \<Rightarrow> trace \<Rightarrow> machine" where
  "machine_after m0 t = fold effect t m0"

lemma machine_after_simps [simp]:
  "machine_after m0 [] = m0"
  "machine_after m0 (t @ [e]) = effect e (machine_after m0 t)"
  by (simp_all add: machine_after_def)

lemma machine_after_append: "machine_after m0 (t @ es) = fold effect es (machine_after m0 t)"
  by (simp add: machine_after_def)

lemma effect_other [simp]:
  "effect (Exec name args, Failed s) m = m" "effect (Exec name args, Missing) m = m"
  "effect (Exec name args, Hosts hs) m = m" "effect (Exec name args, Clock i) m = m"
  "effect (Exec name args, Handle h) m = m"
  "effect (LookPath p, a) m = m" "effect (Readlink p, a) m = m" "effect (ReadFile p, a) m = m"
  by (simp_all add: effect_def split: answer.split)

lemma effect_link [simp]:
  "effect (Exec ''ip'' [''address'', ''add'', a, ''dev'', i], r) m = m"
  "effect (Exec ''ip'' (''link'' # args), r) m = m"
  by (simp_all add: effect_def exec_effect_def split: answer.split)

lemma effect_route_add [simp]:
  "effect (Exec ''ip'' [''route'', ''add'', dst, ''dev'', i], Done out) m =
     m\<lparr>routes := insert (dst, i) (routes m)\<rparr>"
  "effect (Exec ''ip'' [''route'', ''add'', dst, ''via'', gw, ''dev'', i], Done out) m =
     m\<lparr>routes := insert (dst, i) (routes m)\<rparr>"
  by (auto simp: effect_def exec_effect_def)

lemma effect_route_del [simp]:
  "effect (Exec ''ip'' [''route'', ''del'', dst, ''dev'', i], Done out) m =
     m\<lparr>routes := routes m - {(dst, i)}\<rparr>"
  "effect (Exec ''ip'' [''route'', ''del'', dst], Done out) m =
     m\<lparr>routes := {r \<in> routes m. fst r \<noteq> dst}\<rparr>"
  by (auto simp: effect_def exec_effect_def)

lemma effect_v6 [simp]:
  "effect (Exec ''ip'' [''-6'', ''route'', ''add'', ''unreachable'', dst], Done out) m =
     m\<lparr>blocked := insert dst (blocked m)\<rparr>"
  "effect (Exec ''ip'' [''-6'', ''route'', ''del'', ''unreachable'', dst], Done out) m =
     m\<lparr>blocked := blocked m - {dst}\<rparr>"
  by (simp_all add: effect_def exec_effect_def)

lemma effect_resolvectl [simp]:
  "effect (Exec ''resolvectl'' (''dns'' # i # ds), Done out) m = m\<lparr>claims := insert i (claims m)\<rparr>"
  "effect (Exec ''resolvectl'' [''domain'', i, d], Done out) m = m\<lparr>claims := insert i (claims m)\<rparr>"
  "effect (Exec ''resolvectl'' [''revert'', i], Done out) m = m\<lparr>claims := claims m - {i}\<rparr>"
  by (simp_all add: effect_def exec_effect_def)

lemma effect_files [simp]:
  "effect (WriteFile resolvConf c, Done out) m = write_resolv c m"
  "effect (WriteFile resolvConf c, Failed part) m = write_resolv part m"
  "effect (WriteFile resolvConf c, Missing) m = m" "effect (WriteFile resolvConf c, Hosts hs) m = m"
  "effect (WriteFile resolvConf c, Clock i) m = m" "effect (WriteFile resolvConf c, Handle h) m = m"
  "effect (RemoveFile resolvConf, Done out) m = m\<lparr>resolv := Absent\<rparr>"
  "effect (RemoveFile resolvConf, Failed s) m = m" "effect (RemoveFile resolvConf, Missing) m = m"
  "effect (RemoveFile resolvConf, Hosts hs) m = m" "effect (RemoveFile resolvConf, Clock i) m = m"
  "effect (RemoveFile resolvConf, Handle h) m = m"
  "effect (Symlink target resolvConf, Done out) m = m\<lparr>resolv := Link target\<rparr>"
  by (simp_all add: effect_def)

section \<open>What taking over may change\<close>

text \<open>The routes \<^verbatim>\<open>Apply\<close> adds.\<close>

definition our_routes :: "State \<Rightarrow> Network \<Rightarrow> (string \<times> string) set" where
  "our_routes st cfg =
     insert (EndpointHost cfg @ ''/32'', DefaultInterface st)
       ((\<lambda>half. (half, Interface cfg)) ` set defaultHalves)"

text \<open>The machine has nothing yet that \<^verbatim>\<open>Apply\<close> would add.\<close>

definition untouched :: "Network \<Rightarrow> machine \<Rightarrow> bool" where
  "untouched cfg m \<longleftrightarrow>
     (\<forall>half \<in> set defaultHalves. (half, Interface cfg) \<notin> routes m) \<and>
     (\<forall>dev. (EndpointHost cfg @ ''/32'', dev) \<notin> routes m) \<and>
     set v6Halves \<inter> blocked m = {} \<and> Interface cfg \<notin> claims m"

text \<open>The state records the machine's \<^verbatim>\<open>resolv.conf\<close>, unless resolved is in charge of it.\<close>

definition records :: "State \<Rightarrow> machine \<Rightarrow> bool" where
  "records st m \<longleftrightarrow> Resolved st \<or>
     (case resolv m of
        Absent \<Rightarrow> ResolvConfLink st = [] \<and> PreviousResolvConf st = None
      | Regular c \<Rightarrow> ResolvConfLink st = [] \<and> PreviousResolvConf st = Some c
      | Link t \<Rightarrow> ResolvConfLink st = t \<and> t \<noteq> [])"

text \<open>Between the machine as it was and the machine taken over.\<close>

definition taken :: "machine \<Rightarrow> State \<Rightarrow> Network \<Rightarrow> machine \<Rightarrow> bool" where
  "taken m0 st cfg m \<longleftrightarrow>
     routes m0 \<subseteq> routes m \<and> routes m \<subseteq> routes m0 \<union> our_routes st cfg \<and>
     blocked m0 \<subseteq> blocked m \<and> blocked m \<subseteq> blocked m0 \<union> set v6Halves \<and>
     claims m0 \<subseteq> claims m \<and>
     claims m \<subseteq> claims m0 \<union> (if Resolved st then {Interface cfg} else {}) \<and>
     through m = through m0 \<and>
     (resolv m = resolv m0 \<or> \<not> Resolved st \<and> (case resolv m of Link _ \<Rightarrow> False | _ \<Rightarrow> True))"

lemma taken_refl: "taken m0 st cfg m0"
  by (auto simp: taken_def)

lemma taken_route:
  assumes "taken m0 st cfg m" and "r \<in> our_routes st cfg"
  shows "taken m0 st cfg (m\<lparr>routes := insert r (routes m)\<rparr>)"
  using assms by (auto simp: taken_def)

lemma taken_blocked:
  assumes "taken m0 st cfg m" and "h \<in> set v6Halves"
  shows "taken m0 st cfg (m\<lparr>blocked := insert h (blocked m)\<rparr>)"
  using assms by (auto simp: taken_def)

lemma taken_claims:
  assumes "taken m0 st cfg m" and "Resolved st"
  shows "taken m0 st cfg (m\<lparr>claims := insert (Interface cfg) (claims m)\<rparr>)"
  using assms by (auto simp: taken_def)

lemma taken_removed:
  assumes "taken m0 st cfg m" and "\<not> Resolved st"
  shows "taken m0 st cfg (m\<lparr>resolv := Absent\<rparr>)"
  using assms by (auto simp: taken_def)

definition no_link :: "machine \<Rightarrow> bool" where
  "no_link m \<longleftrightarrow> (case resolv m of Link _ \<Rightarrow> False | _ \<Rightarrow> True)"

lemma taken_written:
  assumes "taken m0 st cfg m" and "\<not> Resolved st" and "no_link m"
  shows "taken m0 st cfg (write_resolv c m)"
  using assms by (auto simp: taken_def write_resolv_def no_link_def split: node.splits)

lemma taken_exec:
  assumes "taken m0 st cfg m"
    and "\<And>out. taken m0 st cfg (effect (Exec name args, Done out) m)"
  shows "taken m0 st cfg (effect (Exec name args, a) m)"
  using assms by (cases a) simp_all

lemma taken_runs:
  "(\<And>m out. taken m0 st cfg m \<Longrightarrow> taken m0 st cfg (effect (Exec name args, Done out) m)) \<Longrightarrow>
   keeps (\<lambda>t. taken m0 st cfg (machine_after m0 t)) (runs env name args)"
  by (intro keeps_runs) (simp add: taken_exec)

lemma taken_run:
  "(\<And>m out. taken m0 st cfg m \<Longrightarrow> taken m0 st cfg (effect (Exec name args, Done out) m)) \<Longrightarrow>
   keeps (\<lambda>t. taken m0 st cfg (machine_after m0 t)) (run env name args)"
  by (intro keeps_run) (simp add: taken_exec)

lemma routes_ours:
  "(EndpointHost cfg @ ''/32'', DefaultInterface st) \<in> our_routes st cfg"
  "half \<in> set defaultHalves \<Longrightarrow> (half, Interface cfg) \<in> our_routes st cfg"
  by (simp_all add: our_routes_def)

lemma taken_no_link:
  "taken m0 st cfg m \<Longrightarrow> records st m0 \<Longrightarrow> \<not> Resolved st \<Longrightarrow> ResolvConfLink st = [] \<Longrightarrow> no_link m"
  by (auto simp: taken_def records_def no_link_def split: node.splits)

lemma taken_write:
  assumes "taken m0 st cfg m" and "\<not> Resolved st" and "no_link m"
  shows "taken m0 st cfg (effect (WriteFile resolvConf c, a) m)"
  using assms taken_written by (cases a) (auto simp: no_link_def)

lemma taken_remove:
  assumes "taken m0 st cfg m" and "\<not> Resolved st"
  shows "taken m0 st cfg (effect (RemoveFile resolvConf, a) m)"
  using assms by (cases a) (auto simp: taken_removed)

lemma applyDNS_taken:
  assumes "records st m0"
  shows "keeps (\<lambda>t. taken m0 st cfg (machine_after m0 t)) (applyDNS env st cfg)"
proof (cases "Resolved st")
  case True
  then show ?thesis
    unfolding applyDNS_def
    by (simp, intro keeps_andThen keeps_inContext taken_runs) (simp_all add: taken_claims)
next
  case unresolved: False
  let ?T = "\<lambda>t. taken m0 st cfg (machine_after m0 t)"
  let ?R = "\<lambda>t. ?T t \<and> no_link (machine_after m0 t)"
  show ?thesis
  proof (cases "resolvFile (NetDNS cfg)")
    case (Inl e)
    then show ?thesis
      using unresolved by (simp add: applyDNS_def keeps_ret)
  next
    case (Inr content)
    let ?m1 = "if ResolvConfLink st \<noteq> [] then inContext (''replacing '' @ resolvConf)
        (andThen (attempt env (RemoveFile resolvConf)) (\<lambda>_. ret (Inr ()))) else ret (Inr ())"
    have "triple ?T ?m1 (\<lambda>r t. (case r of Inl e \<Rightarrow> ?T t | Inr a \<Rightarrow> ?R t))"
    proof (cases "ResolvConfLink st = []")
      case True
      then show ?thesis by (auto intro!: triple_ret taken_no_link [OF _ assms unresolved])
    next
      case False
      then show ?thesis
        using taken_remove [OF _ unresolved] taken_removed [OF _ unresolved]
        by (auto simp: triple_def run_andThen no_link_def split: answer.split sum.split)
    qed
    moreover have "triple ?R (inContext (''writing '' @ resolvConf)
        (andThen (attempt env (WriteFile resolvConf content)) (\<lambda>_. ret (Inr ())))) (\<lambda>_. ?T)"
      using taken_write [OF _ unresolved] taken_written [OF _ unresolved]
      by (auto simp: triple_def run_andThen split: answer.split sum.split)
    ultimately show ?thesis
      using unresolved Inr unfolding keeps_def applyDNS_def by (auto intro: triple_andThen)
  qed
qed

lemma Apply_taken:
  assumes "records st m0"
  shows "keeps (\<lambda>t. taken m0 st cfg (machine_after m0 t)) (Apply env st cfg)"
  unfolding Apply_def pinEndpoint_def routeHalves_def blockV6_def
  by (intro keeps_andThen keeps_inContext keeps_if keeps_forEach keeps_bind keeps_ret
      applyDNS_taken [OF assms] taken_runs taken_run)
    (simp_all add: taken_route taken_blocked routes_ours)

section \<open>Giving back\<close>

text \<open>
  What the system owes \<^verbatim>\<open>Restore\<close>: deleting a route that is there succeeds, and so do reverting
  an interface, removing a file that is there, writing a regular file, and making a link where
  nothing is; removing a file that is not there is answered with "does not exist".
\<close>

definition obliging :: "machine \<Rightarrow> environment \<Rightarrow> bool" where
  "obliging m0 env \<longleftrightarrow>
     (\<forall>t. let m = machine_after m0 t in
        (\<forall>dst dev. (dst, dev) \<in> routes m \<longrightarrow>
           (\<exists>out. env t (Exec ''ip'' [''route'', ''del'', dst, ''dev'', dev]) = Done out) \<and>
           (\<exists>out. env t (Exec ''ip'' [''route'', ''del'', dst]) = Done out)) \<and>
        (\<forall>dst \<in> blocked m. \<exists>out. env t (Exec ''ip'' [''-6'', ''route'', ''del'', ''unreachable'', dst]) = Done out) \<and>
        (\<forall>i. \<exists>out. env t (Exec ''resolvectl'' [''revert'', i]) = Done out) \<and>
        (if resolv m = Absent then env t (RemoveFile resolvConf) = Missing
         else \<exists>out. env t (RemoveFile resolvConf) = Done out) \<and>
        (no_link m \<longrightarrow> (\<forall>c. \<exists>out. env t (WriteFile resolvConf c) = Done out)) \<and>
        (resolv m = Absent \<longrightarrow> (\<forall>l. \<exists>out. env t (Symlink l resolvConf) = Done out)))"

lemma obliging_remove:
  assumes "obliging m0 env"
  shows "resolv (machine_after m0 t) = Absent \<Longrightarrow> env t (RemoveFile resolvConf) = Missing"
    and "resolv (machine_after m0 t) \<noteq> Absent \<Longrightarrow> \<exists>out. env t (RemoveFile resolvConf) = Done out"
  using assms by (simp_all add: obliging_def Let_def)

text \<open>The machine after each command of \<^verbatim>\<open>Restore\<close>.\<close>

lemma after_route_del:
  assumes "obliging m0 env"
  shows "machine_after m0 (t @ [(Exec ''ip'' [''route'', ''del'', dst, ''dev'', i],
      env t (Exec ''ip'' [''route'', ''del'', dst, ''dev'', i]))]) =
    (machine_after m0 t)\<lparr>routes := routes (machine_after m0 t) - {(dst, i)}\<rparr>"
proof (cases "(dst, i) \<in> routes (machine_after m0 t)")
  case True
  then obtain out where "env t (Exec ''ip'' [''route'', ''del'', dst, ''dev'', i]) = Done out"
    using assms unfolding obliging_def Let_def by blast
  then show ?thesis by simp
next
  case False
  then show ?thesis
    by (cases "env t (Exec ''ip'' [''route'', ''del'', dst, ''dev'', i])") simp_all
qed

lemma after_endpoint_del:
  assumes "obliging m0 env"
  shows "machine_after m0 (t @ [(Exec ''ip'' [''route'', ''del'', dst],
      env t (Exec ''ip'' [''route'', ''del'', dst]))]) =
    (machine_after m0 t)\<lparr>routes := {r \<in> routes (machine_after m0 t). fst r \<noteq> dst}\<rparr>"
proof (cases "\<exists>dev. (dst, dev) \<in> routes (machine_after m0 t)")
  case True
  then obtain out where "env t (Exec ''ip'' [''route'', ''del'', dst]) = Done out"
    using assms unfolding obliging_def Let_def by blast
  then show ?thesis by simp
next
  case False
  then have "{r \<in> routes (machine_after m0 t). fst r \<noteq> dst} = routes (machine_after m0 t)" by auto
  then show ?thesis
    by (cases "env t (Exec ''ip'' [''route'', ''del'', dst])") simp_all
qed

lemma after_v6_del:
  assumes "obliging m0 env"
  shows "machine_after m0 (t @ [(Exec ''ip'' [''-6'', ''route'', ''del'', ''unreachable'', dst],
      env t (Exec ''ip'' [''-6'', ''route'', ''del'', ''unreachable'', dst]))]) =
    (machine_after m0 t)\<lparr>blocked := blocked (machine_after m0 t) - {dst}\<rparr>"
proof (cases "dst \<in> blocked (machine_after m0 t)")
  case True
  then obtain out where "env t (Exec ''ip'' [''-6'', ''route'', ''del'', ''unreachable'', dst]) = Done out"
    using assms unfolding obliging_def Let_def by blast
  then show ?thesis by simp
next
  case False
  then show ?thesis
    by (cases "env t (Exec ''ip'' [''-6'', ''route'', ''del'', ''unreachable'', dst])") simp_all
qed

lemma restoreDNS_restores:
  assumes ok: "obliging m0 env" and tk: "taken m0 st cfg (machine_after m0 t)" and rec: "records st m0"
  shows "fst (run_state (restoreDNS env st cfg) t) = Inr ()"
    and "machine_after m0 (snd (run_state (restoreDNS env st cfg) t)) =
      (if Resolved st
       then (machine_after m0 t)\<lparr>claims := claims (machine_after m0 t) - {Interface cfg}\<rparr>
       else (machine_after m0 t)\<lparr>resolv := resolv m0\<rparr>)"
proof -
  let ?m = "machine_after m0 t"
  have "fst (run_state (restoreDNS env st cfg) t) = Inr () \<and>
    machine_after m0 (snd (run_state (restoreDNS env st cfg) t)) =
      (if Resolved st then ?m\<lparr>claims := claims ?m - {Interface cfg}\<rparr> else ?m\<lparr>resolv := resolv m0\<rparr>)"
  proof (cases "Resolved st")
    case True
    obtain out where "env t (Exec ''resolvectl'' [''revert'', Interface cfg]) = Done out"
      using ok unfolding obliging_def Let_def by blast
    with True show ?thesis by (simp add: restoreDNS_def runs_def run_andThen)
  next
    case unresolved: False
    have removed: "\<exists>a. env t (RemoveFile resolvConf) = a \<and> (a = Missing \<or> (\<exists>out. a = Done out)) \<and>
        effect (RemoveFile resolvConf, a) ?m = ?m\<lparr>resolv := Absent\<rparr>"
    proof (cases "resolv ?m = Absent")
      case True
      then show ?thesis using obliging_remove(1) [OF ok True] by simp
    next
      case False
      then show ?thesis using obliging_remove(2) [OF ok False] by auto
    qed
    show ?thesis
    proof (cases "resolv m0")
      case Absent
      with rec unresolved have "ResolvConfLink st = []" "PreviousResolvConf st = None"
        by (simp_all add: records_def)
      with unresolved removed Absent show ?thesis
        by (auto simp: restoreDNS_def removeIfPresent_def)
    next
      case (Regular c)
      with rec unresolved have st: "ResolvConfLink st = []" "PreviousResolvConf st = Some c"
        by (simp_all add: records_def)
      then have nl: "no_link ?m" using taken_no_link [OF tk rec unresolved] by simp
      then obtain out where "env t (WriteFile resolvConf c) = Done out"
        using ok unfolding obliging_def Let_def by blast
      with unresolved st nl Regular show ?thesis
        by (auto simp: restoreDNS_def run_andThen write_resolv_def no_link_def split: node.splits)
    next
      case (Link l)
      with rec unresolved have st: "ResolvConfLink st = l" "l \<noteq> []" by (simp_all add: records_def)
      obtain a where a: "env t (RemoveFile resolvConf) = a" "a = Missing \<or> (\<exists>out. a = Done out)"
        "effect (RemoveFile resolvConf, a) ?m = ?m\<lparr>resolv := Absent\<rparr>"
        using removed by blast
      let ?t = "t @ [(RemoveFile resolvConf, a)]"
      have "resolv (machine_after m0 ?t) = Absent" by (simp add: a(3))
      then obtain out where "env ?t (Symlink l resolvConf) = Done out"
        using ok unfolding obliging_def Let_def by blast
      moreover have "machine_after m0 (?t @ [(Symlink l resolvConf, Done out)]) = ?m\<lparr>resolv := Link l\<rparr>" for out
        by (simp add: machine_after_append a(3))
      ultimately show ?thesis
        using unresolved st a(1,2) Link
        by (auto simp: restoreDNS_def removeIfPresent_def run_andThen)
    qed
  qed
  then show "fst (run_state (restoreDNS env st cfg) t) = Inr ()"
    "machine_after m0 (snd (run_state (restoreDNS env st cfg) t)) =
      (if Resolved st then ?m\<lparr>claims := claims ?m - {Interface cfg}\<rparr> else ?m\<lparr>resolv := resolv m0\<rparr>)"
    by blast+
qed

text \<open>The route commands of \<^verbatim>\<open>Restore\<close>, before the DNS.\<close>

definition restore_routes :: "environment \<Rightarrow> Network \<Rightarrow> (string \<times> failure) list io" where
  "restore_routes env cfg = do {
     problems \<leftarrow> foldIO (\<lambda>half. attempt_command env (''removing route '' @ half) ''ip''
       [''route'', ''del'', half, ''dev'', Interface cfg]) defaultHalves [];
     problems \<leftarrow> attempt_command env ''removing the endpoint route'' ''ip''
       [''route'', ''del'', EndpointHost cfg @ ''/32''] problems;
     _ \<leftarrow> foldIO (\<lambda>half _. do {
         _ \<leftarrow> run env ''ip'' [''-6'', ''route'', ''del'', ''unreachable'', half];
         ret ()
       }) v6Halves ();
     ret problems
   }"

lemma Restore_routes_DNS:
  "Restore env st cfg = do {
     problems \<leftarrow> restore_routes env cfg;
     dns \<leftarrow> restoreDNS env st cfg;
     let problems = note_problem ''restoring DNS'' dns problems;
     ret (if problems \<noteq> [] then Inl (Problems problems) else Inr ())
   }"
  by (simp add: Restore_def restore_routes_def ret_def)

lemma attempt_command_trace [simp]:
  "snd (run_state (attempt_command env what name args problems) t) =
     t @ [(Exec name args, env t (Exec name args))]"
  by (simp add: attempt_command_def)

lemma restore_routes_after:
  assumes ok: "obliging m0 env"
  shows "machine_after m0 (snd (run_state (restore_routes env cfg) t)) =
    (machine_after m0 t)\<lparr>
      routes := {r \<in> routes (machine_after m0 t) - {(defaultHalves ! 0, Interface cfg)}
          - {(defaultHalves ! 1, Interface cfg)}. fst r \<noteq> EndpointHost cfg @ ''/32''},
      blocked := blocked (machine_after m0 t) - {v6Halves ! 0} - {v6Halves ! 1}\<rparr>"
  using ok
  by (simp add: restore_routes_def defaultHalves_def v6Halves_def attempt_command_def
      after_route_del after_endpoint_del after_v6_del del: machine_after_simps(2) append_assoc)

lemma restore_routes_restores:
  assumes ok: "obliging m0 env" and tk: "taken m0 st cfg (machine_after m0 t)"
    and new: "untouched cfg m0"
  shows "machine_after m0 (snd (run_state (restore_routes env cfg) t)) =
    (machine_after m0 t)\<lparr>routes := routes m0, blocked := blocked m0\<rparr>"
proof -
  let ?m = "machine_after m0 t"
  note restore_routes_after [OF ok, of cfg t]
  moreover have "{r \<in> routes ?m - {(defaultHalves ! 0, Interface cfg)} - {(defaultHalves ! 1, Interface cfg)}.
          fst r \<noteq> EndpointHost cfg @ ''/32''} = routes m0"
  proof -
    have "routes m0 \<subseteq> routes ?m" "routes ?m \<subseteq> routes m0 \<union> our_routes st cfg"
      using tk by (simp_all add: taken_def)
    moreover have "(defaultHalves ! 0, Interface cfg) \<notin> routes m0" "(defaultHalves ! 1, Interface cfg) \<notin> routes m0"
      "\<forall>dev. (EndpointHost cfg @ ''/32'', dev) \<notin> routes m0"
      using new by (simp_all add: untouched_def defaultHalves_def)
    moreover have "our_routes st cfg = {(EndpointHost cfg @ ''/32'', DefaultInterface st),
        (defaultHalves ! 0, Interface cfg), (defaultHalves ! 1, Interface cfg)}"
      by (simp add: our_routes_def defaultHalves_def)
    ultimately show ?thesis by (intro set_eqI iffI) (auto dest!: subsetD)
  qed
  moreover have "blocked ?m - {v6Halves ! 0} - {v6Halves ! 1} = blocked m0"
    using tk new by (auto simp: taken_def untouched_def v6Halves_def)
  ultimately show ?thesis by simp
qed

text \<open>Restoring the DNS touches no route.\<close>

lemma restoreDNS_routes:
  "keeps (\<lambda>t. P (routes (machine_after m0 t))) (restoreDNS env st cfg)"
proof -
  have exec: "routes (effect (Exec ''resolvectl'' args, a) m) = routes m" for args a m
    by (simp add: effect_def exec_effect_def split: answer.split)
  have files: "routes (effect (RemoveFile p, a) m) = routes m" "routes (effect (Symlink l p, a) m) = routes m"
    "routes (effect (WriteFile p c, a) m) = routes m" for p l c a m
    by (simp_all add: effect_def write_resolv_def split: answer.split node.split)
  show ?thesis
    unfolding restoreDNS_def removeIfPresent_def
    by (cases "PreviousResolvConf st"; simp only: option.case;
        intro keeps_if keeps_andThen keeps_bind keeps_ret keeps_attempt keeps_runs)
      (simp_all add: exec files)
qed

lemma Restore_no_endpoint:
  assumes "obliging m0 env"
  shows "(EndpointHost cfg @ ''/32'', dev) \<notin> routes (machine_after m0 (snd (run_state (Restore env st cfg) t)))"
proof -
  let ?gone = "\<lambda>rs. (EndpointHost cfg @ ''/32'', dev) \<notin> rs"
  obtain problems t1 where r: "run_state (restore_routes env cfg) t = (problems, t1)" by fastforce
  have "?gone (routes (machine_after m0 t1))"
    using restore_routes_after [OF assms, of cfg t] r by simp
  then have gone: "?gone (routes (machine_after m0 (snd (run_state (restoreDNS env st cfg) t1))))"
    by (rule keepsD [OF restoreDNS_routes])
  obtain dns t2 where "run_state (restoreDNS env st cfg) t1 = (dns, t2)" by fastforce
  with gone show ?thesis by (simp add: Restore_routes_DNS r Let_def)
qed

lemma Restore_restores:
  assumes "obliging m0 env" and "taken m0 st cfg (machine_after m0 t)"
    and "records st m0" and "untouched cfg m0"
  shows "machine_after m0 (snd (run_state (Restore env st cfg) t)) = m0"
proof -
  obtain problems t1 where r: "run_state (restore_routes env cfg) t = (problems, t1)" by fastforce
  have m1: "machine_after m0 t1 = (machine_after m0 t)\<lparr>routes := routes m0, blocked := blocked m0\<rparr>"
    using restore_routes_restores [OF assms(1,2,4)] r by simp
  have tk1: "taken m0 st cfg (machine_after m0 t1)"
    using assms(2) unfolding m1 by (auto simp: taken_def)
  note dns = restoreDNS_restores [OF assms(1) tk1 assms(3)]
  have "machine_after m0 (snd (run_state (Restore env st cfg) t)) =
      machine_after m0 (snd (run_state (restoreDNS env st cfg) t1))"
    by (simp add: Restore_routes_DNS r Let_def split: prod.split)
  also have "\<dots> = m0"
    unfolding dns(2) m1 using assms(2,4)
    by (auto simp: taken_def untouched_def split: if_splits intro!: machine.equality)
  finally show ?thesis .
qed

section \<open>Recording\<close>

text \<open>An environment that answers for the machine as it is: where the link points, what the file
  holds.  A symbolic link never has an empty target.\<close>

definition real_link :: "machine \<Rightarrow> bool" where
  "real_link m \<longleftrightarrow> resolv m \<noteq> Link []"

definition honest :: "machine \<Rightarrow> environment \<Rightarrow> bool" where
  "honest m0 env \<longleftrightarrow>
     (\<forall>t. (case resolv (machine_after m0 t) of
             Link l \<Rightarrow> env t (Readlink resolvConf) = Done l
           | Regular c \<Rightarrow> (\<forall>out. env t (Readlink resolvConf) \<noteq> Done out) \<and> env t (ReadFile resolvConf) = Done c
           | Absent \<Rightarrow> (\<forall>out. env t (Readlink resolvConf) \<noteq> Done out) \<and> env t (ReadFile resolvConf) = Missing))"

lemma snapshotResolv_records:
  assumes "run_state (snapshotResolv env st) t = (st', t')" and "honest m0 env"
    and "real_link (machine_after m0 t)"
  shows "records st' (machine_after m0 t)"
proof -
  let ?t1 = "t @ [(Readlink resolvConf, env t (Readlink resolvConf))]"
  have now: "case resolv (machine_after m0 u) of
             Link l \<Rightarrow> env u (Readlink resolvConf) = Done l
           | Regular c \<Rightarrow> (\<forall>out. env u (Readlink resolvConf) \<noteq> Done out) \<and> env u (ReadFile resolvConf) = Done c
           | Absent \<Rightarrow> (\<forall>out. env u (Readlink resolvConf) \<noteq> Done out) \<and> env u (ReadFile resolvConf) = Missing" for u
    using assms(2) unfolding honest_def by blast
  have same: "resolv (machine_after m0 ?t1) = resolv (machine_after m0 t)" by simp
  have "fst (run_state (snapshotResolv env st) t) = st'" using assms(1) by simp
  moreover have "records (fst (run_state (snapshotResolv env st) t)) (machine_after m0 t)"
    using now [of t] now [of ?t1] assms(3) unfolding same real_link_def
    by (cases "resolv (machine_after m0 t)")
      (simp_all add: snapshotResolv_def records_def split: answer.split)
  ultimately show ?thesis by simp
qed

lemma resolvedIsAnswering_trace:
  "\<exists>b s. run_state (resolvedIsAnswering env) t = (b, t @ s) \<and> (\<forall>m. fold effect s m = m)"
  by (auto simp: resolvedIsAnswering_def effect_def exec_effect_def split: answer.split)

lemma snapshotResolv_trace:
  "\<exists>st' s. run_state (snapshotResolv env st) t = (st', t @ s) \<and> (\<forall>m. fold effect s m = m)"
  by (auto simp: snapshotResolv_def)

lemma snapshotResolv_route:
  "run_state (snapshotResolv env st) t = (st', t') \<Longrightarrow>
   DefaultGateway st' = DefaultGateway st \<and> DefaultInterface st' = DefaultInterface st"
  by (auto simp: snapshotResolv_def split: answer.splits)

lemma Snapshot_cases:
  assumes "run_state (Snapshot env) t = (r, t')"
  obtains (failed) e s where "r = Inl e" "t' = t @ s" "\<forall>m. fold effect s m = m"
  | (recorded) st b gw dev t2 s where "r = Inr st" "gw \<noteq> []" "dev \<noteq> []"
      "\<And>m. machine_after m t2 = machine_after m t"
      "run_state (if b then ret (empty_State\<lparr>DefaultGateway := gw, DefaultInterface := dev, Resolved := b\<rparr>)
          else snapshotResolv env
            (empty_State\<lparr>DefaultGateway := gw, DefaultInterface := dev, Resolved := b\<rparr>)) t2 = (st, t')"
      "t' = t @ s" "\<forall>m. fold effect s m = m"
proof -
  let ?show = "Exec ''ip'' [''-4'', ''route'', ''show'', ''default'']"
  let ?t1 = "t @ [(?show, env t ?show)]"
  have none: "effect (?show, a) m = m" for a m
    by (simp add: effect_def exec_effect_def split: answer.split)
  show thesis
  proof (cases "\<exists>out. env t ?show = Done out")
    case False
    with assms show thesis
      by (intro failed [where s = "[(?show, env t ?show)]"])
        (auto simp: Snapshot_def run_andThen none split: answer.splits)
  next
    case True
    then obtain out where out: "env t ?show = Done out" by blast
    obtain gw dev where gd: "defaultRoute out = (gw, dev)" by fastforce
    obtain b s1 where b: "run_state (resolvedIsAnswering env) ?t1 = (b, ?t1 @ s1)"
      "\<forall>m. fold effect s1 m = m" using resolvedIsAnswering_trace by blast
    let ?st = "empty_State\<lparr>DefaultGateway := gw, DefaultInterface := dev, Resolved := b\<rparr>"
    let ?m = "if b then ret ?st else snapshotResolv env ?st"
    obtain st s2 where s2: "run_state ?m (?t1 @ s1) = (st, ?t1 @ s1 @ s2)" "\<forall>m. fold effect s2 m = m"
      using snapshotResolv_trace [of env ?st "?t1 @ s1"] by (cases b) auto
    have "run_state (Snapshot env) t =
        (if gw = [] \<or> dev = [] then (Inl (Message ''no default route: this machine is not on a network''), ?t1)
         else (Inr st, ?t1 @ s1 @ s2))"
      using out gd b(1) s2(1) by (simp add: Snapshot_def run_andThen Let_def)
    note run = this
    show thesis
    proof (cases "gw = [] \<or> dev = []")
      case True
      with assms run out show thesis
        by (intro failed [where s = "[(?show, env t ?show)]"]) (auto simp: none)
    next
      case False
      with assms run have r: "r = Inr st" "t' = ?t1 @ s1 @ s2" by auto
      have "machine_after m (?t1 @ s1) = machine_after m t" for m
        using b(2) by (simp add: machine_after_append none)
      with r False s2(1) b(2) s2(2) show thesis
        by (intro recorded [where s = "(?show, env t ?show) # s1 @ s2" and ?t2.0 = "?t1 @ s1"])
          (auto simp: none)
    qed
  qed
qed

lemma Snapshot_records:
  assumes "run_state (Snapshot env) t = (Inr st, t')" and "honest m0 env"
    and "real_link (machine_after m0 t)"
  shows "records st (machine_after m0 t) \<and> DefaultGateway st \<noteq> [] \<and> DefaultInterface st \<noteq> []"
  using assms(1)
proof (cases rule: Snapshot_cases)
  case (recorded st' b gw dev t2 s)
  then show ?thesis
  proof (cases b)
    case True
    with recorded show ?thesis by (auto simp: records_def)
  next
    case False
    with recorded have run: "run_state (snapshotResolv env
        (empty_State\<lparr>DefaultGateway := gw, DefaultInterface := dev, Resolved := b\<rparr>)) t2 = (st, t')"
      by simp
    show ?thesis
      using snapshotResolv_records [OF run assms(2)] snapshotResolv_route [OF run] assms(3) recorded(2,3,4)
      by simp
  qed
qed simp

lemma Snapshot_quiet:
  "machine_after m0 (snd (run_state (Snapshot env) t)) = machine_after m0 t"
proof -
  obtain r t' where run: "run_state (Snapshot env) t = (r, t')" by fastforce
  then show ?thesis
    by (cases rule: Snapshot_cases) (simp_all add: run machine_after_append)
qed

end
