(* ===== verification/Linux_Properties.thy ===== *)
theory Linux_Properties
  imports Linux_Machine
begin

text \<open>
  The properties of taking a Linux machine over and giving it back, under any environment for
  \<^verbatim>\<open>Apply\<close>: every command may fail or succeed.
\<close>

section \<open>A sample machine\<close>

definition sample_machine :: machine where
  "sample_machine =
     \<lparr>routes = {(''default'', ''wlan0'')}, blocked = {}, resolv = Link ''../run/stub-resolv.conf'',
      claims = {}, through = False\<rparr>"

definition sample_network :: Network where
  "sample_network =
     \<lparr>Interface = ''caelo0'', AdapterHandle = 0, Address = ''10.0.0.2'', NetMTU = 1420,
      EndpointHost = ''192.0.2.1'', NetDNS = [''1.1.1.1'']\<rparr>"

definition sample_state :: State where
  "sample_state =
     \<lparr>DefaultGateway = ''192.0.2.254'', DefaultInterface = ''wlan0'', Resolved = False,
      PreviousResolvConf = None, ResolvConfLink = ''../run/stub-resolv.conf''\<rparr>"

text \<open>An environment that is the machine: it keeps its promises and answers truthfully.\<close>

definition kind_environment :: environment where
  "kind_environment t c =
     (case c of
        Exec name args \<Rightarrow>
          (if args = [''-4'', ''route'', ''show'', ''default''] then Done ''default via 192.0.2.254 dev wlan0''
           else Done [])
      | LookPath _ \<Rightarrow> Missing
      | Readlink _ \<Rightarrow>
          (case resolv (machine_after sample_machine t) of Link l \<Rightarrow> Done l | _ \<Rightarrow> Failed [])
      | ReadFile _ \<Rightarrow>
          (case resolv (machine_after sample_machine t) of Regular c \<Rightarrow> Done c | _ \<Rightarrow> Missing)
      | RemoveFile _ \<Rightarrow> (if resolv (machine_after sample_machine t) = Absent then Missing else Done [])
      | _ \<Rightarrow> Done [])"

lemma kind_obliging: "obliging sample_machine kind_environment"
  by (simp add: obliging_def kind_environment_def Let_def)

lemma kind_honest: "honest sample_machine kind_environment"
  by (simp add: honest_def kind_environment_def split: node.split)

lemma sample_real_link: "real_link sample_machine"
  by (simp add: real_link_def sample_machine_def)

lemma sample_untouched: "untouched sample_network sample_machine"
  by (simp add: untouched_def sample_network_def sample_machine_def defaultHalves_def)

lemma sample_snapshot:
  "\<exists>t st. run_state (Snapshot kind_environment) [] = (Inr st, t)"
proof -
  have "defaultRoute ''default via 192.0.2.254 dev wlan0'' = (''192.0.2.254'', ''wlan0'')" by code_simp
  then show ?thesis
    by (simp add: Snapshot_def run_andThen kind_environment_def resolvedIsAnswering_def
        snapshotResolv_def Let_def)
qed

section \<open>Properties\<close>

text \<open>
  C4: The machine comes back.  Take a snapshot of a machine that has none of the routes the tunnel
  adds, apply the configuration with whatever commands failing or succeeding, the whole of it or a
  part, and restore: when the system lets the restoring commands through, the machine is exactly
  what it was, its routes, its IPv6, its \<^verbatim>\<open>resolv.conf\<close>, link or file or none, and resolved's
  interfaces; and no file behind the link was ever written to.
\<close>

theorem Restore_undoes_Apply:
  assumes "run_state (Snapshot env) [] = (Inr st, t1)"
    and "run_state (Apply env st cfg) t1 = (r, t2)"
    and "run_state (Restore env st cfg) t2 = (r', t3)"
    and "honest m0 env" and "obliging m0 env" and "untouched cfg m0" and "real_link m0"
  shows "machine_after m0 t3 = m0 \<and> through (machine_after m0 t2) = through m0"
proof -
  have rec: "records st m0" using Snapshot_records [OF assms(1,4)] assms(7) by simp
  have "machine_after m0 t1 = m0" using Snapshot_quiet [of m0 env "[]"] assms(1) by simp
  then have "taken m0 st cfg (machine_after m0 t1)" by (simp add: taken_refl)
  then have "taken m0 st cfg (machine_after m0 t2)"
    using keepsD [OF Apply_taken [OF rec, of cfg env], of t1] assms(2) by simp
  then show ?thesis
    using Restore_restores [OF assms(5) _ rec, of cfg t2] assms(3,6) by (simp add: taken_def)
qed

theorem Restore_undoes_Apply_witness:
  "\<exists>st t1 t2 t3. run_state (Snapshot kind_environment) [] = (Inr st, t1) \<and>
     t2 = snd (run_state (Apply kind_environment st sample_network) t1) \<and>
     t3 = snd (run_state (Restore kind_environment st sample_network) t2) \<and>
     machine_after sample_machine t3 = sample_machine"
proof -
  obtain t1 st where s: "run_state (Snapshot kind_environment) [] = (Inr st, t1)"
    using sample_snapshot by blast
  obtain r t2 where a: "run_state (Apply kind_environment st sample_network) t1 = (r, t2)" by fastforce
  obtain r' t3 where b: "run_state (Restore kind_environment st sample_network) t2 = (r', t3)" by fastforce
  have "machine_after sample_machine t3 = sample_machine \<and>
      through (machine_after sample_machine t2) = through sample_machine"
    by (rule Restore_undoes_Apply [OF s a b kind_honest kind_obliging sample_untouched sample_real_link])
  with s a b show ?thesis by (metis snd_conv)
qed

text \<open>The route to the server by way of the physical interface, and the routes into the tunnel.\<close>

definition pin_call :: "State \<Rightarrow> Network \<Rightarrow> call" where
  "pin_call st cfg =
     Exec ''ip'' [''route'', ''add'', EndpointHost cfg @ ''/32'', ''via'', DefaultGateway st,
       ''dev'', DefaultInterface st]"

definition half_call :: "Network \<Rightarrow> string \<Rightarrow> call" where
  "half_call cfg half = Exec ''ip'' [''route'', ''add'', half, ''dev'', Interface cfg]"

definition pinned_before :: "State \<Rightarrow> Network \<Rightarrow> trace \<Rightarrow> bool" where
  "pinned_before st cfg s \<longleftrightarrow>
     (\<forall>pre post half a. s = pre @ (half_call cfg half, a) # post \<longrightarrow>
        (\<exists>out. (pin_call st cfg, Done out) \<in> set pre))"

lemma pinned_before_Nil [simp]: "pinned_before st cfg []"
  by (simp add: pinned_before_def)

lemma pinned_before_snoc:
  "pinned_before st cfg (s @ [(c, a)]) \<longleftrightarrow>
     pinned_before st cfg s \<and>
     ((\<exists>half. c = half_call cfg half) \<longrightarrow> (\<exists>out. (pin_call st cfg, Done out) \<in> set s))"
proof -
  have "s @ [(c, a)] = pre @ x # post \<longleftrightarrow>
      (\<exists>post'. s = pre @ x # post' \<and> post = post' @ [(c, a)]) \<or> (pre = s \<and> x = (c, a) \<and> post = [])"
    for pre post x
    by (cases post rule: rev_cases) auto
  note split = this
  show ?thesis
  proof
    assume l: "pinned_before st cfg (s @ [(c, a)])"
    have "\<exists>out. (pin_call st cfg, Done out) \<in> set pre" if "s = pre @ (half_call cfg half, b) # post" for pre post half b
      using l that unfolding pinned_before_def by (metis append_Cons append_assoc)
    moreover have "\<exists>out. (pin_call st cfg, Done out) \<in> set s" if "c = half_call cfg half" for half
      using l that unfolding pinned_before_def by blast
    ultimately show "pinned_before st cfg s \<and>
        ((\<exists>half. c = half_call cfg half) \<longrightarrow> (\<exists>out. (pin_call st cfg, Done out) \<in> set s))"
      unfolding pinned_before_def by blast
  next
    assume r: "pinned_before st cfg s \<and>
        ((\<exists>half. c = half_call cfg half) \<longrightarrow> (\<exists>out. (pin_call st cfg, Done out) \<in> set s))"
    show "pinned_before st cfg (s @ [(c, a)])"
      unfolding pinned_before_def split using r unfolding pinned_before_def by blast
  qed
qed

definition ordered_from :: "trace \<Rightarrow> State \<Rightarrow> Network \<Rightarrow> trace \<Rightarrow> bool" where
  "ordered_from t0 st cfg t \<longleftrightarrow> (\<exists>s. t = t0 @ s \<and> pinned_before st cfg s)"

definition pinned_from :: "trace \<Rightarrow> State \<Rightarrow> Network \<Rightarrow> trace \<Rightarrow> bool" where
  "pinned_from t0 st cfg t \<longleftrightarrow>
     (\<exists>s out. t = t0 @ s \<and> pinned_before st cfg s \<and> (pin_call st cfg, Done out) \<in> set s)"

lemma ordered_from_snoc:
  "ordered_from t0 st cfg t \<Longrightarrow> (\<And>half. c \<noteq> half_call cfg half) \<Longrightarrow> ordered_from t0 st cfg (t @ [(c, a)])"
  unfolding ordered_from_def by (force simp: pinned_before_snoc)

lemma pinned_from_snoc: "pinned_from t0 st cfg t \<Longrightarrow> pinned_from t0 st cfg (t @ [(c, a)])"
  unfolding pinned_from_def by (force simp: pinned_before_snoc)

lemma pinned_from_ordered: "pinned_from t0 st cfg t \<Longrightarrow> ordered_from t0 st cfg t"
  unfolding pinned_from_def ordered_from_def by blast

lemma keeps_pinned_applyDNS: "keeps (pinned_from t0 st cfg) (applyDNS env st cfg)"
  unfolding applyDNS_def
  by (cases "resolvFile (NetDNS cfg)";
      simp; intro conjI impI keeps_andThen keeps_inContext keeps_if keeps_ret keeps_runs keeps_attempt
        pinned_from_snoc)

lemma triple_pin:
  "triple (ordered_from t0 st cfg) (pinEndpoint env st cfg)
     (\<lambda>r t. (case r of Inl e \<Rightarrow> ordered_from t0 st cfg t | Inr a \<Rightarrow> pinned_from t0 st cfg t))"
  unfolding pinEndpoint_def
proof (intro triple_inContext triple_runs)
  let ?pin = "Exec ''ip'' [''route'', ''add'', EndpointHost cfg @ ''/32'',
      ''via'', DefaultGateway st, ''dev'', DefaultInterface st]"
  have pin: "?pin = pin_call st cfg" "\<And>half. ?pin \<noteq> half_call cfg half"
    by (simp_all add: pin_call_def half_call_def)
  fix t assume t: "ordered_from t0 st cfg t"
  then obtain s where "t = t0 @ s" "pinned_before st cfg s" by (auto simp: ordered_from_def)
  then show "case wrapE (Context ''pinning the endpoint route'') (Inr ()) of
      Inl e \<Rightarrow> ordered_from t0 st cfg (t @ [(?pin, Done out)])
    | Inr a \<Rightarrow> pinned_from t0 st cfg (t @ [(?pin, Done out)])" for out
    using pin unfolding pinned_from_def
    by (auto simp: pinned_before_snoc intro!: exI [of _ "s @ [(?pin, Done out)]"])
  show "case wrapE (Context ''pinning the endpoint route'') (Inl (ExecFailed ''ip'' x)) of
      Inl e \<Rightarrow> ordered_from t0 st cfg (t @ [(?pin, a)])
    | Inr b \<Rightarrow> pinned_from t0 st cfg (t @ [(?pin, a)])" for a x
    using ordered_from_snoc [OF t pin(2)] by simp
qed

lemma keeps_pinned_halves: "keeps (pinned_from t0 st cfg) (routeHalves env cfg)"
  unfolding routeHalves_def by (intro keeps_forEach keeps_inContext keeps_runs pinned_from_snoc)

lemma keeps_blockV6: "(\<And>t c a. I t \<Longrightarrow> I (t @ [(c, a)])) \<Longrightarrow> keeps I (blockV6 env)"
  unfolding blockV6_def by (intro keeps_forEach keeps_bind keeps_run keeps_ret)

lemma Apply_ordered: "keeps (ordered_from t0 st cfg) (Apply env st cfg)"
proof -
  let ?O = "ordered_from t0 st cfg" and ?N = "pinned_from t0 st cfg"
  have "keeps ?N (andThen (routeHalves env cfg) (\<lambda>_. andThen (blockV6 env) (\<lambda>_.
      if NetDNS cfg \<noteq> [] then applyDNS env st cfg else ret (Inr ()))))"
    by (intro keeps_andThen keeps_if keeps_pinned_halves keeps_blockV6 keeps_pinned_applyDNS keeps_ret
        pinned_from_snoc)
  then have "triple ?N (andThen (routeHalves env cfg) (\<lambda>_. andThen (blockV6 env) (\<lambda>_.
      if NetDNS cfg \<noteq> [] then applyDNS env st cfg else ret (Inr ())))) (\<lambda>_. ?O)"
    unfolding keeps_def by (rule triple_weaken) (auto intro: pinned_from_ordered)
  note tail = triple_andThen [OF triple_pin this, folded keeps_def]
  show ?thesis
    unfolding Apply_def
    by (intro keeps_andThen keeps_inContext keeps_if keeps_runs keeps_ret ordered_from_snoc tail)
      (simp_all add: half_call_def)
qed

text \<open>
  C5: The server stays reachable.  Whatever the commands answer, \<^verbatim>\<open>Apply\<close> sends half of the
  address space into the tunnel only after the route to the server by way of the physical
  interface was put in place: before each attempt to route a half, the command that pins the
  endpoint was answered with success.
\<close>

theorem Apply_pins_endpoint_first:
  "\<exists>s. snd (run_state (Apply env st cfg) t) = t @ s \<and> pinned_before st cfg s"
  using keepsD [OF Apply_ordered [of t st cfg env], of t]
  by (auto simp: ordered_from_def)

section \<open>What success means\<close>

lemma gives_both: "gives P m R \<Longrightarrow> gives P m S \<Longrightarrow> gives P m (\<lambda>t. R t \<and> S t)"
  by (fastforce simp: gives_def triple_def split: prod.splits sum.splits)

lemma gives_any: "gives P m (\<lambda>_. True)"
  by (simp add: gives_def triple_def split: prod.splits sum.splits)

text \<open>No command of \<^verbatim>\<open>Apply\<close> removes a route.\<close>

lemma effect_keeps_route:
  assumes "r \<in> routes m" and "\<And>name args. c = Exec name args \<Longrightarrow> take 2 args \<noteq> [''route'', ''del'']"
  shows "r \<in> routes (effect (c, a) m)"
  using assms
  by (auto simp: effect_def exec_effect_def write_resolv_def split: call.splits answer.splits node.splits)

lemma routes_step:
  assumes "rs \<subseteq> routes (machine_after m0 t)"
    and "\<And>name args. c = Exec name args \<Longrightarrow> take 2 args \<noteq> [''route'', ''del'']"
  shows "rs \<subseteq> routes (machine_after m0 (t @ [(c, a)]))"
  using assms effect_keeps_route by (auto simp: subset_iff)

lemma routes_kept_by_DNS:
  "keeps (\<lambda>t. rs \<subseteq> routes (machine_after m0 t)) (applyDNS env st cfg)"
  unfolding applyDNS_def
  by (cases "resolvFile (NetDNS cfg)";
      simp only: sum.case; intro keeps_if keeps_ret keeps_andThen keeps_inContext keeps_runs
        keeps_attempt routes_step) auto

lemma pin_gives:
  "gives P (pinEndpoint env st cfg)
     (\<lambda>t. {(EndpointHost cfg @ ''/32'', DefaultInterface st)} \<subseteq> routes (machine_after m0 t))"
  unfolding pinEndpoint_def by (intro gives_inContext gives_runs) simp

lemma halves_give:
  "gives (\<lambda>t. {r} \<subseteq> routes (machine_after m0 t)) (routeHalves env cfg)
     (\<lambda>t. insert r ((\<lambda>half. (half, Interface cfg)) ` set defaultHalves) \<subseteq> routes (machine_after m0 t))"
proof -
  let ?route = "\<lambda>half. inContext (''routing '' @ half @ '' into the tunnel'')
       (runs env ''ip'' [''route'', ''add'', half, ''dev'', Interface cfg])"
  have one: "gives (\<lambda>t. rs \<subseteq> routes (machine_after m0 t)) (?route half)
      (\<lambda>t. insert (half, Interface cfg) rs \<subseteq> routes (machine_after m0 t))" for half rs
    by (intro gives_inContext gives_runs) auto
  have loop: "gives (\<lambda>t. rs \<subseteq> routes (machine_after m0 t)) (forEach ?route hs)
      (\<lambda>t. rs \<union> (\<lambda>half. (half, Interface cfg)) ` set hs \<subseteq> routes (machine_after m0 t))" for hs rs
  proof (induction hs arbitrary: rs)
    case (Cons h hs)
    show ?case
      unfolding forEach.simps
      by (rule gives_andThen [OF one], rule gives_weaken [OF Cons.IH [of "insert (h, Interface cfg) rs"]])
        auto
  qed (auto intro: gives_ret)
  show ?thesis unfolding routeHalves_def by (rule gives_weaken [OF loop [of "{r}"]]) auto
qed

lemma Apply_gives_routes:
  "gives P (Apply env st cfg) (\<lambda>t. our_routes st cfg \<subseteq> routes (machine_after m0 t))"
proof -
  let ?R = "\<lambda>t. our_routes st cfg \<subseteq> routes (machine_after m0 t)"
  have "keeps ?R (andThen (blockV6 env) (\<lambda>_. if NetDNS cfg \<noteq> [] then applyDNS env st cfg else ret (Inr ())))"
    unfolding blockV6_def
    by (intro keeps_andThen keeps_if keeps_forEach keeps_bind keeps_run keeps_ret routes_kept_by_DNS
        routes_step) auto
  note tail = gives_keeps [OF this, unfolded our_routes_def]
  show ?thesis
    unfolding Apply_def our_routes_def
    by (rule gives_andThen [OF gives_any], rule gives_andThen [OF gives_any],
        rule gives_andThen [OF gives_any], rule gives_andThen [OF pin_gives],
        rule gives_andThen [OF halves_give], rule tail)
qed

text \<open>The names of this machine are asked of the servers of the configuration.\<close>

definition dns_taken :: "State \<Rightarrow> Network \<Rightarrow> machine \<Rightarrow> bool" where
  "dns_taken st cfg m \<longleftrightarrow>
     (if Resolved st then Interface cfg \<in> claims m
      else \<exists>content. resolvFile (NetDNS cfg) = Inr content \<and> resolv m = Regular content)"

lemma applyDNS_gives:
  assumes "records st m0"
  shows "gives (\<lambda>t. taken m0 st cfg (machine_after m0 t)) (applyDNS env st cfg)
           (\<lambda>t. dns_taken st cfg (machine_after m0 t))"
proof (cases "Resolved st")
  case True
  then show ?thesis
    unfolding applyDNS_def dns_taken_def
    by (simp, intro gives_andThen [OF gives_any] gives_inContext gives_runs) simp
next
  case unresolved: False
  show ?thesis
  proof (cases "resolvFile (NetDNS cfg)")
    case (Inl e)
    with unresolved show ?thesis
      by (simp add: applyDNS_def gives_def triple_def)
  next
    case (Inr content)
    let ?m1 = "if ResolvConfLink st \<noteq> [] then inContext (''replacing '' @ resolvConf)
        (andThen (attempt env (RemoveFile resolvConf)) (\<lambda>_. ret (Inr ()))) else ret (Inr ())"
    have "gives (\<lambda>t. taken m0 st cfg (machine_after m0 t)) ?m1 (\<lambda>t. no_link (machine_after m0 t))"
    proof (cases "ResolvConfLink st = []")
      case True
      then show ?thesis
        by (simp, intro gives_ret) (auto intro: taken_no_link [OF _ assms unresolved])
    next
      case False
      then show ?thesis
        by (simp, intro gives_inContext)
          (auto simp: gives_def triple_def run_andThen no_link_def split: answer.split sum.split)
    qed
    moreover have "gives (\<lambda>t. no_link (machine_after m0 t)) (inContext (''writing '' @ resolvConf)
        (andThen (attempt env (WriteFile resolvConf content)) (\<lambda>_. ret (Inr ()))))
        (\<lambda>t. dns_taken st cfg (machine_after m0 t))"
      using unresolved Inr
      by (intro gives_inContext)
        (auto simp: gives_def triple_def run_andThen dns_taken_def write_resolv_def no_link_def
          split: answer.split sum.split node.splits)
    ultimately show ?thesis
      using unresolved Inr unfolding applyDNS_def by (auto intro: gives_andThen)
  qed
qed

lemma Apply_gives_DNS:
  assumes "records st m0" and "NetDNS cfg \<noteq> []"
  shows "gives (\<lambda>t. taken m0 st cfg (machine_after m0 t)) (Apply env st cfg)
           (\<lambda>t. dns_taken st cfg (machine_after m0 t))"
proof -
  have dns: "gives (\<lambda>t. taken m0 st cfg (machine_after m0 t))
      (if NetDNS cfg \<noteq> [] then applyDNS env st cfg else ret (Inr ()))
      (\<lambda>t. dns_taken st cfg (machine_after m0 t))"
    using applyDNS_gives [OF assms(1)] assms(2) by simp
  show ?thesis
    unfolding Apply_def pinEndpoint_def routeHalves_def blockV6_def
    by (rule gives_andThen [OF gives_keeps], intro keeps_inContext taken_runs, simp,
        rule gives_andThen [OF gives_keeps], intro keeps_if keeps_inContext taken_runs keeps_ret, simp,
        rule gives_andThen [OF gives_keeps], intro keeps_inContext taken_runs, simp,
        rule gives_andThen [OF gives_keeps], intro keeps_inContext taken_runs,
          simp add: taken_route routes_ours,
        rule gives_andThen [OF gives_keeps], intro keeps_forEach keeps_inContext taken_runs,
          simp add: taken_route routes_ours,
        rule gives_andThen [OF gives_keeps], intro keeps_forEach keeps_bind keeps_ret taken_run,
          simp add: taken_blocked, rule dns)
qed

text \<open>
  Success means the machine is taken over.  When \<^verbatim>\<open>Apply\<close> reports no error, both halves of
  the address space are routed into the tunnel and the server by way of the physical interface,
  and when servers were given, names are asked of them: resolved has been told about the interface,
  or \<^verbatim>\<open>/etc/resolv.conf\<close> is a file of our own that lists them.
\<close>

theorem Apply_takes_over:
  assumes "run_state (Apply env st cfg) t = (Inr (), t')"
    and "records st m0" and "machine_after m0 t = m0"
  shows "our_routes st cfg \<subseteq> routes (machine_after m0 t') \<and>
    (NetDNS cfg \<noteq> [] \<longrightarrow> dns_taken st cfg (machine_after m0 t'))"
  using givesD [OF Apply_gives_routes [of "\<lambda>_. True"] _ assms(1)]
    givesD [OF Apply_gives_DNS [OF assms(2)] _ assms(1)] assms(3)
  by (simp add: taken_refl)

theorem Apply_takes_over_witness:
  "\<exists>t'. our_routes sample_state sample_network \<subseteq> routes (machine_after sample_machine t') \<and>
     dns_taken sample_state sample_network (machine_after sample_machine t')"
proof -
  obtain r t' where run: "run_state (Apply kind_environment sample_state sample_network) [] = (r, t')"
    by fastforce
  have "fst (run_state (Apply kind_environment sample_state sample_network) []) = Inr ()"
    by code_simp
  with run have ok: "run_state (Apply kind_environment sample_state sample_network) [] = (Inr (), t')"
    by simp
  have "records sample_state sample_machine"
    by (simp add: records_def sample_state_def sample_machine_def)
  from Apply_takes_over [OF ok this] show ?thesis
    by (auto simp: sample_network_def)
qed

section \<open>What restoring reports\<close>

definition restore_calls :: "Network \<Rightarrow> (string \<times> call) list" where
  "restore_calls cfg =
     map (\<lambda>half. (''removing route '' @ half, Exec ''ip'' [''route'', ''del'', half, ''dev'', Interface cfg]))
       defaultHalves
     @ [(''removing the endpoint route'', Exec ''ip'' [''route'', ''del'', EndpointHost cfg @ ''/32''])]"

definition v6_calls :: "call list" where
  "v6_calls = map (\<lambda>half. Exec ''ip'' [''-6'', ''route'', ''del'', ''unreachable'', half]) v6Halves"

text \<open>The labels of the calls that were not answered with success.\<close>

definition failed_calls :: "((string \<times> call) \<times> answer) list \<Rightarrow> string list" where
  "failed_calls es = map (fst \<circ> fst) (filter (\<lambda>(c, a). \<nexists>out. a = Done out) es)"

lemma failed_calls_simps [simp]:
  "failed_calls [] = []"
  "failed_calls (((l, c), a) # es) = (case a of Done out \<Rightarrow> [] | _ \<Rightarrow> [l]) @ failed_calls es"
  by (simp_all add: failed_calls_def split: answer.split)

lemma restore_routes_run:
  obtains as vs ps where "length as = length (restore_calls cfg)" "length vs = length v6_calls"
    "run_state (restore_routes env cfg) t =
       (ps, t @ zip (map snd (restore_calls cfg)) as @ zip v6_calls vs)"
    "map fst ps = failed_calls (zip (restore_calls cfg) as)"
proof -
  let ?c = "\<lambda>half. Exec ''ip'' [''route'', ''del'', half, ''dev'', Interface cfg]"
  let ?h0 = "''0.0.0.0/1''" and ?h1 = "''128.0.0.0/1''"
  let ?e = "Exec ''ip'' [''route'', ''del'', EndpointHost cfg @ ''/32'']"
  let ?v = "\<lambda>half. Exec ''ip'' [''-6'', ''route'', ''del'', ''unreachable'', half]"
  obtain a0 where a0: "env t (?c ?h0) = a0" by simp
  obtain a1 where a1: "env (t @ [(?c ?h0, a0)]) (?c ?h1) = a1" by simp
  obtain a2 where a2: "env (t @ [(?c ?h0, a0), (?c ?h1, a1)]) ?e = a2" by simp
  let ?t3 = "t @ [(?c ?h0, a0), (?c ?h1, a1), (?e, a2)]"
  obtain b0 where b0: "env ?t3 (?v ''::/1'') = b0" by simp
  obtain b1 where b1: "env (?t3 @ [(?v ''::/1'', b0)]) (?v ''8000::/1'') = b1" by simp
  let ?p = "\<lambda>l c a. note_problem l (case a of Done out \<Rightarrow> Inr out | _ \<Rightarrow> Inl (ExecFailed ''ip'' c))"
  let ?ps = "?p ''removing the endpoint route'' [''route'', ''del'', EndpointHost cfg @ ''/32''] a2
      (?p (''removing route '' @ ?h1) [''route'', ''del'', ?h1, ''dev'', Interface cfg] a1
        (?p (''removing route '' @ ?h0) [''route'', ''del'', ?h0, ''dev'', Interface cfg] a0 []))"
  have labels: "map fst (?p l c a ps) = map fst ps @ (case a of Done out \<Rightarrow> [] | _ \<Rightarrow> [l])" for l c a ps
    by (simp add: note_problem_def split: answer.split)
  show thesis
  proof
    show "length [a0, a1, a2] = length (restore_calls cfg)" "length [b0, b1] = length v6_calls"
      by (simp_all add: restore_calls_def defaultHalves_def v6_calls_def v6Halves_def)
    show "run_state (restore_routes env cfg) t =
       (?ps, t @ zip (map snd (restore_calls cfg)) [a0, a1, a2] @ zip v6_calls [b0, b1])"
      using a0 a1 a2 b0 b1
      by (simp add: restore_routes_def attempt_command_def restore_calls_def v6_calls_def
          defaultHalves_def v6Halves_def)
    show "map fst ?ps = failed_calls (zip (restore_calls cfg) [a0, a1, a2])"
      unfolding labels by (simp add: restore_calls_def defaultHalves_def split: answer.split)
  qed
qed

text \<open>
  Restoring does not stop at a failure, and reports every one.  Whatever is answered, all the
  deletions are issued, in one order, and then the DNS is restored; what is reported is exactly the
  deletions of IPv4 routes that failed, in order, and the DNS if that failed, and nothing is
  reported when none did.
\<close>

theorem Restore_reports:
  "\<exists>as vs ps. length as = length (restore_calls cfg) \<and> length vs = length v6_calls \<and>
     (let t1 = t @ zip (map snd (restore_calls cfg)) as @ zip v6_calls vs;
          (dns, t2) = run_state (restoreDNS env st cfg) t1
      in run_state (Restore env st cfg) t = ((if ps = [] then Inr () else Inl (Problems ps)), t2) \<and>
         map fst ps = failed_calls (zip (restore_calls cfg) as)
           @ (case dns of Inl e \<Rightarrow> [''restoring DNS''] | Inr _ \<Rightarrow> []))"
proof -
  obtain as vs ps where r: "length as = length (restore_calls cfg)" "length vs = length v6_calls"
    "run_state (restore_routes env cfg) t =
       (ps, t @ zip (map snd (restore_calls cfg)) as @ zip v6_calls vs)"
    "map fst ps = failed_calls (zip (restore_calls cfg) as)"
    by (rule restore_routes_run)
  obtain dns t2 where dns: "run_state (restoreDNS env st cfg)
      (t @ zip (map snd (restore_calls cfg)) as @ zip v6_calls vs) = (dns, t2)" by fastforce
  show ?thesis
    by (rule exI [of _ as], rule exI [of _ vs], rule exI [of _ "note_problem ''restoring DNS'' dns ps"])
      (simp add: Restore_routes_DNS Let_def note_problem_def r(1-3) r(4) [symmetric] dns split: sum.split)
qed

text \<open>A machine that already has a route of its own to the server.\<close>

definition pinned_machine :: machine where
  "pinned_machine = sample_machine\<lparr>routes := insert (''192.0.2.1/32'', ''eth1'') (routes sample_machine)\<rparr>"

text \<open>Adding a route to where there is one already is refused.\<close>

definition adds_route :: "string \<Rightarrow> call \<Rightarrow> bool" where
  "adds_route dst c \<longleftrightarrow>
     (case c of Exec name args \<Rightarrow> name = ''ip'' \<and> take 3 args = [''route'', ''add'', dst] | _ \<Rightarrow> False)"

definition strict_environment :: environment where
  "strict_environment t c =
     (if adds_route ''192.0.2.1/32'' c then Failed ''File exists'' else kind_environment t c)"

lemma strict_kind:
  "strict_environment t (Exec ''ip'' (''route'' # ''del'' # args)) = kind_environment t (Exec ''ip'' (''route'' # ''del'' # args))"
  "strict_environment t (Exec ''ip'' (''-6'' # args)) = kind_environment t (Exec ''ip'' (''-6'' # args))"
  "strict_environment t (Exec ''resolvectl'' args) = kind_environment t (Exec ''resolvectl'' args)"
  "strict_environment t (RemoveFile p) = kind_environment t (RemoveFile p)"
  "strict_environment t (WriteFile p c) = kind_environment t (WriteFile p c)"
  "strict_environment t (Symlink l p) = kind_environment t (Symlink l p)"
  by (simp_all add: strict_environment_def adds_route_def)

text \<open>What happens to \<^verbatim>\<open>resolv.conf\<close> does not depend on the rest of the machine.\<close>

lemma exec_resolv [simp]: "resolv (exec_effect name args m) = resolv m"
  by (simp add: exec_effect_def)

lemma write_resolv_resolv: "resolv m = resolv m' \<Longrightarrow> resolv (write_resolv c m) = resolv (write_resolv c m')"
  by (simp add: write_resolv_def split: node.split)

lemma effect_resolv:
  assumes "resolv m = resolv m'"
  shows "resolv (effect e m) = resolv (effect e m')"
proof (cases e)
  case (Pair c a)
  then show ?thesis
    using assms write_resolv_resolv [OF assms]
    by (cases c; cases a) (simp_all add: effect_def)
qed

lemma fold_effect_resolv: "resolv m = resolv m' \<Longrightarrow> resolv (fold effect t m) = resolv (fold effect t m')"
proof (induction t arbitrary: m m')
  case (Cons e t)
  show ?case unfolding fold.simps comp_apply by (rule Cons.IH [OF effect_resolv [OF Cons.prems]])
qed simp

lemma pinned_resolv [simp]:
  "resolv (machine_after pinned_machine t) = resolv (machine_after sample_machine t)"
  unfolding machine_after_def by (rule fold_effect_resolv) (simp add: pinned_machine_def)

lemma strict_obliging: "obliging pinned_machine strict_environment"
  using kind_obliging unfolding obliging_def Let_def strict_kind no_link_def pinned_resolv
  by (simp add: kind_environment_def)



end
