(* ===== verification/Systunnel_Machine.thy ===== *)
theory Systunnel_Machine
  imports Systunnel Linux_Properties
begin

text \<open>
  What the controller's operations do to the machine and to the device: the machine is either what
  it was, with nothing open, or taken over completely with the tunnel open.  The lemmas are triples
  over the traces of \<open>World\<close>, one for each step of \<^verbatim>\<open>Start\<close>.
\<close>

section \<open>What is open\<close>

text \<open>Whether a tun interface and a device are open, after one more call.  Closing the device
  closes its interface.\<close>

definition open_step :: "call \<times> answer \<Rightarrow> bool \<times> bool \<Rightarrow> bool \<times> bool" where
  "open_step e opn =
     (case e of
        (CreateTUN name mtu, Done _) \<Rightarrow> (True, snd opn)
      | (TunClose, _) \<Rightarrow> (False, snd opn)
      | (NewDevice, _) \<Rightarrow> (fst opn, True)
      | (DeviceClose, _) \<Rightarrow> (False, False)
      | _ \<Rightarrow> opn)"

definition opened :: "trace \<Rightarrow> bool \<times> bool" where
  "opened t = fold open_step t (False, False)"

abbreviation nothing_open :: "bool \<times> bool" where "nothing_open \<equiv> (False, False)"
abbreviation all_open :: "bool \<times> bool" where "all_open \<equiv> (True, True)"

lemma opened_simps [simp]:
  "opened [] = nothing_open"
  "opened (t @ [e]) = open_step e (opened t)"
  by (simp_all add: opened_def)

lemma opened_append: "opened (t @ es) = fold open_step es (opened t)"
  by (simp add: opened_def)

lemma open_step_simps [simp]:
  "open_step (CreateTUN name mtu, Done out) opn = (True, snd opn)"
  "open_step (TunClose, a) opn = (False, snd opn)"
  "open_step (NewDevice, a) opn = (fst opn, True)"
  "open_step (DeviceClose, a) opn = nothing_open"
  "(\<And>out. a \<noteq> Done out) \<Longrightarrow> open_step (CreateTUN name mtu, a) opn = opn"
  by (auto simp: open_step_def split: answer.split)

lemma open_step_other [simp]:
  "open_step (Exec p xs, a) opn = opn" "open_step (LookPath p, a) opn = opn"
  "open_step (Readlink p, a) opn = opn" "open_step (ReadFile p, a) opn = opn"
  "open_step (WriteFile p c, a) opn = opn" "open_step (RemoveFile p, a) opn = opn"
  "open_step (Symlink l p, a) opn = opn" "open_step (LookupHost h, a) opn = opn"
  "open_step (Now, a) opn = opn" "open_step (Sleep d, a) opn = opn" "open_step (TunName, a) opn = opn"
  "open_step (IpcSet s, a) opn = opn" "open_step (DeviceUp, a) opn = opn" "open_step (IpcGet, a) opn = opn"
  "open_step (Os f xs, a) opn = opn"
  by (simp_all add: open_step_def)

lemma effect_device [simp]:
  "effect (LookupHost h, a) m = m" "effect (Now, a) m = m" "effect (Sleep d, a) m = m"
  "effect (CreateTUN name mtu, a) m = m" "effect (TunName, a) m = m" "effect (TunClose, a) m = m"
  "effect (NewDevice, a) m = m" "effect (IpcSet s, a) m = m" "effect (DeviceUp, a) m = m"
  "effect (IpcGet, a) m = m" "effect (DeviceClose, a) m = m" "effect (Os f xs, a) m = m"
  by (simp_all add: effect_def)

section \<open>The routing code opens and closes nothing\<close>

lemma keeps_conj: "keeps I m \<Longrightarrow> keeps J m \<Longrightarrow> keeps (\<lambda>t. I t \<and> J t) m"
  by (fastforce simp: keeps_def triple_def split: prod.splits)

lemma applyDNS_opened: "keeps (\<lambda>t. opened t = opn) (applyDNS env st cfg)"
  unfolding applyDNS_def
  by (cases "resolvFile (NetDNS cfg)"; simp only: sum.case;
      intro keeps_if keeps_andThen keeps_inContext keeps_runs keeps_attempt keeps_ret) simp_all

lemma Apply_opened: "keeps (\<lambda>t. opened t = opn) (Apply env st cfg)"
  unfolding Apply_def pinEndpoint_def routeHalves_def blockV6_def
  by (intro keeps_andThen keeps_inContext keeps_if keeps_forEach keeps_bind keeps_ret
      applyDNS_opened keeps_runs keeps_run) simp_all

lemma restoreDNS_opened: "keeps (\<lambda>t. opened t = opn) (restoreDNS env st cfg)"
  unfolding restoreDNS_def removeIfPresent_def
  by (cases "PreviousResolvConf st"; simp only: option.case;
      intro keeps_if keeps_andThen keeps_bind keeps_ret keeps_attempt keeps_runs) simp_all

lemma Restore_opened: "keeps (\<lambda>t. opened t = opn) (Restore env st cfg)"
  unfolding Restore_def attempt_command_def Let_def
  by (intro keeps_bind keeps_foldIO keeps_run keeps_ret restoreDNS_opened) simp_all

lemma resolvedIsAnswering_opened: "keeps (\<lambda>t. opened t = opn) (resolvedIsAnswering env)"
  unfolding resolvedIsAnswering_def
  by (intro keeps_bind keeps_attempt) (auto intro!: keeps_bind keeps_run keeps_ret split: sum.split)

lemma Snapshot_opened: "keeps (\<lambda>t. opened t = opn) (Snapshot env)"
  unfolding Snapshot_def snapshotResolv_def Let_def
  by (intro keeps_andThen keeps_inContext keeps_run)
    (auto intro!: keeps_if keeps_bind keeps_ret keeps_attempt resolvedIsAnswering_opened split: prod.split)

section \<open>The two states of the world\<close>

text \<open>Nothing \<^verbatim>\<open>Apply\<close> could add is there yet, whatever the tunnel's names turn out to be.\<close>

definition pristine :: "machine \<Rightarrow> bool" where
  "pristine m \<longleftrightarrow>
     (\<forall>half \<in> set defaultHalves. \<forall>dev. (half, dev) \<notin> routes m) \<and>
     (\<forall>h dev. (h @ ''/32'', dev) \<notin> routes m) \<and>
     set v6Halves \<inter> blocked m = {} \<and> claims m = {} \<and> real_link m"

lemma pristine_untouched: "pristine m \<Longrightarrow> untouched cfg m"
  by (auto simp: pristine_def untouched_def)

text \<open>The system answers truthfully and lets what is restored through.\<close>

definition cooperative :: "machine \<Rightarrow> environment \<Rightarrow> bool" where
  "cooperative m0 env \<longleftrightarrow> honest m0 env \<and> obliging m0 env \<and> pristine m0"

text \<open>The machine as it was; the machine partly or wholly taken over with the device open; and
  wholly.\<close>

definition calm :: "machine \<Rightarrow> bool \<times> bool \<Rightarrow> trace \<Rightarrow> bool" where
  "calm m0 opn t \<longleftrightarrow> machine_after m0 t = m0 \<and> opened t = opn"

definition held :: "machine \<Rightarrow> State \<Rightarrow> Network \<Rightarrow> trace \<Rightarrow> bool" where
  "held m0 st net t \<longleftrightarrow> taken m0 st net (machine_after m0 t) \<and> opened t = all_open"

definition complete :: "machine \<Rightarrow> State \<Rightarrow> Network \<Rightarrow> trace \<Rightarrow> bool" where
  "complete m0 st net t \<longleftrightarrow>
     our_routes st net \<subseteq> routes (machine_after m0 t) \<and> dns_taken st net (machine_after m0 t)"

lemma calm_held: "calm m0 all_open t \<Longrightarrow> held m0 st net t"
  by (simp add: calm_def held_def taken_refl)

section \<open>The steps of \<^verbatim>\<open>Start\<close>\<close>

text \<open>A triple with one condition for errors and one for results.\<close>

abbreviation on_result :: "('s \<Rightarrow> bool) \<Rightarrow> ('a \<Rightarrow> 's \<Rightarrow> bool) \<Rightarrow> 'e + 'a \<Rightarrow> 's \<Rightarrow> bool" where
  "on_result E R r t \<equiv> (case r of Inl e \<Rightarrow> E t | Inr a \<Rightarrow> R a t)"

lemma triple_steps:
  assumes "triple P m (on_result E R)" and "\<And>a. triple (R a) (f a) (on_result E S)"
  shows "triple P (andThen m f) (on_result E S)"
  by (rule triple_andThen [where R = R]) (use assms in \<open>simp_all cong: sum.case_cong\<close>)

lemma keeps_on_result: "keeps I m \<Longrightarrow> triple I m (on_result I (\<lambda>_. I))"
  unfolding keeps_def by (erule triple_weaken) (auto split: sum.split)

lemma gives_on_result:
  assumes "keeps I m" and "gives I m R"
  shows "triple I m (on_result I (\<lambda>_ t. I t \<and> R t))"
  unfolding triple_def
proof (intro allI impI)
  fix t assume t: "I t"
  obtain r t' where run: "run_state m t = (r, t')" by fastforce
  have "I t'" using keepsD [OF assms(1) t] run by simp
  then show "case run_state m t of (a, t') \<Rightarrow> on_result I (\<lambda>_ t. I t \<and> R t) a t'"
    using givesD [OF assms(2) t] run by (cases r) auto
qed

lemma run_liftF: "run_state (liftF m) t = (case run_state m t of (r, t') \<Rightarrow> (map_sum Failure id r, t'))"
  by (simp add: liftF_def split: prod.split)

lemma triple_liftF:
  assumes "triple P m (on_result E R)"
  shows "triple P (liftF m) (on_result E R)"
  unfolding triple_def
proof (intro allI impI)
  fix t assume "P t"
  obtain r t' where run: "run_state m t = (r, t')" by fastforce
  then have "on_result E R r t'" using assms \<open>P t\<close> by (auto simp: triple_def)
  then show "case run_state (liftF m) t of (a, t') \<Rightarrow> on_result E R a t'"
    using run by (cases r) (simp_all add: run_liftF)
qed

lemma keeps_liftF: "keeps I m \<Longrightarrow> keeps I (liftF m)"
  by (auto simp: keeps_def triple_def run_liftF split: prod.splits)

text \<open>A step that fails by itself changes nothing, one that is cleaned up leaves nothing.\<close>

lemma triple_orClose:
  assumes "keeps (calm m0 all_open) m"
  shows "triple (calm m0 all_open) (orClose env m)
    (on_result (calm m0 nothing_open) (\<lambda>_. calm m0 all_open))"
  unfolding orClose_def
proof (rule triple_bind)
  show "triple (calm m0 all_open) m (\<lambda>_. calm m0 all_open)" using assms by (simp add: keeps_def)
  show "triple (calm m0 all_open)
      (case r of Inl e \<Rightarrow> ask env DeviceClose \<bind> (\<lambda>_. ret (Inl e)) | Inr a \<Rightarrow> ret (Inr a))
      (on_result (calm m0 nothing_open) (\<lambda>_. calm m0 all_open))" for r
    by (cases r) (simp_all add: triple_def calm_def)
qed

lemma Restore_held:
  assumes "cooperative m0 env" and "records st m0"
  shows "triple (held m0 st net) (Restore env st net) (\<lambda>_. calm m0 all_open)"
  unfolding triple_def
proof (intro allI impI)
  fix t assume h: "held m0 st net t"
  have "machine_after m0 (snd (run_state (Restore env st net) t)) = m0"
    using h assms pristine_untouched by (intro Restore_restores) (auto simp: held_def cooperative_def)
  moreover have "opened (snd (run_state (Restore env st net) t)) = all_open"
    using keepsD [OF Restore_opened, of t all_open] h by (simp add: held_def)
  ultimately show "case run_state (Restore env st net) t of (a, t') \<Rightarrow> calm m0 all_open t'"
    by (cases "run_state (Restore env st net) t") (simp add: calm_def)
qed

lemma triple_orRestore:
  assumes "cooperative m0 env" and "records st m0"
    and m: "triple P m (on_result (held m0 st net) R)"
  shows "triple P (orRestore env st net m) (on_result (calm m0 nothing_open) R)"
  unfolding orRestore_def
proof (rule triple_bind [OF m])
  show "triple (on_result (held m0 st net) R r)
      (case r of Inl e \<Rightarrow> Restore env st net \<bind> (\<lambda>_. ask env DeviceClose \<bind> (\<lambda>_. ret (Inl e)))
       | Inr a \<Rightarrow> ret (Inr a))
      (on_result (calm m0 nothing_open) R)" for r
  proof (cases r)
    case (Inl e)
    have "triple (calm m0 all_open) (ask env DeviceClose \<bind> (\<lambda>_. ret (Inl e)))
        (on_result (calm m0 nothing_open) R)" by (simp add: triple_def calm_def)
    then show ?thesis
      using Inl by (auto intro!: triple_bind [OF Restore_held [OF assms(1,2)]])
  qed (simp add: triple_def)
qed

lemma calm_quiet:
  assumes "calm m0 opn t" and "\<And>m. effect (c, a) m = m" and "\<And>o'. open_step (c, a) o' = o'"
  shows "calm m0 opn (t @ [(c, a)])"
  using assms by (simp add: calm_def)

lemma EndpointAddress_calm: "keeps (calm m0 opn) (EndpointAddress env endpoint)"
  unfolding EndpointAddress_def
  by (auto intro!: keeps_if keeps_ret keeps_bind keeps_ask calm_quiet split: option.split)

lemma Snapshot_calm: "keeps (calm m0 opn) (Snapshot env)"
proof -
  have "keeps (\<lambda>t. machine_after m0 t = m0) (Snapshot env)"
    by (auto simp: keeps_def triple_def split: prod.split intro: trans [OF Snapshot_quiet, unfolded split_def])
      (metis Snapshot_quiet snd_conv)
  then show ?thesis
    unfolding calm_def by (rule keeps_conj) (rule Snapshot_opened)
qed

lemma openTUN_calm:
  "triple (calm m0 nothing_open) (openTUN env mtu)
     (on_result (calm m0 nothing_open) (\<lambda>_. calm m0 (True, False)))"
  by (auto simp: openTUN_def triple_def run_andThen calm_def machine_after_append opened_append split: answer.split sum.split)

lemma device_calm:
  "keeps (calm m0 opn) (liftF (inContext what (attempt env (IpcSet doc))))"
  "keeps (calm m0 opn) (liftF (inContext what (attempt env DeviceUp)))"
  by (intro keeps_liftF keeps_inContext keeps_attempt calm_quiet; simp)+

lemma keeps_askNow: "(\<And>t a. I t \<Longrightarrow> I (t @ [(Now, a)])) \<Longrightarrow> keeps I (askNow env)"
  unfolding askNow_def by (intro keeps_bind keeps_ask keeps_ret)

lemma keeps_wait_rounds:
  assumes "\<And>t c a. I t \<Longrightarrow> c \<in> {IpcGet, Now, Sleep pollEvery} \<Longrightarrow> I (t @ [(c, a)])"
  shows "keeps I (wait_rounds env deadline n)"
proof (induction n)
  case (Suc n)
  show ?case
    unfolding wait_rounds.simps
    by (intro keeps_bind keeps_ask keeps_if keeps_ret keeps_askNow Suc) (auto intro: assms)
qed (simp add: keeps_ret)

lemma keeps_waitServer:
  assumes "\<And>t c a. I t \<Longrightarrow> c \<in> {IpcGet, Now, Sleep pollEvery} \<Longrightarrow> I (t @ [(c, a)])"
  shows "keeps I (waitServer env fuel)"
  unfolding waitServer_def
  by (intro keeps_bind keeps_askNow keeps_wait_rounds keeps_ret) (auto intro: assms)

text \<open>No step takes anything out of the trace.\<close>

definition extends :: "trace \<Rightarrow> trace \<Rightarrow> bool" where
  "extends t0 t \<longleftrightarrow> (\<exists>s. t = t0 @ s)"

lemma extends_simps [simp]: "extends t t" "extends t0 t \<Longrightarrow> extends t0 (t @ s)"
  by (auto simp: extends_def)

lemma Apply_extends: "keeps (extends t0) (Apply env st cfg)"
proof -
  have "keeps (extends t0) (applyDNS env st cfg)"
    unfolding applyDNS_def
    by (cases "resolvFile (NetDNS cfg)"; simp only: sum.case;
        intro keeps_if keeps_andThen keeps_inContext keeps_runs keeps_attempt keeps_ret) simp_all
  then show ?thesis
    unfolding Apply_def pinEndpoint_def routeHalves_def blockV6_def
    by (intro keeps_andThen keeps_inContext keeps_if keeps_forEach keeps_bind keeps_ret
        keeps_runs keeps_run) simp_all
qed

text \<open>The server has answered: a dump of the device since \<open>t0\<close> states a handshake.\<close>

definition heard :: "trace \<Rightarrow> trace \<Rightarrow> bool" where
  "heard t0 t \<longleftrightarrow> (\<exists>s uapi. t = t0 @ s \<and> (IpcGet, Done uapi) \<in> set s \<and> Handshake.Parse uapi \<noteq> 0)"

lemma heard_snoc: "heard t0 t \<Longrightarrow> heard t0 (t @ [e])"
  by (force simp: heard_def)

lemma wait_rounds_heard:
  assumes "run_state (wait_rounds env deadline n) (t0 @ s) = (Some True, t')"
  shows "heard t0 t'"
  using assms
proof (induction n arbitrary: s)
  case (Suc n)
  show ?case
  proof (cases "answered (read_of (env (t0 @ s) IpcGet))")
    case True
    with Suc.prems show ?thesis
      by (auto simp: heard_def answered_def read_of_def split: answer.splits)
  next
    case False
    let ?t2 = "(t0 @ s) @ [(IpcGet, env (t0 @ s) IpcGet)]"
    let ?t3 = "?t2 @ [(Now, env ?t2 Now)]"
    from False Suc.prems have "run_state (wait_rounds env deadline n)
        (?t3 @ [(Sleep pollEvery, env ?t3 (Sleep pollEvery))]) = (Some True, t')"
      by (auto simp: askNow_def split: if_splits)
    then show ?thesis using Suc.IH [of "s @ _ # _ # _ # []"] by simp
  qed
qed simp

lemma waitServer_heard: "gives (extends t0) (waitServer env fuel) (heard t0)"
proof -
  have "heard t0 t'" if "run_state (wait_rounds env d fuel) (t0 @ s @ [e]) = (Some True, t')" for s e d t'
    using wait_rounds_heard [of env d fuel t0 "s @ [e]"] that by simp
  then show ?thesis
    by (auto simp: gives_def triple_def extends_def waitServer_def askNow_def
        split: prod.split sum.splits option.splits bool.splits)
qed

section \<open>Bringing up\<close>

lemma held_quiet:
  assumes "held m0 st net t" and "\<And>m. effect (c, a) m = m" and "\<And>o'. open_step (c, a) o' = o'"
  shows "held m0 st net (t @ [(c, a)])"
  using assms by (simp add: held_def)

lemma complete_quiet:
  assumes "complete m0 st net t" and "\<And>m. effect (c, a) m = m"
  shows "complete m0 st net (t @ [(c, a)])"
  using assms by (simp add: complete_def)

lemma Apply_held:
  assumes "records st m0" and "NetDNS net \<noteq> []"
  shows "triple (held m0 st net) (Apply env st net)
    (on_result (held m0 st net) (\<lambda>_ t. held m0 st net t \<and> complete m0 st net t))"
proof (rule gives_on_result)
  show "keeps (held m0 st net) (Apply env st net)"
    unfolding held_def by (rule keeps_conj [OF Apply_taken [OF assms(1)] Apply_opened])
  show "gives (held m0 st net) (Apply env st net) (complete m0 st net)"
    unfolding complete_def
    by (rule gives_both [OF Apply_gives_routes
          gives_weaken [OF Apply_gives_DNS [OF assms]]]) (simp_all add: held_def)
qed

text \<open>Up: everything is taken over, the device is open, and the server answered since \<open>t0\<close>.\<close>

definition running :: "machine \<Rightarrow> trace \<Rightarrow> State \<Rightarrow> Network \<Rightarrow> trace \<Rightarrow> bool" where
  "running m0 t0 st net t \<longleftrightarrow> held m0 st net t \<and> complete m0 st net t \<and> heard t0 t"

lemma running_quiet:
  "running m0 t0 st net t \<Longrightarrow> (\<And>m. effect (c, a) m = m) \<Longrightarrow> (\<And>o'. open_step (c, a) o' = o') \<Longrightarrow>
   running m0 t0 st net (t @ [(c, a)])"
  by (simp add: running_def held_quiet complete_quiet heard_snoc)

lemma waitServer_running:
  "triple (\<lambda>t. (held m0 st net t \<and> complete m0 st net t) \<and> extends t0 t) (waitServer env fuel)
     (on_result (held m0 st net) (\<lambda>_. running m0 t0 st net))"
proof -
  let ?I = "\<lambda>t. (held m0 st net t \<and> complete m0 st net t) \<and> extends t0 t"
  have "keeps ?I (waitServer env fuel)"
    by (rule keeps_waitServer) (auto intro: held_quiet complete_quiet)
  moreover have "gives ?I (waitServer env fuel) (heard t0)"
    by (rule gives_weaken [OF waitServer_heard [of t0]]) auto
  ultimately have "triple ?I (waitServer env fuel) (on_result ?I (\<lambda>_ t. ?I t \<and> heard t0 t))"
    by (rule gives_on_result)
  then show ?thesis by (rule triple_weaken) (auto simp: running_def split: sum.splits)
qed

text \<open>A step with its condition for errors, next to a condition every step keeps.\<close>

lemma triple_with:
  assumes "triple P m (on_result E R)" and "keeps J m"
  shows "triple (\<lambda>t. P t \<and> J t) m (on_result E (\<lambda>a t. R a t \<and> J t))"
  unfolding triple_def
proof (intro allI impI)
  fix t assume t: "P t \<and> J t"
  obtain r t' where run: "run_state m t = (r, t')" by fastforce
  then have "on_result E R r t'" "J t'"
    using assms(1) keepsD [OF assms(2), of t] t by (auto simp: triple_def)
  then show "case run_state m t of (a, t') \<Rightarrow> on_result E (\<lambda>a t. R a t \<and> J t) a t'"
    using run by (cases r) simp_all
qed

definition brought_up :: "machine \<Rightarrow> trace \<Rightarrow> State \<Rightarrow> Config \<Rightarrow> Controller \<Rightarrow> trace \<Rightarrow> bool" where
  "brought_up m0 t0 st cfg c t \<longleftrightarrow>
     device c \<and> saved c = Some st \<and> meter c = Some Rtt.New \<and>
     (\<exists>now. status c = startedStatus cfg (Interface (network c)) now) \<and>
     (\<exists>name host. network c = networkOf cfg name host) \<and>
     running m0 t0 st (network c) t"

lemma bringUp_post:
  assumes ok: "cooperative m0 env" and rec: "records st m0"
  shows "triple (\<lambda>t. calm m0 nothing_open t \<and> extends t0 t) (bringUp env fuel cfg host st)
    (on_result (calm m0 nothing_open) (brought_up m0 t0 st cfg))"
proof -
  let ?net = "\<lambda>name. networkOf cfg name host"
  have dns: "NetDNS (?net name) \<noteq> []" for name by (simp add: networkOf_def)
  have ext: "keeps (extends t0) (openTUN env mtu)" "keeps (extends t0) (orClose env (liftF m))"
    if "keeps (extends t0) m" for mtu and m :: "(failure + string) io"
    using that
    by (auto simp: openTUN_def orClose_def intro!: keeps_andThen keeps_inContext keeps_attempt keeps_bind
        keeps_ask keeps_ret keeps_liftF split: sum.split)
  have ipc: "keeps (extends t0) (inContext what (attempt env c))" for what c
    by (intro keeps_inContext keeps_attempt) simp
  have last: "triple (running m0 t0 st (?net name)) (do {
         now \<leftarrow> askNow env;
         ret (Inr \<lparr>device = True, saved = Some st, network = ?net name,
                   status = startedStatus cfg name now, meter = Some Rtt.New\<rparr>)
       }) (on_result (calm m0 nothing_open) (brought_up m0 t0 st cfg))" for name
    by (auto simp: triple_def askNow_def brought_up_def networkOf_def intro!: running_quiet)
  have applied: "triple (\<lambda>t. calm m0 all_open t \<and> extends t0 t) (orRestore env st (?net name) (liftF (Apply env st (?net name))))
      (on_result (calm m0 nothing_open)
        (\<lambda>_ t. (held m0 st (?net name) t \<and> complete m0 st (?net name) t) \<and> extends t0 t))" for name
    by (rule triple_orRestore [OF ok rec], rule triple_liftF,
        rule triple_weaken [OF triple_with [OF Apply_held [OF rec dns] Apply_extends]])
      (auto intro: calm_held split: sum.splits)
  note wait = triple_orRestore [OF ok rec waitServer_running]
  note one = triple_with [OF triple_orClose [OF device_calm(1)] ext(2) [OF ipc]]
    and two = triple_with [OF triple_orClose [OF device_calm(2)] ext(2) [OF ipc]]
  have new: "triple (\<lambda>t. calm m0 (True, False) t \<and> extends t0 t) (ask env NewDevice)
      (\<lambda>_ t. calm m0 all_open t \<and> extends t0 t)"
    by (auto simp: triple_def calm_def)
  show ?thesis
    unfolding bringUp_def Let_def
    by (rule triple_steps [OF triple_liftF [OF triple_with [OF openTUN_calm ext(1) [OF ipc]]]],
        rule triple_bind [OF new], rule triple_steps [OF one], rule triple_steps [OF two],
        rule triple_steps [OF applied], rule triple_steps [OF wait], rule last)
qed

end
