(* ===== verification/Systunnel_Wait.thy ===== *)
theory Systunnel_Wait
  imports Systunnel
begin

text \<open>
  The controller's waiting for its server and the address it pins: the waiting ends, it is
  \<^verbatim>\<open>handshake.Wait\<close>, and the address is one a route can be pinned to.
\<close>

section \<open>Time passes\<close>

text \<open>How long a trace has slept, and a clock that is never behind that.\<close>

definition slept :: "trace \<Rightarrow> duration" where
  "slept t = sum_list (map (\<lambda>(c, a). case c of Sleep d \<Rightarrow> d | _ \<Rightarrow> 0) t)"

lemma slept_simps [simp]:
  "slept [] = 0" "slept (t @ u) = slept t + slept u"
  "slept [(Sleep d, a)] = d" "slept [(IpcGet, a)] = 0" "slept [(Now, a)] = 0"
  by (simp_all add: slept_def)

definition ticking :: "environment \<Rightarrow> bool" where
  "ticking env \<longleftrightarrow>
     (\<forall>t. \<exists>j. env t Now = Clock j) \<and>
     (\<forall>u i v. \<exists>j. env (u @ (Now, Clock i) # v) Now = Clock j \<and> i + slept v \<le> j)"

lemma wait_rounds_ends:
  assumes "ticking env" and "deadline < i + slept v + int n * pollEvery"
  shows "fst (run_state (wait_rounds env deadline (Suc n)) (u @ (Now, Clock i) # v)) \<noteq> None"
  using assms(2)
proof (induction n arbitrary: v)
  case 0
  let ?t = "u @ (Now, Clock i) # v"
  let ?t1 = "u @ (Now, Clock i) # v @ [(IpcGet, env ?t IpcGet)]"
  obtain j where "env ?t1 Now = Clock j" "i + slept (v @ [(IpcGet, env ?t IpcGet)]) \<le> j"
    using assms(1) unfolding ticking_def by blast
  with 0 show ?case by (auto simp: askNow_def clock_of_def)
next
  case (Suc n)
  let ?t = "u @ (Now, Clock i) # v"
  let ?t1 = "u @ (Now, Clock i) # v @ [(IpcGet, env ?t IpcGet)]"
  obtain j where j: "env ?t1 Now = Clock j" using assms(1) unfolding ticking_def by blast
  let ?t2 = "?t1 @ [(Now, Clock j)]"
  let ?v = "v @ [(IpcGet, env ?t IpcGet), (Now, Clock j), (Sleep pollEvery, env ?t2 (Sleep pollEvery))]"
  have "slept ?v = slept v + pollEvery" by (simp add: slept_def)
  then have "deadline < i + slept ?v + int n * pollEvery"
    using Suc.prems by (simp add: algebra_simps)
  from Suc.IH [OF this] j show ?case
    by (subst wait_rounds.simps) (auto simp: askNow_def clock_of_def simp del: wait_rounds.simps)
qed

text \<open>Fifty-two rounds are enough for ten seconds.\<close>

lemma rounds_timeout: "rounds HandshakeTimeout = 51"
  by (simp add: rounds_def HandshakeTimeout_def pollEvery_def seconds_def milliseconds_def)

lemma enough_rounds: "HandshakeTimeout < int 51 * pollEvery"
  by (simp add: HandshakeTimeout_def pollEvery_def seconds_def milliseconds_def)

lemma waitServer_returns:
  assumes "ticking env" and "52 \<le> fuel"
  shows "fst (run_state (waitServer env fuel) t) \<noteq> Inl WaitOutOfFuel"
proof -
  obtain i where i: "env t Now = Clock i" using assms(1) unfolding ticking_def by blast
  obtain n where n: "fuel = Suc n" "51 \<le> n" using assms(2) by (cases fuel) auto
  have "int 51 * pollEvery \<le> int n * pollEvery"
    using n(2) by (intro mult_right_mono) (simp_all add: pollEvery_def milliseconds_def)
  then have "i + HandshakeTimeout < i + slept [] + int n * pollEvery"
    using enough_rounds by simp
  from wait_rounds_ends [OF assms(1) this, of t]
  have "fst (run_state (wait_rounds env (i + HandshakeTimeout) fuel) (t @ [(Now, Clock i)])) \<noteq> None"
    unfolding n(1) .
  then show ?thesis
    using i by (auto simp: waitServer_def askNow_def clock_of_def split: prod.split option.split bool.split)
qed

section \<open>The loop is \<^verbatim>\<open>handshake.Wait\<close>\<close>

text \<open>What the calls of round after round see, when no round ends the loop.\<close>

definition round_trace :: "environment \<Rightarrow> trace \<Rightarrow> trace" where
  "round_trace env t =
     (let t1 = t @ [(IpcGet, env t IpcGet)]; t2 = t1 @ [(Now, env t1 Now)]
      in t2 @ [(Sleep pollEvery, env t2 (Sleep pollEvery))])"

definition reads :: "environment \<Rightarrow> trace \<Rightarrow> nat \<Rightarrow> string option" where
  "reads env t i = read_of (env ((round_trace env ^^ i) t) IpcGet)"

definition clocks :: "environment \<Rightarrow> trace \<Rightarrow> nat \<Rightarrow> instant" where
  "clocks env t i =
     (let u = (round_trace env ^^ i) t in clock_of (env (u @ [(IpcGet, env u IpcGet)]) Now))"

lemma wait_rounds_Wait:
  assumes "run_state (wait_rounds env deadline n) ((round_trace env ^^ i) t) = (Some b, t')"
  shows "wait_loop (reads env t) (clocks env t) deadline i = Some b"
  using assms
proof (induction n arbitrary: i)
  case (Suc n)
  let ?u = "(round_trace env ^^ i) t"
  let ?u1 = "?u @ [(IpcGet, env ?u IpcGet)]"
  consider (yes) "answered (reads env t i)" | (late) "\<not> answered (reads env t i)" "clocks env t i > deadline"
    | (again) "\<not> answered (reads env t i)" "\<not> clocks env t i > deadline" by blast
  then show ?case
  proof cases
    case yes
    with Suc.prems show ?thesis
      by (subst wait_loop.simps) (simp add: reads_def)
  next
    case late
    with Suc.prems show ?thesis
      by (subst wait_loop.simps) (simp add: reads_def clocks_def Let_def askNow_def)
  next
    case again
    have "(round_trace env ^^ Suc i) t =
        (?u1 @ [(Now, env ?u1 Now)]) @ [(Sleep pollEvery, env (?u1 @ [(Now, env ?u1 Now)]) (Sleep pollEvery))]"
      by (simp add: round_trace_def Let_def)
    with again Suc.prems have "run_state (wait_rounds env deadline n) ((round_trace env ^^ Suc i) t) = (Some b, t')"
      by (simp add: reads_def clocks_def Let_def askNow_def)
    from Suc.IH [OF this] again show ?thesis
      by (subst wait_loop.simps) simp
  qed
qed simp

text \<open>
  Waiting for the server ends, and is \<^verbatim>\<open>handshake.Wait\<close>.  With a clock that keeps up with the
  sleeping, fifty-two rounds decide, so the controller always returns from waiting; and what it
  decides is what \<^verbatim>\<open>Wait\<close> decides for the dumps and the times those rounds see.
\<close>

theorem waitServer_is_Wait:
  assumes "ticking env" and "52 \<le> fuel" and "env t Now = Clock i"
    and "t1 = t @ [(Now, Clock i)]"
  shows "\<exists>b. fst (run_state (waitServer env fuel) t) = (if b then Inr () else Inl NoAnswer) \<and>
    Wait (reads env t1) (clocks env t1) i HandshakeTimeout = Some b"
proof -
  obtain r t' where run: "run_state (wait_rounds env (i + HandshakeTimeout) fuel) t1 = (r, t')" by fastforce
  have w: "fst (run_state (waitServer env fuel) t) =
      (case r of None \<Rightarrow> Inl WaitOutOfFuel | Some True \<Rightarrow> Inr () | Some False \<Rightarrow> Inl NoAnswer)"
    using assms(3,4) run by (simp add: waitServer_def askNow_def clock_of_def)
  then obtain b where b: "r = Some b"
    using waitServer_returns [OF assms(1,2), of t] by (cases r) auto
  have "wait_loop (reads env t1) (clocks env t1) (i + HandshakeTimeout) 0 = Some b"
    by (rule wait_rounds_Wait [where n = fuel]) (use run b in simp)
  with w b show ?thesis by (intro exI [of _ b]) (cases b; simp add: Wait_def)
qed

text \<open>A clock that shows how long the trace has slept, and a server that does not answer.\<close>

definition tick :: "trace \<Rightarrow> instant" where
  "tick t = fold (\<lambda>(c, a) now. case c of
      Sleep d \<Rightarrow> now + d
    | Now \<Rightarrow> (case a of Clock i \<Rightarrow> max now i | _ \<Rightarrow> now)
    | _ \<Rightarrow> now) t 0"

lemma tick_from:
  "now + slept v \<le> fold (\<lambda>(c, a) now. case c of
      Sleep d \<Rightarrow> now + d
    | Now \<Rightarrow> (case a of Clock i \<Rightarrow> max now i | _ \<Rightarrow> now)
    | _ \<Rightarrow> now) v now"
proof (induction v arbitrary: now)
  case (Cons e v)
  obtain c a where e: "e = (c, a)" by fastforce
  let ?now = "case c of Sleep d \<Rightarrow> now + d
    | Now \<Rightarrow> (case a of Clock i \<Rightarrow> max now i | _ \<Rightarrow> now) | _ \<Rightarrow> now"
  have "now + slept [e] \<le> ?now"
    by (cases c; cases a) (simp_all add: e slept_def)
  moreover have "slept (e # v) = slept [e] + slept v" by (simp add: slept_def)
  ultimately have "now + slept (e # v) \<le> ?now + slept v" by simp
  with Cons.IH [of ?now] show ?case by (simp add: e)
qed simp

lemma tick_after: "i + slept v \<le> tick (u @ (Now, Clock i) # v)"
  using tick_from [of "max (tick u) i" v] by (simp add: tick_def)

definition silent_environment :: environment where
  "silent_environment t c = (case c of Now \<Rightarrow> Clock (tick t) | _ \<Rightarrow> Done [])"

lemma silent_ticking: "ticking silent_environment"
  by (simp add: ticking_def silent_environment_def tick_after)

theorem waitServer_is_Wait_witness:
  "\<exists>b. fst (run_state (waitServer silent_environment 52) []) = (if b then Inr () else Inl NoAnswer) \<and>
    Wait (reads silent_environment [(Now, Clock 0)]) (clocks silent_environment [(Now, Clock 0)])
      0 HandshakeTimeout = Some b"
  by (rule waitServer_is_Wait [OF silent_ticking]) (simp_all add: silent_environment_def tick_def)

section \<open>The address\<close>

lemma takeWhile_until: "c \<notin> set a \<Longrightarrow> takeWhile (\<lambda>x. x \<noteq> c) (a @ c # b) = a"
  by (induction a) auto

lemma last_colon_append:
  assumes "CHR '':'' \<notin> set p"
  shows "last_colon (h @ CHR '':'' # p) = Some (length h)"
proof -
  have "takeWhile (\<lambda>c. c \<noteq> CHR '':'') (rev (h @ CHR '':'' # p)) = rev p"
    using takeWhile_until [of "CHR '':''" "rev p" "rev h"] assms by simp
  then show ?thesis by (simp add: last_colon_def)
qed

lemma Itoa_no_colon: "CHR '':'' \<notin> set (Itoa i)" "CHR ''['' \<notin> set (Itoa i)" "CHR '']'' \<notin> set (Itoa i)"
  using Itoa_chars by (force simp: is_digit_def code_def)+

text \<open>
  Host and port survive.  What \<^verbatim>\<open>joinHostPort\<close> writes for a host without brackets and a port,
  \<^verbatim>\<open>SplitHostPort\<close> reads back, a host with colons in it included; so the server of a subscription
  is the host the controller resolves.
\<close>

theorem SplitHostPort_joinHostPort:
  assumes "CHR ''['' \<notin> set host" and "CHR '']'' \<notin> set host"
  shows "SplitHostPort (joinHostPort host port) = Some (host, Itoa port)"
proof (cases "CHR '':'' \<in> set host")
  case True
  have "Contains host '':''"
    using True by (auto simp: Contains_iff dest: split_list)
  moreover have "\<not> HasPrefix host ''[''"
    using assms(1) by (cases host) (auto simp: HasPrefix_Cons)
  ultimately have j: "joinHostPort host port = (''['' @ host @ '']'') @ CHR '':'' # Itoa port"
    by (simp add: joinHostPort_def)
  have tw: "takeWhile (\<lambda>c. c \<noteq> CHR '']'') (''['' @ host @ '']'' @ CHR '':'' # Itoa port) = ''['' @ host"
    using takeWhile_until [of "CHR '']''" "''['' @ host"] assms(2) by simp
  show ?thesis
    unfolding SplitHostPort_def j last_colon_append [OF Itoa_no_colon(1)]
    using assms Itoa_no_colon(2,3) tw by (simp add: HasPrefix_Cons Let_def)
next
  case False
  have "\<not> Contains host '':''"
    using False by (auto simp: Contains_iff)
  then have j: "joinHostPort host port = host @ CHR '':'' # Itoa port"
    by (simp add: joinHostPort_def)
  have "\<not> HasPrefix (host @ CHR '':'' # Itoa port) ''[''"
    using assms(1) by (cases host) (auto simp: HasPrefix_Cons)
  then show ?thesis
    unfolding SplitHostPort_def j last_colon_append [OF Itoa_no_colon(1)]
    using assms Itoa_no_colon(2,3) False by simp
qed

theorem SplitHostPort_joinHostPort_witness:
  "SplitHostPort (joinHostPort ''2001:db8::1'' 51820) = Some (''2001:db8::1'', Itoa 51820)"
  by (rule SplitHostPort_joinHostPort) simp_all

text \<open>
  The address to pin.  When \<^verbatim>\<open>EndpointAddress\<close> succeeds, the endpoint was host and port, and
  the address is either the host itself, which is then an address and nothing was looked up, or the
  first IPv4 address the resolver gave for it; when it fails on a name, the resolver gave no IPv4
  address.
\<close>

theorem EndpointAddress_pins:
  assumes "run_state (EndpointAddress env endpoint) t = (r, t')"
  shows "(\<forall>a. r = Inr a \<longrightarrow> (\<exists>host port. SplitHostPort endpoint = Some (host, port) \<and>
      (ParseIP host \<noteq> None \<and> a = host \<and> t' = t \<or>
       ParseIP host = None \<and> is_To4 a \<and>
         (\<exists>before after. t' = t @ [(LookupHost host, Hosts (before @ a # after))] \<and>
            list_all (\<lambda>b. \<not> is_To4 b) before)))) \<and>
    (\<forall>e addrs host port. r = Inl e \<and> SplitHostPort endpoint = Some (host, port) \<and> endpoint \<noteq> [] \<and>
       env t (LookupHost host) = Hosts addrs \<longrightarrow> ParseIP host = None \<and> list_all (\<lambda>b. \<not> is_To4 b) addrs)"
proof -
  have first: "\<exists>before after. addrs = before @ a # after \<and> (\<forall>b \<in> set before. \<not> is_To4 b) \<and> is_To4 a"
    if "find is_To4 addrs = Some a" for addrs a
  proof -
    obtain i where i: "i < length addrs" "is_To4 (addrs ! i)" "a = addrs ! i" "\<forall>j<i. \<not> is_To4 (addrs ! j)"
      using \<open>find is_To4 addrs = Some a\<close> by (auto simp: find_Some_iff)
    then show ?thesis
      by (intro exI [of _ "take i addrs"] exI [of _ "drop (Suc i) addrs"])
        (auto simp: in_set_conv_nth simp flip: id_take_nth_drop)
  qed
  show ?thesis
    using assms
    by (auto simp: EndpointAddress_def find_None_iff list_all_iff split: if_splits option.splits answer.splits
        dest!: first) blast
qed

theorem EndpointAddress_pins_witness:
  "\<exists>host port. SplitHostPort ''[2001:db8::1]:51820'' = Some (host, port) \<and> host = ''2001:db8::1''"
proof -
  have "run_state (EndpointAddress silent_environment ''[2001:db8::1]:51820'') [] = (Inr ''2001:db8::1'', [])"
    by (simp add: EndpointAddress_def) code_simp
  then show ?thesis using EndpointAddress_pins by fastforce
qed

end
