(* ===== verification/Systunnel_Properties.thy ===== *)
theory Systunnel_Properties
  imports Systunnel_Machine Systunnel_Wait Awg_Properties
begin

text \<open>
  The properties of the controller: an operation leaves the tunnel up and complete or leaves
  nothing, in any sequence of operations; waiting for the server ends; and what the status says.
\<close>

section \<open>Up and down\<close>

definition up :: "machine \<Rightarrow> Controller \<Rightarrow> trace \<Rightarrow> bool" where
  "up m0 c t \<longleftrightarrow>
     device c \<and> StUp (status c) \<and>
     (\<exists>st. saved c = Some st \<and> records st m0 \<and> held m0 st (network c) t \<and> complete m0 st (network c) t)"

definition down :: "machine \<Rightarrow> Controller \<Rightarrow> trace \<Rightarrow> bool" where
  "down m0 c t \<longleftrightarrow> \<not> device c \<and> status c = zero_Status \<and> calm m0 nothing_open t"

lemma zero_Status_down [simp]: "\<not> StUp zero_Status"
  by (simp add: zero_Status_def)

lemma Restore_extends: "keeps (extends t0) (Restore env st cfg)"
proof -
  have "keeps (extends t0) (restoreDNS env st cfg)"
    unfolding restoreDNS_def removeIfPresent_def
    by (cases "PreviousResolvConf st"; simp only: option.case;
        intro keeps_if keeps_andThen keeps_bind keeps_ret keeps_attempt keeps_runs) simp_all
  then show ?thesis
    unfolding Restore_def attempt_command_def Let_def
    by (intro keeps_bind keeps_foldIO keeps_run keeps_ret) simp_all
qed

lemma stopLocked_extends: "keeps (extends t0) (stopLocked env c)"
  unfolding stopLocked_def
  by (auto intro!: keeps_if keeps_bind keeps_ret keeps_ask Restore_extends split: option.split)

lemma stopLocked_down:
  assumes "cooperative m0 env"
  shows "triple (\<lambda>t. up m0 c t \<or> down m0 c t) (stopLocked env c) (\<lambda>r. down m0 (snd r))"
proof (cases "device c")
  case False
  then show ?thesis by (auto simp: triple_def stopLocked_def up_def)
next
  case True
  show ?thesis
    unfolding triple_def
  proof (intro allI impI)
    fix t assume "up m0 c t \<or> down m0 c t"
    with True obtain st where st: "saved c = Some st" "records st m0" "held m0 st (network c) t"
      by (auto simp: up_def down_def)
    obtain r t1 where run: "run_state (Restore env st (network c)) t = (r, t1)" by fastforce
    have "calm m0 all_open t1"
      by (rule tripleD [OF Restore_held [OF assms st(2)] st(3) run])
    then have "down m0 (c\<lparr>device := False, meter := None, saved := None, status := zero_Status\<rparr>)
        (t1 @ [(DeviceClose, env t1 DeviceClose)])"
      by (simp add: down_def calm_def)
    then show "case run_state (stopLocked env c) t of (r, t') \<Rightarrow> down m0 (snd r) t'"
      using True st(1) run by (simp add: stopLocked_def)
  qed
qed

lemma Snapshot_calm_records:
  assumes "cooperative m0 env"
  shows "triple (calm m0 opn) (Snapshot env) (on_result (calm m0 opn) (\<lambda>st t. calm m0 opn t \<and> records st m0))"
  unfolding triple_def
proof (intro allI impI)
  fix t assume t: "calm m0 opn t"
  obtain r t' where run: "run_state (Snapshot env) t = (r, t')" by fastforce
  have "calm m0 opn t'" using keepsD [OF Snapshot_calm t, of env] run by simp
  moreover have "records st m0" if "r = Inr st" for st
    using Snapshot_records [OF run [unfolded that], of m0] assms t
    by (simp add: cooperative_def pristine_def calm_def)
  ultimately show "case run_state (Snapshot env) t of (r, t') \<Rightarrow>
      on_result (calm m0 opn) (\<lambda>st t. calm m0 opn t \<and> records st m0) r t'"
    using run by (cases r) simp_all
qed

lemma EndpointAddress_extends: "keeps (extends t0) (EndpointAddress env ep)"
  unfolding EndpointAddress_def
  by (auto intro!: keeps_if keeps_ret keeps_bind keeps_ask split: option.split)

lemma Snapshot_extends: "keeps (extends t0) (Snapshot env)"
proof -
  have "keeps (extends t0) (resolvedIsAnswering env)"
    unfolding resolvedIsAnswering_def
    by (intro keeps_bind keeps_attempt) (auto intro!: keeps_bind keeps_run keeps_ret split: sum.split)
  then show ?thesis
    unfolding Snapshot_def snapshotResolv_def Let_def
    by (intro keeps_andThen keeps_inContext keeps_run)
      (auto intro!: keeps_if keeps_bind keeps_ret keeps_attempt split: prod.split)
qed

text \<open>What a started controller is, from when nothing was up.\<close>

definition started :: "machine \<Rightarrow> trace \<Rightarrow> string \<Rightarrow> Controller \<Rightarrow> trace \<Rightarrow> bool" where
  "started m0 t0 txt c t \<longleftrightarrow>
     (\<exists>st cfg. Awg_Endpoint.Parse txt = Inr cfg \<and> records st m0 \<and> brought_up m0 t0 st cfg c t)"

lemma startFresh_post:
  assumes "cooperative m0 env"
  shows "triple (\<lambda>t. calm m0 nothing_open t \<and> extends t0 t) (startFresh env fuel txt)
    (on_result (calm m0 nothing_open) (started m0 t0 txt))"
proof (cases "Awg_Endpoint.Parse txt")
  case (Inl e)
  then show ?thesis by (simp add: startFresh_def triple_def)
next
  case (Inr cfg)
  have address: "triple (\<lambda>t. calm m0 nothing_open t \<and> extends t0 t) (liftF (EndpointAddress env ep))
      (on_result (calm m0 nothing_open) (\<lambda>_ t. calm m0 nothing_open t \<and> extends t0 t))" for ep
    by (rule triple_with [OF keeps_on_result]) (intro keeps_liftF EndpointAddress_calm EndpointAddress_extends)+
  note snapshot = triple_liftF [OF triple_with [OF Snapshot_calm_records [OF assms] Snapshot_extends]]
  have bring: "triple (\<lambda>t. (calm m0 nothing_open t \<and> records st m0) \<and> extends t0 t)
      (bringUp env fuel cfg host st) (on_result (calm m0 nothing_open) (started m0 t0 txt))" for st host
  proof (cases "records st m0")
    case True
    have "triple (\<lambda>t. calm m0 nothing_open t \<and> extends t0 t) (bringUp env fuel cfg host st)
        (on_result (calm m0 nothing_open) (started m0 t0 txt))"
      by (rule triple_weaken [OF bringUp_post [OF assms True]])
        (use Inr True in \<open>auto simp: started_def split: sum.splits\<close>)
    then show ?thesis by (rule triple_weaken) auto
  qed (simp add: triple_def)
  show ?thesis
    unfolding startFresh_def Inr sum.case
    by (rule triple_steps [OF address], rule triple_steps [OF snapshot], rule bring)
qed

lemma started_up: "started m0 t0 txt c t \<Longrightarrow> up m0 c t \<and> heard t0 t"
  by (auto simp: started_def brought_up_def running_def up_def startedStatus_def)

lemma Start_post:
  assumes "cooperative m0 env" and "up m0 c t \<or> down m0 c t"
    and "run_state (Start env fuel txt c) t = ((r, c'), t')"
  shows "case r of Inl e \<Rightarrow> down m0 c' t' | Inr s \<Rightarrow> started m0 t txt c' t' \<and> s = status c'"
proof -
  obtain x t1 where stop: "run_state (if device c then stopLocked env c else ret (Inr (), c)) t = (x, t1)"
    by fastforce
  have stopped: "down m0 (snd x) t1 \<and> extends t t1"
  proof (cases "device c")
    case True
    with stop have run: "run_state (stopLocked env c) t = (x, t1)" by simp
    have "down m0 (snd x) t1"
      using tripleD [OF stopLocked_down [OF assms(1)] assms(2) run] .
    then show ?thesis using keepsD [OF stopLocked_extends, of t t env c] run by simp
  next
    case False
    with stop assms(2) show ?thesis by (auto simp: up_def)
  qed
  obtain r' t2 where fresh: "run_state (startFresh env fuel txt) t1 = (r', t2)" by fastforce
  have post: "on_result (calm m0 nothing_open) (started m0 t txt) r' t2"
    using tripleD [OF startFresh_post [OF assms(1)] _ fresh, of t] stopped by (simp add: down_def)
  have "((r, c'), t') = (case r' of Inl e \<Rightarrow> ((Inl e, snd x), t2) | Inr c' \<Rightarrow> ((Inr (status c'), c'), t2))"
    using assms(3) stop fresh by (auto simp: Start_def split: sum.split)
  then show ?thesis
    using post stopped by (auto simp: down_def split: sum.splits)
qed

section \<open>Sequences of operations\<close>

text \<open>
  A run of the service: the controller and the trace, from nothing on, through operations in any
  order, with packets shown to the meter in between.
\<close>

inductive session :: "environment \<Rightarrow> Controller \<Rightarrow> trace \<Rightarrow> bool" for env where
  begun: "session env NewController []"
| start: "session env c t \<Longrightarrow> run_state (Start env fuel txt c) t = ((r, c'), t') \<Longrightarrow> session env c' t'"
| stop: "session env c t \<Longrightarrow> run_state (Stop env c) t = ((r, c'), t') \<Longrightarrow> session env c' t'"
| status: "session env c t \<Longrightarrow> run_state (ControllerStatus env c) t = ((s, c'), t') \<Longrightarrow> session env c' t'"
| packet: "session env c t \<Longrightarrow> meter c = Some m \<Longrightarrow> Outbound now p m = Some m' \<or> Inbound now p m = Some m' \<Longrightarrow>
    session env (c\<lparr>meter := Some m'\<rparr>) t"

lemma up_quiet:
  "up m0 c t \<Longrightarrow> (\<And>m. effect (d, a) m = m) \<Longrightarrow> (\<And>o'. open_step (d, a) o' = o') \<Longrightarrow> up m0 c (t @ [(d, a)])"
  using held_quiet complete_quiet by (fastforce simp: up_def)

lemma down_quiet:
  "down m0 c t \<Longrightarrow> (\<And>m. effect (d, a) m = m) \<Longrightarrow> (\<And>o'. open_step (d, a) o' = o') \<Longrightarrow> down m0 c (t @ [(d, a)])"
  by (simp add: down_def calm_quiet)

lemma meter_irrelevant [simp]:
  "up m0 (c\<lparr>meter := mo\<rparr>) t \<longleftrightarrow> up m0 c t" "down m0 (c\<lparr>meter := mo\<rparr>) t \<longleftrightarrow> down m0 c t"
  by (simp_all add: up_def down_def)

lemma meterNow_keeps: "(\<And>t a. I t \<Longrightarrow> I (t @ [(Now, a)])) \<Longrightarrow> keeps I (meterNow env mo)"
  unfolding meterNow_def by (auto intro!: keeps_askNow keeps_if keeps_ret split: option.split)

text \<open>Asking for the status changes no more than the meter.\<close>

lemma status_controller:
  assumes "run_state (ControllerStatus env c) t = ((s, c'), t')"
  shows "\<exists>mo. c' = c\<lparr>meter := mo\<rparr>"
proof (cases "StUp (status c)")
  case True
  with assms show ?thesis
    by (auto simp: ControllerStatus_def Let_def split: if_splits prod.splits)
next
  case False
  with assms show ?thesis
    by (intro exI [of _ "meter c"]) (simp add: ControllerStatus_def)
qed

lemma status_keeps:
  assumes "\<And>t d a. I t \<Longrightarrow> d \<in> {IpcGet, Now} \<Longrightarrow> I (t @ [(d, a)])"
  shows "keeps I (ControllerStatus env c)"
  unfolding ControllerStatus_def Let_def
  by (auto intro!: keeps_if keeps_bind keeps_ret keeps_attempt meterNow_keeps assms split: prod.split)

lemma status_up_down:
  assumes "run_state (ControllerStatus env c) t = ((s, c'), t')"
  shows "up m0 c t \<Longrightarrow> up m0 c' t'" "down m0 c t \<Longrightarrow> down m0 c' t'"
proof -
  obtain mo where c': "c' = c\<lparr>meter := mo\<rparr>" using status_controller [OF assms] by blast
  have "keeps (up m0 c) (ControllerStatus env c)" "keeps (down m0 c) (ControllerStatus env c)"
    by (rule status_keeps; auto intro: up_quiet down_quiet)+
  note k = this
  have "up m0 c t \<Longrightarrow> up m0 c t'" "down m0 c t \<Longrightarrow> down m0 c t'"
    using keepsD [OF k(1), of t] keepsD [OF k(2), of t] assms by simp_all
  then show "up m0 c t \<Longrightarrow> up m0 c' t'" "down m0 c t \<Longrightarrow> down m0 c' t'"
    unfolding c' by simp_all
qed

lemma session_up_or_down:
  assumes "session env c t" and "cooperative m0 env"
  shows "up m0 c t \<or> down m0 c t"
  using assms(1)
proof (induction rule: session.induct)
  case begun
  show ?case by (simp add: down_def NewController_def calm_def)
next
  case (start c t fuel cf r c' t')
  show ?case
    using Start_post [OF assms(2) start.IH start.hyps(2)] started_up
    by (cases r) auto
next
  case (stop c t r c' t')
  then show ?case
    using tripleD [OF stopLocked_down [OF assms(2)] stop.IH] by (auto simp: Stop_def)
next
  case (status c t s c' t')
  then show ?case using status_up_down by blast
next
  case (packet c t m now p m')
  then show ?case by simp
qed

text \<open>The status a started tunnel has, when it was started at \<open>now\<close>.\<close>

lemma started_facts:
  assumes "started m0 t0 txt c t"
  shows "heard t0 t \<and> opened t = all_open \<and> device c \<and>
    (\<exists>st cfg now. Awg_Endpoint.Parse txt = Inr cfg \<and> saved c = Some st \<and>
       status c = startedStatus cfg (Interface (network c)) now \<and>
       our_routes st (network c) \<subseteq> routes (machine_after m0 t) \<and>
       dns_taken st (network c) (machine_after m0 t))"
  using assms unfolding started_def brought_up_def running_def held_def complete_def by blast

text \<open>A machine that cooperates, and a server that answers.\<close>

definition served_environment :: environment where
  "served_environment t c =
     (case c of
        Now \<Rightarrow> Clock (tick t)
      | IpcGet \<Rightarrow> Done ''last_handshake_time_sec=1700000000''
      | LookupHost _ \<Rightarrow> Hosts [''192.0.2.1'']
      | TunName \<Rightarrow> Done ''caelo0''
      | _ \<Rightarrow> kind_environment t c)"

lemma sample_pristine: "pristine sample_machine"
proof -
  have "h @ ''/32'' \<noteq> ''default''" for h
  proof
    assume "h @ ''/32'' = ''default''"
    then have "last (h @ ''/32'') = last ''default''" by (rule arg_cong)
    then show False by simp
  qed
  then show ?thesis
    by (simp add: pristine_def sample_machine_def defaultHalves_def real_link_def)
qed

lemma served_cooperative: "cooperative sample_machine served_environment"
proof -
  have same: "served_environment t (Exec p xs) = kind_environment t (Exec p xs)"
    "served_environment t (RemoveFile f) = kind_environment t (RemoveFile f)"
    "served_environment t (WriteFile f x) = kind_environment t (WriteFile f x)"
    "served_environment t (Symlink l f) = kind_environment t (Symlink l f)"
    "served_environment t (Readlink f) = kind_environment t (Readlink f)"
    "served_environment t (ReadFile f) = kind_environment t (ReadFile f)" for t p xs f x l
    by (simp_all add: served_environment_def)
  have "honest sample_machine served_environment" "obliging sample_machine served_environment"
    using kind_honest kind_obliging unfolding honest_def obliging_def Let_def same by blast+
  then show ?thesis using sample_pristine by (simp add: cooperative_def)
qed

lemma sample_fresh:
  "startFresh env 52 sample_text =
     andThen (liftF (EndpointAddress env (Endpoint (peer sample_config)))) (\<lambda>endpointHost.
     andThen (liftF (Snapshot env)) (\<lambda>st.
     bringUp env 52 sample_config endpointHost st))"
proof -
  have "\<not> LooksLikeJSON sample_text" by code_simp
  then show ?thesis by (simp add: startFresh_def Awg_Endpoint.Parse_def sample_parses)
qed

text \<open>
  C8: All or nothing.  Whatever operations came before, in any order and with whatever commands
  failing, on a machine with nothing of ours to begin with: when \<^verbatim>\<open>Start\<close> fails, the machine is
  exactly what it was before any tunnel, the device and its interface are closed and the controller
  is empty; when it succeeds, the server has answered a handshake since, the device is open, the
  routes and the DNS point into the tunnel, and the status is that of the configuration given.
\<close>

theorem Start_all_or_nothing:
  assumes "session env c t" and "cooperative m0 env"
    and "run_state (Start env fuel txt c) t = ((r, c'), t')"
  shows "case r of
      Inl e \<Rightarrow> machine_after m0 t' = m0 \<and> opened t' = (False, False) \<and> \<not> device c' \<and> status c' = zero_Status
    | Inr s \<Rightarrow> s = status c' \<and> heard t t' \<and> opened t' = (True, True) \<and> device c' \<and>
        (\<exists>st cfg now. Awg_Endpoint.Parse txt = Inr cfg \<and> saved c' = Some st \<and>
           s = startedStatus cfg (Interface (network c')) now \<and>
           our_routes st (network c') \<subseteq> routes (machine_after m0 t') \<and>
           dns_taken st (network c') (machine_after m0 t'))"
proof (cases r)
  case (Inl e)
  then show ?thesis
    using Start_post [OF assms(2) session_up_or_down [OF assms(1,2)] assms(3)]
    by (simp add: down_def calm_def)
next
  case (Inr s)
  then have s: "started m0 t txt c' t'" "s = status c'"
    using Start_post [OF assms(2) session_up_or_down [OF assms(1,2)] assms(3)] by simp_all
  show ?thesis
    unfolding Inr sum.case s(2) using started_facts [OF s(1)] by blast
qed

theorem Start_all_or_nothing_witness:
  "\<exists>s c' t'. run_state (Start served_environment 52 sample_text NewController) [] = ((Inr s, c'), t') \<and>
     device c' \<and> opened t' = (True, True) \<and> heard [] t'"
proof -
  obtain r c' t' where run: "run_state (Start served_environment 52 sample_text NewController) [] = ((r, c'), t')"
    by (metis prod.exhaust)
  have "\<not> isl (fst (run_state (startFresh served_environment 52 sample_text) []))"
    unfolding sample_fresh by code_simp
  then obtain s where r: "r = Inr s"
    using run by (auto simp: Start_def NewController_def split: prod.splits sum.splits)
  show ?thesis
    using Start_all_or_nothing [OF session.begun served_cooperative run] run unfolding r by auto
qed

text \<open>
  C9: Stopping puts the machine back.  After \<^verbatim>\<open>Stop\<close>, at any point of any sequence of operations,
  the machine is exactly what it was before any tunnel, nothing is open, and the status is empty;
  and at every point of such a sequence a status that is not up means just that.
\<close>

theorem Stop_restores:
  assumes "session env c t" and "cooperative m0 env"
    and "run_state (Stop env c) t = ((r, c'), t')"
  shows "machine_after m0 t' = m0 \<and> opened t' = (False, False) \<and> \<not> device c' \<and> status c' = zero_Status \<and>
    (\<not> StUp (status c) \<longrightarrow> machine_after m0 t = m0 \<and> opened t = (False, False) \<and> t' = t \<and> r = Inr ())"
proof -
  have "down m0 c' t'"
    using tripleD [OF stopLocked_down [OF assms(2)] session_up_or_down [OF assms(1,2)]] assms(3)
    by (simp add: Stop_def)
  moreover have "down m0 c t \<and> t' = t \<and> r = Inr ()" if "\<not> StUp (status c)"
    using session_up_or_down [OF assms(1,2)] that assms(3)
    by (auto simp: up_def down_def Stop_def stopLocked_def)
  ultimately show ?thesis by (simp add: down_def calm_def)
qed

theorem Stop_restores_witness:
  "machine_after sample_machine (snd (run_state (Stop served_environment NewController) [])) = sample_machine"
proof -
  obtain r c' t' where run: "run_state (Stop served_environment NewController) [] = ((r, c'), t')"
    by (metis prod.exhaust)
  show ?thesis using Stop_restores [OF session.begun served_cooperative run] run by simp
qed

section \<open>The status\<close>

lemma Milliseconds_figure:
  "0 \<le> fst (Milliseconds now mo)"
  "fst (Milliseconds now mo) = 0 \<longleftrightarrow> (case mo of None \<Rightarrow> True | Some m \<Rightarrow> \<not> seen m)"
  by (auto simp: Milliseconds_def Latency_def Let_def split: option.split prod.split)

lemma wrap64_shift: "in_int64 s \<Longrightarrow> wrap64 (wrap64 (s + k) - k) = s"
proof -
  assume s: "in_int64 s"
  have "wrap64 (wrap64 (s + k) - k) = ((s + k + 2 ^ 63) mod 2 ^ 64 - k) mod 2 ^ 64 - 2 ^ 63"
    by (simp add: wrap64_def)
  also have "((s + k + 2 ^ 63) mod 2 ^ 64 - k) mod 2 ^ 64 = (s + k + 2 ^ 63 - k) mod 2 ^ 64"
    by (rule mod_diff_left_eq)
  finally show ?thesis using wrap64_id [OF s] by (simp add: wrap64_def)
qed

lemma Parse_is_stated:
  assumes "Handshake.Parse out \<noteq> 0"
  shows "Unix_of (Handshake.Parse out) \<in> set (stated out)"
proof -
  have "Handshake.Parse out \<in> insert 0 (time_Unix ` set (stated out))"
    unfolding Parse_stated by (rule Max_in) simp_all
  with assms obtain s where s: "s \<in> set (stated out)" "Handshake.Parse out = time_Unix s" by auto
  have "Unix_of (time_Unix s) = s"
    using stated_positive [OF s(1)] by (simp add: Unix_of_def time_Unix_def wrap64_shift)
  with s show ?thesis by simp
qed

lemma meterNow_run: "\<exists>now s. run_state (meterNow env mo) t = (now, t @ s) \<and> set (map fst s) \<subseteq> {Now}"
  by (auto simp: meterNow_def askNow_def split: option.split)

lemma quiet_calls:
  assumes "set (map fst s) \<subseteq> {IpcGet, Now}"
  shows "machine_after m0 (t @ s) = machine_after m0 t \<and> opened (t @ s) = opened t"
  using assms
proof (induction s rule: rev_induct)
  case (snoc e s)
  obtain d a where e: "e = (d, a)" by fastforce
  have "machine_after m0 (t @ s @ [e]) = effect e (machine_after m0 (t @ s))"
    "opened (t @ s @ [e]) = open_step e (opened (t @ s))"
    using machine_after_simps(2) [of m0 "t @ s" e] opened_simps(2) [of "t @ s" e] by simp_all
  with snoc show ?case by (auto simp: e)
qed simp

lemma status_run:
  assumes "StUp (status c)"
  obtains h now s where
    "run_state (ControllerStatus env c) t =
       (((status c)\<lparr>StHandshakeUnix := h, StLatencyMs := fst (Milliseconds now (meter c))\<rparr>,
         c\<lparr>meter := snd (Milliseconds now (meter c))\<rparr>), t @ s)"
    "h = StHandshakeUnix (status c) \<or> device c \<and> (\<exists>out. env t IpcGet = Done out \<and> h \<in> set (stated out))"
    "set (map fst s) \<subseteq> {IpcGet, Now}"
proof (cases "device c")
  case False
  obtain now s where "run_state (meterNow env (meter c)) t = (now, t @ s)" "set (map fst s) \<subseteq> {Now}"
    using meterNow_run by blast
  with False assms show thesis
    by (intro that [where h = "StHandshakeUnix (status c)" and now = now and s = s])
      (auto simp: ControllerStatus_def Let_def split: prod.split)
next
  case True
  let ?t1 = "t @ [(IpcGet, env t IpcGet)]"
  obtain now s where s: "run_state (meterNow env (meter c)) ?t1 = (now, ?t1 @ s)" "set (map fst s) \<subseteq> {Now}"
    using meterNow_run by blast
  define h where "h = (case env t IpcGet of
      Done out \<Rightarrow> (if Handshake.Parse out \<noteq> 0 then Unix_of (Handshake.Parse out) else StHandshakeUnix (status c))
    | _ \<Rightarrow> StHandshakeUnix (status c))"
  show thesis
  proof
    show "run_state (ControllerStatus env c) t =
       (((status c)\<lparr>StHandshakeUnix := h, StLatencyMs := fst (Milliseconds now (meter c))\<rparr>,
         c\<lparr>meter := snd (Milliseconds now (meter c))\<rparr>), t @ (IpcGet, env t IpcGet) # s)"
      using True assms s(1)
      by (simp add: ControllerStatus_def Let_def h_def split: prod.split answer.split)
    show "h = StHandshakeUnix (status c) \<or> device c \<and> (\<exists>out. env t IpcGet = Done out \<and> h \<in> set (stated out))"
      using True Parse_is_stated by (auto simp: h_def split: answer.split)
    show "set (map fst ((IpcGet, env t IpcGet) # s)) \<subseteq> {IpcGet, Now}" using s(2) by auto
  qed
qed



text \<open>
  What the status says.  It is the status the tunnel was started with, and two figures: the
  handshake is one of the times the device's dump states, or what it was when the device states
  none; the latency is zero exactly when the meter has no figure, and at least one when it has.
  Asking changes neither the machine nor what is open, nor the controller apart from the meter.
\<close>

theorem Status_reports:
  assumes "run_state (ControllerStatus env c) t = ((s, c'), t')"
  shows "machine_after m0 t' = machine_after m0 t \<and> opened t' = opened t \<and>
    (\<exists>mo. c' = c\<lparr>meter := mo\<rparr>) \<and>
    (\<not> StUp (status c) \<longrightarrow> s = status c \<and> t' = t) \<and>
    (StUp (status c) \<longrightarrow> (\<exists>h ms. s = (status c)\<lparr>StHandshakeUnix := h, StLatencyMs := ms\<rparr> \<and>
       (h = StHandshakeUnix (status c) \<or>
        device c \<and> (\<exists>out. env t IpcGet = Done out \<and> h \<in> set (stated out))) \<and>
       (ms = 0 \<longleftrightarrow> (case meter c of None \<Rightarrow> True | Some m \<Rightarrow> \<not> seen m)) \<and> 0 \<le> ms))"
  
proof (cases "StUp (status c)")
  case False
  with assms show ?thesis
    by (intro conjI exI [of _ "meter c"]) (auto simp: ControllerStatus_def)
next
  case True
  then obtain h now u where u:
    "run_state (ControllerStatus env c) t =
       (((status c)\<lparr>StHandshakeUnix := h, StLatencyMs := fst (Milliseconds now (meter c))\<rparr>,
         c\<lparr>meter := snd (Milliseconds now (meter c))\<rparr>), t @ u)"
    "h = StHandshakeUnix (status c) \<or> device c \<and> (\<exists>out. env t IpcGet = Done out \<and> h \<in> set (stated out))"
    "set (map fst u) \<subseteq> {IpcGet, Now}" by (rule status_run [of c env t])
  then have eq: "s = (status c)\<lparr>StHandshakeUnix := h, StLatencyMs := fst (Milliseconds now (meter c))\<rparr>"
    "c' = c\<lparr>meter := snd (Milliseconds now (meter c))\<rparr>" "t' = t @ u"
    using assms by simp_all
  show ?thesis
    unfolding eq using u(2) quiet_calls [OF u(3), of m0 t] True Milliseconds_figure [of now "meter c"] by blast
qed

theorem Status_reports_witness:
  "\<exists>s c' t'. run_state (ControllerStatus served_environment
       (NewController\<lparr>device := True, status := zero_Status\<lparr>StUp := True\<rparr>\<rparr>)) [] = ((s, c'), t') \<and>
     StLatencyMs s = 0 \<and> opened t' = (False, False)"
proof -
  let ?c = "NewController\<lparr>device := True, status := zero_Status\<lparr>StUp := True\<rparr>\<rparr>"
  obtain s c' t' where run: "run_state (ControllerStatus served_environment ?c) [] = ((s, c'), t')"
    by (metis prod.exhaust)
  have "meter ?c = None" "StUp (status ?c)" by (simp_all add: NewController_def)
  then have "StLatencyMs s = 0" "opened t' = (False, False)"
    using Status_reports [OF run, of sample_machine] by auto
  with run show ?thesis by blast
qed

end
