(* ===== verification/Awg_Endpoint_Properties.thy ===== *)
theory Awg_Endpoint_Properties
  imports Awg_Endpoint Awg_Properties
begin

text \<open>
  The properties of reading a node of a subscription: what it gives is well formed, it is the
  configuration of the equivalent \<^verbatim>\<open>.conf\<close>, and what its texts can do to the rendering.
\<close>

section \<open>Decoded nodes\<close>

lemma into_struct_invariant:
  assumes "into_struct names f j old = Some r" and "P old"
    and "\<And>n v x y. f n v x = Some y \<Longrightarrow> P x \<Longrightarrow> P y"
  shows "P r"
proof -
  have loop: "P r" if "fold (\<lambda>(key, v) r. Option.bind r (\<lambda>x.
      (case field_named names key of None \<Rightarrow> Some x | Some n \<Rightarrow> f n v x))) ms (Some x) = Some r" "P x"
    for ms x
    using that
  proof (induction ms arbitrary: x)
    case (Cons m ms)
    obtain key v where m: "m = (key, v)" by fastforce
    have none: "fold (\<lambda>(key, v) r. Option.bind r (\<lambda>x.
      (case field_named names key of None \<Rightarrow> Some x | Some n \<Rightarrow> f n v x))) ms None = None" for ms
      by (induction ms) auto
    show ?case
    proof (cases "field_named names key")
      case None
      with Cons m show ?thesis by simp
    next
      case (Some n)
      then show ?thesis
        using Cons m none assms(3) by (cases "f n v x") auto
    qed
  qed simp
  show ?thesis
    using assms(1,2) loop by (auto simp: into_struct_def split: json.splits)
qed

lemma into_elements_all:
  assumes "into_elements dec zero js old = Some xs" and "P zero" and "\<forall>x \<in> set old. P x"
    and "\<And>j x y. dec j x = Some y \<Longrightarrow> P x \<Longrightarrow> P y"
  shows "\<forall>x \<in> set xs. P x"
  using assms(1,3)
proof (induction js arbitrary: old xs)
  case (Cons j js)
  then obtain y ys where "dec j (case old of [] \<Rightarrow> zero | x # _ \<Rightarrow> x) = Some y"
    "into_elements dec zero js (tl old) = Some ys" "xs = y # ys"
    by (auto simp: bind_eq_Some_conv)
  moreover have "P (case old of [] \<Rightarrow> zero | x # _ \<Rightarrow> x)"
    using Cons.prems(2) assms(2) by (cases old) auto
  moreover have "\<forall>x \<in> set (tl old). P x"
    using Cons.prems(2) by (cases old) auto
  ultimately show ?case using assms(4) Cons.IH by fastforce
qed simp

text \<open>What decoding guarantees: the integers are 64-bit integers.\<close>

definition peer_ints :: "EndpointPeer \<Rightarrow> bool" where
  "peer_ints p \<longleftrightarrow> in_int64 (PeerPort p) \<and> in_int64 (PersistentKeepaliveInterval p)"

definition node_ints :: "Node \<Rightarrow> bool" where
  "node_ints e \<longleftrightarrow> in_int64 (NodeMTU e) \<and> (\<forall>p \<in> set (NodePeers e). peer_ints p)"

lemma into_int_range: "into_int j old = Some i \<Longrightarrow> in_int64 old \<Longrightarrow> in_int64 i"
  by (auto simp: into_int_def dest: ParseInt64_range split: json.splits)

lemma set_peer_field_ints: "set_peer_field n j p = Some p' \<Longrightarrow> peer_ints p \<Longrightarrow> peer_ints p'"
  by (auto simp: set_peer_field_def peer_ints_def dest: into_int_range split: if_splits)

lemma zero_ints [simp]: "peer_ints zero_EndpointPeer" "node_ints zero_Node"
  by (simp_all add: peer_ints_def node_ints_def zero_EndpointPeer_def zero_Node_def)

lemma into_peers_ints:
  assumes "into_list (into_struct peerNames set_peer_field) zero_EndpointPeer j old = Some ps"
    and "\<forall>p \<in> set old. peer_ints p"
  shows "\<forall>p \<in> set ps. peer_ints p"
  using assms(1)
  by (auto simp: into_list_def split: json.splits
      dest!: into_elements_all [where P = peer_ints, OF _ zero_ints(1) assms(2)]
        intro: into_struct_invariant [where P = peer_ints] set_peer_field_ints)

lemma set_node_field_ints: "set_node_field n j e = Some e' \<Longrightarrow> node_ints e \<Longrightarrow> node_ints e'"
  by (auto simp: set_node_field_def node_ints_def dest: into_int_range into_peers_ints split: if_splits)

lemma decoded_ints:
  "into_struct nodeNames set_node_field j zero_Node = Some e \<Longrightarrow> node_ints e"
  by (rule into_struct_invariant [where P = node_ints]) (auto intro: set_node_field_ints)

section \<open>The configuration of a node\<close>

text \<open>The text of the parameters as a map of their own; a configuration's other fields are not
  touched.\<close>

definition setObf :: "string \<Rightarrow> string \<Rightarrow> (string, string) fmap \<Rightarrow> awg_error + (string, string) fmap" where
  "setObf key v m =
     (if key = ''headerprotectionkey'' then
        (case keyToHex v of
           Inl e \<Rightarrow> Inl (InField ''HeaderProtectionKey'' e)
         | Inr hexKey \<Rightarrow> Inr (fmupd key hexKey m))
      else Inr (fmupd key v m))"

lemma SetObfuscation_setObf:
  "SetObfuscation key v c = bindE (setObf key v (Obfuscation c)) (\<lambda>m. Inr (c\<lparr>Obfuscation := m\<rparr>))"
  by (simp add: SetObfuscation_def setObf_def split: sum.split)

definition scalarsMap :: "Node \<Rightarrow> (string \<times> string) list \<Rightarrow> (string, string) fmap \<Rightarrow>
    awg_error + (string, string) fmap" where
  "scalarsMap e =
     foldE (\<lambda>(name, key) m. if scalar_of e name = [] then Inr m else setObf key (scalar_of e name) m)"

lemma scalars_map:
  "foldE (\<lambda>(name, key) c.
       if scalar_of e name = [] then Inr c else SetObfuscation key (scalar_of e name) c) fs c =
   bindE (scalarsMap e fs (Obfuscation c)) (\<lambda>m. Inr (c\<lparr>Obfuscation := m\<rparr>))"
proof (induction fs arbitrary: c)
  case (Cons f fs)
  obtain name key where f: "f = (name, key)" by fastforce
  show ?case
    by (auto simp: f scalarsMap_def SetObfuscation_setObf bindE_def Cons.IH [unfolded scalarsMap_def]
        split: sum.split)
qed (simp add: scalarsMap_def)

lemma addScalars_map:
  "addScalars e c = bindE (scalarsMap e scalarFields (Obfuscation c)) (\<lambda>m. Inr (c\<lparr>Obfuscation := m\<rparr>))"
  by (simp add: addScalars_def scalars_map)

text \<open>When a node has a configuration, and which.\<close>

definition node_config :: "Node \<Rightarrow> EndpointPeer \<Rightarrow> string \<Rightarrow> addr list \<Rightarrow> addr list \<Rightarrow> string \<Rightarrow>
    string \<Rightarrow> (string, string) fmap \<Rightarrow> Config" where
  "node_config e p priv addrs servers pub psk m =
     \<lparr>PrivateKey = priv, Addresses = addrs, MTU = (if 0 < NodeMTU e then NodeMTU e else 1420),
      DNS = servers, Obfuscation = m,
      peer = \<lparr>PublicKey = pub, PresharedKey = psk, Endpoint = joinHostPort (PeerAddress p) (PeerPort p),
        AllowedIPs = (if PeerAllowedIPs p = [] then [''0.0.0.0/0''] else PeerAllowedIPs p),
        Keepalive = PersistentKeepaliveInterval p\<rparr>\<rparr>"

definition pskToHex :: "string \<Rightarrow> awg_error + string" where
  "pskToHex v = (if v = [] then Inr [] else keyToHex v)"

lemma Node_Config_Inr_iff:
  "Node_Config e = Inr c \<longleftrightarrow>
     (NodeType e = [] \<or> NodeType e = EndpointType) \<and>
     (\<exists>p priv addrs servers pub psk m. NodePeers e = [p] \<and>
        keyToHex (NodePrivateKey e) = Inr priv \<and>
        addAddresses ''address'' (NodeAddress e) = Inr addrs \<and> addrs \<noteq> [] \<and>
        addAddresses ''dns'' (NodeDNS e) = Inr servers \<and>
        keyToHex (PeerPublicKey p) = Inr pub \<and> pskToHex (PreSharedKey p) = Inr psk \<and>
        PeerAddress p \<noteq> [] \<and> PeerPort p \<noteq> 0 \<and>
        scalarsMap e scalarFields fmempty = Inr m \<and>
        c = node_config e p priv addrs servers pub psk m)"
proof -
  consider "NodePeers e = []" | p where "NodePeers e = [p]" | p q ps where "NodePeers e = p # q # ps"
    by (cases "NodePeers e"; cases "tl (NodePeers e)") auto
  then show ?thesis
  proof cases
    case 2
    have empty: "addAddresses f [] = Inr []" for f by (simp add: addAddresses_def)
    show ?thesis
      by (cases "PreSharedKey p = []"; cases "NodeAddress e = []")
        (auto simp: 2 Node_Config_def Let_def addScalars_map node_config_def pskToHex_def empty
          empty_Config_def empty_Peer_def)
  qed (simp_all add: Node_Config_def)
qed

lemma scalarFields_keys: "map snd scalarFields = obfuscationKeys"
  by (simp add: scalarFields_def obfuscationKeys_def)

lemma scalarsMap_inv:
  assumes "scalarsMap e scalarFields fmempty = Inr m"
  shows "fmdom' m \<subseteq> set obfuscationKeys \<and>
    (\<forall>v. fmlookup m ''headerprotectionkey'' = Some v \<longrightarrow> is_hex_key v)"
  using assms unfolding scalarsMap_def
proof (rule foldE_invariant)
  fix x u v
  assume x: "x \<in> set scalarFields"
    and u: "fmdom' u \<subseteq> set obfuscationKeys \<and>
      (\<forall>v. fmlookup u ''headerprotectionkey'' = Some v \<longrightarrow> is_hex_key v)"
    and step: "(case x of (name, key) \<Rightarrow> \<lambda>m. if scalar_of e name = [] then Inr m
        else setObf key (scalar_of e name) m) u = Inr v"
  obtain name key where nk: "x = (name, key)" by fastforce
  then have "key \<in> set obfuscationKeys"
    using x by (force simp flip: scalarFields_keys)
  then show "fmdom' v \<subseteq> set obfuscationKeys \<and>
      (\<forall>w. fmlookup v ''headerprotectionkey'' = Some w \<longrightarrow> is_hex_key w)"
    using step u
    by (auto simp: nk setObf_def keyToHex_is_hex_key split: if_splits sum.splits)
qed simp

lemma Node_Config_wf:
  assumes "Node_Config e = Inr c" and "node_ints e"
  shows "wf_config c"
proof -
  obtain p priv addrs servers pub psk m where *: "NodePeers e = [p]"
    "keyToHex (NodePrivateKey e) = Inr priv" "addrs \<noteq> []" "keyToHex (PeerPublicKey p) = Inr pub"
    "pskToHex (PreSharedKey p) = Inr psk" "scalarsMap e scalarFields fmempty = Inr m"
    and c: "c = node_config e p priv addrs servers pub psk m"
    using assms(1) unfolding Node_Config_Inr_iff by blast
  have "is_hex_key priv" "is_hex_key pub" using * keyToHex_is_hex_key by blast+
  moreover have "psk = [] \<or> is_hex_key psk"
    using *(5) keyToHex_is_hex_key by (auto simp: pskToHex_def split: if_splits)
  moreover note scalarsMap_inv [OF *(6)]
  moreover have "in_int64 (NodeMTU e)" "in_int64 (PersistentKeepaliveInterval p)"
    using assms(2) *(1) by (simp_all add: node_ints_def peer_ints_def)
  moreover have "priv \<noteq> []" "pub \<noteq> []" using calculation(1,2) by auto
  ultimately show ?thesis
    using *(3) unfolding c node_config_def wf_config_def config_inv_def by simp
qed

lemma ParseEndpoint_wf: "ParseEndpoint doc = Inr c \<Longrightarrow> wf_config c"
  by (auto simp: ParseEndpoint_def bind_eq_Some_conv dest: Node_Config_wf decoded_ints
      split: option.splits)

text \<open>
  C32: Whichever form a configuration arrives in, what \<^verbatim>\<open>Parse\<close> returns is complete and in the form
  the device reads: keys are 64 hexadecimal digits, only known obfuscation parameters are stored,
  there is an address, the integers are in range.
\<close>

theorem Parse_wf:
  "Parse doc = Inr c \<Longrightarrow>
     is_hex_key (PrivateKey c) \<and> is_hex_key (PublicKey (peer c)) \<and> Addresses c \<noteq> [] \<and>
     fmdom' (Obfuscation c) \<subseteq> set obfuscationKeys \<and> in_int64 (MTU c) \<and> wf_config c"
  using ParseEndpoint_wf [of doc c] ParseConfig_wf_config [of doc c]
  by (auto simp: Parse_def wf_config_def config_inv_def split: if_splits)

section \<open>The equivalent \<^verbatim>\<open>.conf\<close>\<close>

text \<open>A node as a person would write it in a \<^verbatim>\<open>.conf\<close>, key by key.\<close>

definition assignments :: "Node \<Rightarrow> (string \<times> string) list" where
  "assignments e =
     (''privatekey'', NodePrivateKey e)
     # map (Pair ''address'') (NodeAddress e)
     @ [(''mtu'', Itoa (NodeMTU e))]
     @ map (Pair ''dns'') (NodeDNS e)
     @ concat (map (\<lambda>(name, key). if scalar_of e name = [] then [] else [(key, scalar_of e name)]) scalarFields)"

definition peer_assignments :: "EndpointPeer \<Rightarrow> (string \<times> string) list" where
  "peer_assignments p =
     [(''publickey'', PeerPublicKey p)]
     @ (if PreSharedKey p = [] then [] else [(''presharedkey'', PreSharedKey p)])
     @ [(''endpoint'', joinHostPort (PeerAddress p) (PeerPort p))]
     @ map (Pair ''allowedips'') (PeerAllowedIPs p)
     @ [(''persistentkeepalive'', Itoa (PersistentKeepaliveInterval p))]"

definition conf_line :: "string \<times> string \<Rightarrow> string" where
  "conf_line kv = fst kv @ CHR ''='' # snd kv"

definition conf_lines :: "Node \<Rightarrow> EndpointPeer \<Rightarrow> string list" where
  "conf_lines e p =
     ''[Interface]'' # map conf_line (assignments e)
     @ ''[Peer]'' # map conf_line (peer_assignments p)"

definition conf_of :: "Node \<Rightarrow> EndpointPeer \<Rightarrow> string" where
  "conf_of e p = concat (map (\<lambda>l. l @ [newline]) (conf_lines e p))"

text \<open>
  A text that can stand in a line of a \<^verbatim>\<open>.conf\<close>: one line, no white space at its ends.  A node
  that can be written as one has a single peer, its MTU and its allowed addresses spelled out, and
  texts like that; an allowed address holds no comma and is not empty.
\<close>

definition one_line :: "string \<Rightarrow> bool" where
  "one_line v \<longleftrightarrow> newline \<notin> set v \<and> tight v"

definition writable :: "Node \<Rightarrow> EndpointPeer \<Rightarrow> bool" where
  "writable e p \<longleftrightarrow>
     (NodeType e = [] \<or> NodeType e = EndpointType) \<and> NodePeers e = [p] \<and>
     0 < NodeMTU e \<and> node_ints e \<and> PeerAddress p \<noteq> [] \<and> PeerPort p \<noteq> 0 \<and>
     (\<forall>kv \<in> set (assignments e @ peer_assignments p). one_line (snd kv)) \<and>
     PeerAllowedIPs p \<noteq> [] \<and>
     (\<forall>a \<in> set (PeerAllowedIPs p). a \<noteq> [] \<and> CHR '','' \<notin> set a)"

text \<open>The keys of a \<^verbatim>\<open>.conf\<close>: lower-case ASCII words.\<close>

definition plain_key :: "string \<Rightarrow> bool" where
  "plain_key k \<longleftrightarrow> k \<noteq> [] \<and> CHR ''='' \<notin> set k \<and> hd k \<notin> set ''[#;'' \<and> newline \<notin> set k \<and>
     TrimSpace k = k \<and> ToLower k = k \<and> list_all (\<lambda>w. \<not> HasPrefix w [hd k]) space_runes"

lemma interface_keys: "list_all plain_key ([''privatekey'', ''address'', ''mtu'', ''dns''] @ map snd scalarFields)"
  by code_simp

lemma peer_keys:
  "list_all plain_key [''publickey'', ''presharedkey'', ''endpoint'', ''allowedips'', ''persistentkeepalive'']"
  by code_simp

lemma no_equals_space: "w \<in> set space_runes \<Longrightarrow> CHR ''='' \<notin> set w \<and> w \<noteq> []"
proof -
  have "list_all (\<lambda>w. CHR ''='' \<notin> set w \<and> w \<noteq> []) space_runes" by code_simp
  then show "w \<in> set space_runes \<Longrightarrow> CHR ''='' \<notin> set w \<and> w \<noteq> []" by (simp add: list_all_iff)
qed

lemma tight_conf_line:
  assumes "plain_key k" and "tight v"
  shows "tight (conf_line (k, v))"
  unfolding tight_def
proof (intro ballI conjI notI)
  fix w assume w: "w \<in> set space_runes"
  note ne = no_equals_space [OF w]
  {
    assume "HasPrefix (conf_line (k, v)) w"
    then obtain t where "k @ CHR ''='' # v = w @ t" by (auto simp: HasPrefix_iff conf_line_def)
    with ne assms(1) have "hd w = hd k" by (cases w; cases k) (auto simp: plain_key_def)
    with ne have "HasPrefix w [hd k]" by (cases w) (auto simp: HasPrefix_Cons)
    with w assms(1) show False by (auto simp: plain_key_def list_all_iff)
  }
  {
    assume "HasSuffix (conf_line (k, v)) w"
    then obtain t where "(k @ [CHR ''='']) @ v = t @ w" by (auto simp: HasSuffix_iff conf_line_def)
    then obtain u where u: "k @ [CHR ''=''] = t @ u \<and> u @ v = w \<or> (k @ [CHR ''='']) @ u = t \<and> v = u @ w"
      unfolding append_eq_append_conv2 by blast
    have "(\<exists>u. v = u @ w) \<or> (\<exists>u. w = u @ v \<and> k @ [CHR ''=''] = t @ u \<and> u \<noteq> [])"
      using u by (cases "u = []") (auto intro: exI [of _ "[]"])
    then consider u where "v = u @ w" | u where "w = u @ v" "k @ [CHR ''=''] = t @ u" "u \<noteq> []"
      by blast
    then show False
    proof cases
      case 1
      then show ?thesis using assms(2) w by (auto simp: tight_def HasSuffix_iff)
    next
      case 2
      then have "last u = CHR ''=''" by (metis last_append last_snoc)
      with 2 have "CHR ''='' \<in> set w" by (metis UnI1 last_in_set set_append)
      with ne show ?thesis by simp
    qed
  }
qed

lemma cuts_conf_line:
  assumes "plain_key k" and "one_line v"
  shows "cuts_to (conf_line (k, v)) k v"
proof -
  have t: "TrimSpace (conf_line (k, v)) = conf_line (k, v)" "TrimSpace v = v"
    using assms tight_conf_line [of k v] by (simp_all add: one_line_def)
  have "\<not> header (conf_line (k, v))" "\<not> skipped (conf_line (k, v))"
    using assms(1) by (cases k; auto simp: header_def skipped_def conf_line_def plain_key_def HasPrefix_Cons)+
  moreover have "Cut (CHR ''='') (conf_line (k, v)) = Some (k, v)"
    using assms(1) by (simp add: Cut_Some_iff conf_line_def plain_key_def)
  ultimately show ?thesis
    using assms(1) t by (simp add: cuts_to_def plain_key_def)
qed

text \<open>Reading lines that are assignments is making the assignments in order.\<close>

lemma read_assignments:
  assumes "\<forall>kv \<in> set kvs. cuts_to (conf_line kv) (fst kv) (snd kv)"
  shows "foldE parseLine (List.enumerate n (map conf_line kvs)) st = Inr st' \<longleftrightarrow>
    foldE (\<lambda>(k, v). assign k v) kvs st = Inr st'"
  using assms
proof (induction kvs arbitrary: n st)
  case (Cons kv kvs)
  then have "parseLine (n, conf_line kv) st = wrapE (AtLine (n + 1)) (assign (fst kv) (snd kv) st)"
    by (intro parseLine_cuts_to) simp
  then show ?case using Cons by (simp add: split_beta del: split_paired_Ex)
qed simp

section \<open>Making the assignments\<close>

lemma assign_interface:
  "assign k v (''interface'', c) = bindE (setInterface k v c) (\<lambda>c'. Inr (''interface'', c'))"
  by (simp add: assign_def)

lemma assign_peer:
  "assign k v (''peer'', c) = bindE (Peer_set k v (peer c)) (\<lambda>p. Inr (''peer'', c\<lparr>peer := p\<rparr>))"
  by (simp add: assign_def)

lemma setInterface_simps:
  "setInterface ''privatekey'' v c = Inr c' \<longleftrightarrow> (\<exists>h. keyToHex v = Inr h \<and> c' = c\<lparr>PrivateKey := h\<rparr>)"
  "setInterface ''address'' v c = Inr c' \<longleftrightarrow>
     (\<exists>as. parseAddrList v = Inr as \<and> c' = c\<lparr>Addresses := Addresses c @ as\<rparr>)"
  "setInterface ''dns'' v c = Inr c' \<longleftrightarrow>
     (\<exists>as. parseAddrList v = Inr as \<and> c' = c\<lparr>DNS := DNS c @ as\<rparr>)"
  "setInterface ''mtu'' v c = Inr c' \<longleftrightarrow> (\<exists>n. ParseInt64 v = Some n \<and> c' = c\<lparr>MTU := n\<rparr>)"
  by (auto simp: setInterface_def obfuscationKeys_def split: option.split)

lemma Peer_set_simps:
  "Peer_set ''publickey'' v p = Inr p' \<longleftrightarrow> (\<exists>h. keyToHex v = Inr h \<and> p' = p\<lparr>PublicKey := h\<rparr>)"
  "Peer_set ''presharedkey'' v p = Inr p' \<longleftrightarrow> (\<exists>h. keyToHex v = Inr h \<and> p' = p\<lparr>PresharedKey := h\<rparr>)"
  "Peer_set ''endpoint'' v p = Inr (p\<lparr>Endpoint := v\<rparr>)"
  "Peer_set ''persistentkeepalive'' v p = Inr p' \<longleftrightarrow>
     (\<exists>n. ParseInt64 v = Some n \<and> p' = p\<lparr>Keepalive := n\<rparr>)"
  by (auto simp: Peer_set_def split: option.split)

lemma Peer_set_allowed:
  assumes "a \<noteq> []" and "CHR '','' \<notin> set a" and "tight a"
  shows "Peer_set ''allowedips'' a p = Inr (p\<lparr>AllowedIPs := AllowedIPs p @ [a]\<rparr>)"
  using assms by (simp add: Peer_set_def Split_no_sep)

lemma addAddresses_append:
  "addAddresses f (vs @ [v]) = bindE (addAddresses f vs) (\<lambda>as.
     bindE (wrapE (InField f) (parseAddrList v)) (\<lambda>more. Inr (as @ more)))"
  by (auto simp: addAddresses_def foldE_append bindE_def split: sum.split)

lemma assign_addresses:
  "foldE (\<lambda>(k, v). assign k v) (map (Pair ''address'') vs) (''interface'', c) = Inr st' \<longleftrightarrow>
     (\<exists>as. addAddresses f vs = Inr as \<and> st' = (''interface'', c\<lparr>Addresses := Addresses c @ as\<rparr>))"
proof (induction vs arbitrary: st' rule: rev_induct)
  case (snoc v vs)
  show ?case
    by (auto simp: foldE_append snoc.IH addAddresses_append assign_interface setInterface_simps)
qed (auto simp: addAddresses_def)

lemma assign_dns:
  "foldE (\<lambda>(k, v). assign k v) (map (Pair ''dns'') vs) (''interface'', c) = Inr st' \<longleftrightarrow>
     (\<exists>as. addAddresses f vs = Inr as \<and> st' = (''interface'', c\<lparr>DNS := DNS c @ as\<rparr>))"
proof (induction vs arbitrary: st' rule: rev_induct)
  case (snoc v vs)
  show ?case
    by (auto simp: foldE_append snoc.IH addAddresses_append assign_interface setInterface_simps)
qed (auto simp: addAddresses_def)

lemma assign_scalars:
  assumes "snd ` set fs \<subseteq> set obfuscationKeys"
  shows "foldE (\<lambda>(k, v). assign k v)
      (concat (map (\<lambda>(name, key). if scalar_of e name = [] then [] else [(key, scalar_of e name)]) fs))
      (''interface'', c) =
    bindE (scalarsMap e fs (Obfuscation c)) (\<lambda>m. Inr (''interface'', c\<lparr>Obfuscation := m\<rparr>))"
  using assms
proof (induction fs arbitrary: c)
  case (Cons x fs)
  obtain name key where x: "x = (name, key)" by fastforce
  with Cons.prems have "key \<in> set obfuscationKeys" by auto
  then have "setInterface key v c = SetObfuscation key v c" for v c
    by (simp add: setInterface_def)
  with Cons show ?case
    by (auto simp: x scalarsMap_def foldE_append assign_interface SetObfuscation_setObf bindE_def split: sum.split)
qed (simp add: scalarsMap_def)

lemma assign_allowed:
  assumes "\<forall>a \<in> set as. a \<noteq> [] \<and> CHR '','' \<notin> set a \<and> tight a"
  shows "foldE (\<lambda>(k, v). assign k v) (map (Pair ''allowedips'') as) (''peer'', c) =
    Inr (''peer'', c\<lparr>peer := (peer c)\<lparr>AllowedIPs := AllowedIPs (peer c) @ as\<rparr>\<rparr>)"
  using assms
  by (induction as arbitrary: c) (simp_all add: assign_peer Peer_set_allowed)

lemma assignments_keys: "kv \<in> set (assignments e) \<Longrightarrow> plain_key (fst kv)"
  using interface_keys
  by (auto simp: assignments_def list_all_iff split: if_splits)

lemma peer_assignments_keys: "kv \<in> set (peer_assignments p) \<Longrightarrow> plain_key (fst kv)"
  using peer_keys by (auto simp: peer_assignments_def split: if_splits)

lemma conf_of_Split:
  assumes "writable e p"
  shows "Split newline (conf_of e p) = conf_lines e p @ [[]]"
proof -
  have "newline \<notin> set (conf_line kv)" if "kv \<in> set (assignments e @ peer_assignments p)" for kv
  proof -
    have "plain_key (fst kv)" using that assignments_keys [of kv] peer_assignments_keys [of kv] by (metis UnE set_append)
    moreover have "newline \<notin> set (snd kv)" using assms that by (auto simp: writable_def one_line_def)
    ultimately show ?thesis by (simp add: conf_line_def plain_key_def newline_def)
  qed
  moreover have "newline \<notin> set ''[Interface]''" "newline \<notin> set ''[Peer]''"
    by (simp_all add: newline_def)
  ultimately show ?thesis
    unfolding conf_of_def by (intro Split_lines) (auto simp: conf_lines_def)
qed

lemma interface_assigned:
  assumes "in_int64 (NodeMTU e)"
  shows "foldE (\<lambda>(k, v). assign k v) (assignments e) (''interface'', empty_Config) = Inr st \<longleftrightarrow>
    (\<exists>priv addrs servers m. keyToHex (NodePrivateKey e) = Inr priv \<and>
       addAddresses ''address'' (NodeAddress e) = Inr addrs \<and>
       addAddresses ''dns'' (NodeDNS e) = Inr servers \<and>
       scalarsMap e scalarFields fmempty = Inr m \<and>
       st = (''interface'', empty_Config\<lparr>PrivateKey := priv, Addresses := addrs, MTU := NodeMTU e,
         DNS := servers, Obfuscation := m\<rparr>))"
proof -
  have "snd ` set scalarFields \<subseteq> set obfuscationKeys"
    by (metis scalarFields_keys set_map subset_refl)
  note scalars = assign_scalars [OF this]
  have init: "Addresses (empty_Config\<lparr>PrivateKey := h\<rparr>) = []"
    "DNS (empty_Config\<lparr>PrivateKey := h, Addresses := as, MTU := n\<rparr>) = []"
    "Obfuscation (empty_Config\<lparr>PrivateKey := h, Addresses := as, MTU := n, DNS := ss\<rparr>) = fmempty" for h as n ss
    by (simp_all add: empty_Config_def)
  show ?thesis
    by (auto simp: assignments_def foldE_append assign_interface setInterface_simps
        assign_addresses [of _ _ _ "''address''"] assign_dns [of _ _ _ "''dns''"] scalars
        ParseInt64_Itoa [OF assms] init)
qed

lemma peer_assigned:
  assumes "in_int64 (PersistentKeepaliveInterval p)" and "peer c = empty_Peer"
    and "\<forall>a \<in> set (PeerAllowedIPs p). a \<noteq> [] \<and> CHR '','' \<notin> set a \<and> tight a"
  shows "foldE (\<lambda>(k, v). assign k v) (peer_assignments p) (''peer'', c) = Inr st \<longleftrightarrow>
    (\<exists>pub psk. keyToHex (PeerPublicKey p) = Inr pub \<and> pskToHex (PreSharedKey p) = Inr psk \<and>
       st = (''peer'', c\<lparr>peer := \<lparr>PublicKey = pub, PresharedKey = psk,
         Endpoint = joinHostPort (PeerAddress p) (PeerPort p), AllowedIPs = PeerAllowedIPs p,
         Keepalive = PersistentKeepaliveInterval p\<rparr>\<rparr>))"
proof (cases "PreSharedKey p = []")
  case True
  then show ?thesis
    by (auto simp: peer_assignments_def foldE_append assign_peer Peer_set_simps
        assign_allowed [OF assms(3)] ParseInt64_Itoa [OF assms(1)] pskToHex_def assms(2) empty_Peer_def)
next
  case False
  then show ?thesis
    by (auto simp: peer_assignments_def foldE_append assign_peer Peer_set_simps
        assign_allowed [OF assms(3)] ParseInt64_Itoa [OF assms(1)] pskToHex_def assms(2) empty_Peer_def)
qed

lemma conf_lines_read:
  assumes "writable e p"
  shows "foldE parseLine (List.enumerate 0 (conf_lines e p @ [[]])) ([], empty_Config) = Inr st \<longleftrightarrow>
    (\<exists>st1. foldE (\<lambda>(k, v). assign k v) (assignments e) (''interface'', empty_Config) = Inr st1 \<and>
       foldE (\<lambda>(k, v). assign k v) (peer_assignments p) (''peer'', snd st1) = Inr st)"
proof -
  have cut: "cuts_to (conf_line kv) (fst kv) (snd kv)" if "plain_key (fst kv)" "one_line (snd kv)" for kv
    using cuts_conf_line [OF that] by simp
  have lines: "\<forall>kv \<in> set (assignments e @ peer_assignments p). one_line (snd kv)"
    using assms unfolding writable_def by (elim conjE)
  have cuts: "\<forall>kv \<in> set (assignments e). cuts_to (conf_line kv) (fst kv) (snd kv)"
    "\<forall>kv \<in> set (peer_assignments p). cuts_to (conf_line kv) (fst kv) (snd kv)"
  proof (safe del: subsetI)
    fix k v
    show "cuts_to (conf_line (k, v)) (fst (k, v)) (snd (k, v))" if "(k, v) \<in> set (assignments e)"
      by (rule cut [OF assignments_keys [OF that]]) (use bspec [OF lines, of "(k, v)"] that in simp)
    show "cuts_to (conf_line (k, v)) (fst (k, v)) (snd (k, v))" if "(k, v) \<in> set (peer_assignments p)"
      by (rule cut [OF peer_assignments_keys [OF that]]) (use bspec [OF lines, of "(k, v)"] that in simp)
  qed
  have blank: "parseLine (n, []) s = Inr s" for n s
    by (rule parseLine_skipped) (simp add: skipped_def TrimSpace_def TrimRightSpace_def
        TrimLeftSpace_def strip_words_none)
  show ?thesis
    by (simp add: conf_lines_def enumerate_append foldE_append sample_section blank
        read_assignments [OF cuts(1)] read_assignments [OF cuts(2)] del: split_paired_Ex)
qed

text \<open>
  C23: One node written two ways gives one configuration.  For a node that can be written as a
  \<^verbatim>\<open>.conf\<close> (its texts are single lines without white space at the ends), the \<^verbatim>\<open>.conf\<close> with
  its keys and values is read to exactly the configuration the node itself has, and one of the two
  is refused exactly when the other is.
\<close>

theorem ParseConfig_matches_node:
  assumes "writable e p"
  shows "ParseConfig (conf_of e p) = Inr c \<longleftrightarrow> Node_Config e = Inr c"
proof -
  note wr = assms [unfolded writable_def]
  have one: "NodePeers e = [p]" and ints: "node_ints e" using wr by blast+
  have w: "NodePeers e = [p]" "0 < NodeMTU e" "in_int64 (NodeMTU e)" "in_int64 (PersistentKeepaliveInterval p)"
    "PeerAddress p \<noteq> []" "PeerPort p \<noteq> 0" "PeerAllowedIPs p \<noteq> []"
    "NodeType e = [] \<or> NodeType e = EndpointType"
    using wr ints one unfolding node_ints_def peer_ints_def by (blast, blast, blast, force, blast+)
  have "tight a" if "a \<in> set (PeerAllowedIPs p)" for a
  proof -
    have "(''allowedips'', a) \<in> set (assignments e @ peer_assignments p)"
      using that by (simp add: peer_assignments_def)
    then show ?thesis using wr unfolding one_line_def by (metis snd_conv)
  qed
  then have allowed: "\<forall>a \<in> set (PeerAllowedIPs p). a \<noteq> [] \<and> CHR '','' \<notin> set a \<and> tight a"
    using wr by blast
  have keys: "keyToHex v = Inr h \<Longrightarrow> h \<noteq> []" for v h
    using keyToHex_is_hex_key by fastforce
  have read: "foldE parseLine (List.enumerate 0 (conf_lines e p @ [[]])) ([], empty_Config) = Inr st \<longleftrightarrow>
    (\<exists>priv addrs servers pub psk m. keyToHex (NodePrivateKey e) = Inr priv \<and>
       addAddresses ''address'' (NodeAddress e) = Inr addrs \<and>
       addAddresses ''dns'' (NodeDNS e) = Inr servers \<and>
       keyToHex (PeerPublicKey p) = Inr pub \<and> pskToHex (PreSharedKey p) = Inr psk \<and>
       scalarsMap e scalarFields fmempty = Inr m \<and>
       st = (''peer'', node_config e p priv addrs servers pub psk m))" for st
    unfolding conf_lines_read [OF assms] interface_assigned [OF w(3)]
    using w(2,7)
    by (auto simp: peer_assigned [OF w(4) _ allowed] node_config_def empty_Config_def)
  show ?thesis
    unfolding ParseConfig_def conf_of_Split [OF assms] bindE_Inr_iff read Node_Config_Inr_iff
  proof (intro iffI)
    assume "\<exists>a. (\<exists>priv addrs servers pub psk m. keyToHex (NodePrivateKey e) = Inr priv \<and>
       addAddresses ''address'' (NodeAddress e) = Inr addrs \<and>
       addAddresses ''dns'' (NodeDNS e) = Inr servers \<and>
       keyToHex (PeerPublicKey p) = Inr pub \<and> pskToHex (PreSharedKey p) = Inr psk \<and>
       scalarsMap e scalarFields fmempty = Inr m \<and>
       a = (''peer'', node_config e p priv addrs servers pub psk m)) \<and>
      (case a of (section, cfg) \<Rightarrow>
          if PrivateKey cfg = [] then Inl NoPrivateKey
          else if PublicKey (peer cfg) = [] then Inl NoPublicKey
          else if Addresses cfg = [] then Inl NoAddress else Inr cfg) = Inr c"
    then obtain priv addrs servers pub psk m where *: "keyToHex (NodePrivateKey e) = Inr priv"
       "addAddresses ''address'' (NodeAddress e) = Inr addrs"
       "addAddresses ''dns'' (NodeDNS e) = Inr servers"
       "keyToHex (PeerPublicKey p) = Inr pub" "pskToHex (PreSharedKey p) = Inr psk"
       "scalarsMap e scalarFields fmempty = Inr m"
       and c: "addrs \<noteq> []" "c = node_config e p priv addrs servers pub psk m"
      by (auto simp: node_config_def split: if_splits)
    then show "(NodeType e = [] \<or> NodeType e = EndpointType) \<and>
     (\<exists>p priv addrs servers pub psk m. NodePeers e = [p] \<and>
        keyToHex (NodePrivateKey e) = Inr priv \<and>
        addAddresses ''address'' (NodeAddress e) = Inr addrs \<and> addrs \<noteq> [] \<and>
        addAddresses ''dns'' (NodeDNS e) = Inr servers \<and>
        keyToHex (PeerPublicKey p) = Inr pub \<and> pskToHex (PreSharedKey p) = Inr psk \<and>
        PeerAddress p \<noteq> [] \<and> PeerPort p \<noteq> 0 \<and>
        scalarsMap e scalarFields fmempty = Inr m \<and>
        c = node_config e p priv addrs servers pub psk m)"
      using w(1,5,6,8) by blast
  qed (use w(1) keys in \<open>force simp: node_config_def\<close>)
qed

definition sample_peer :: EndpointPeer where
  "sample_peer =
     \<lparr>PeerAddress = ''h'', PeerPort = 1, PeerPublicKey = sample_key, PreSharedKey = [],
      PeerAllowedIPs = [''0.0.0.0/0''], PersistentKeepaliveInterval = 25\<rparr>"

definition sample_node :: Node where
  "sample_node =
     \<lparr>NodeType = EndpointType, NodeTag = [], NodeAddress = [''10.0.0.2/32''],
      NodePrivateKey = sample_key, NodeMTU = 1420, NodeDNS = [], NodePeers = [sample_peer],
      NodeScalars = fmupd ''jc'' ''4'' fmempty\<rparr>"

definition one_line_code :: "string \<Rightarrow> bool" where
  "one_line_code v \<longleftrightarrow> newline \<notin> set v \<and> list_all (\<lambda>w. \<not> HasPrefix v w \<and> \<not> HasSuffix v w) space_runes"

lemma one_line_code: "one_line v \<longleftrightarrow> one_line_code v"
  by (simp add: one_line_def one_line_code_def tight_def list_all_iff)

lemma sample_writable: "writable sample_node sample_peer"
proof -
  have "list_all (\<lambda>kv. one_line_code (snd kv)) (assignments sample_node @ peer_assignments sample_peer)"
    by code_simp
  then have "\<forall>kv \<in> set (assignments sample_node @ peer_assignments sample_peer). one_line (snd kv)"
    by (simp add: list_all_iff one_line_code)
  moreover have "node_ints sample_node" "PeerAddress sample_peer \<noteq> []" "PeerPort sample_peer \<noteq> 0"
    "PeerAllowedIPs sample_peer = [''0.0.0.0/0'']" "0 < NodeMTU sample_node" "NodePeers sample_node = [sample_peer]"
    "NodeType sample_node = EndpointType"
    by (simp_all add: node_ints_def peer_ints_def sample_node_def sample_peer_def in_int64_def
        int64_min_def int64_max_def)
  ultimately show ?thesis unfolding writable_def by simp
qed

theorem ParseConfig_matches_node_witness:
  "\<forall>c. ParseConfig (conf_of sample_node sample_peer) = Inr c \<longleftrightarrow> Node_Config sample_node = Inr c"
  by (intro allI ParseConfig_matches_node sample_writable)

section \<open>A text that is more than one line\<close>

text \<open>
  A node as a server can send it.  The text of its one allowed address has a line break in it, an
  escape in the JSON, and goes on with a line of the server's choosing.
\<close>

definition smuggled :: string where
  "smuggled = ''0.0.0.0/0'' @ newline # ''public_key=00'' @ newline # ''endpoint=evil:1''"

definition smuggling_doc :: string where
  "smuggling_doc =
     ''{\"address\":[\"10.0.0.2/32\"],\"private_key\":\"'' @ sample_key @
     ''\",\"peers\":[{\"address\":\"h\",\"port\":1,\"public_key\":\"'' @ sample_key @
     ''\",\"allowed_ips\":[\"0.0.0.0/0'' @ backslash # ''npublic_key=00'' @ backslash # ''nendpoint=evil:1\"]}]}''"

definition smuggling_node :: Node where
  "smuggling_node = zero_Node
     \<lparr>NodeAddress := [''10.0.0.2/32''], NodePrivateKey := sample_key,
      NodePeers := [\<lparr>PeerAddress = ''h'', PeerPort = 1, PeerPublicKey = sample_key, PreSharedKey = [],
        PeerAllowedIPs = [smuggled], PersistentKeepaliveInterval = 0\<rparr>]\<rparr>"

lemma smuggling_doc_decoded:
  "Option.bind (json_parse smuggling_doc) (\<lambda>j. into_struct nodeNames set_node_field j zero_Node) =
     Some smuggling_node"
  by code_simp

definition smuggling_config :: Config where
  "smuggling_config =
     \<lparr>PrivateKey = sample_hex, Addresses = [V4 10 0 0 2], MTU = 1420, DNS = [], Obfuscation = fmempty,
      peer = \<lparr>PublicKey = sample_hex, PresharedKey = [], Endpoint = ''h:1'', AllowedIPs = [smuggled],
        Keepalive = 0\<rparr>\<rparr>"

lemma smuggling_parsed: "ParseEndpoint smuggling_doc = Inr smuggling_config"
proof -
  have texts: "scalar_of smuggling_node name = []" for name
    by (simp add: scalar_of_def smuggling_node_def zero_Node_def)
  have "scalarsMap smuggling_node fs m = Inr m" for fs m
    unfolding scalarsMap_def by (induction fs) (simp_all add: texts split_beta)
  moreover have "joinHostPort ''h'' 1 = ''h:1''" by code_simp
  moreover have "addAddresses f [''10.0.0.2/32''] = Inr [V4 10 0 0 2]" for f
    by (simp add: addAddresses_def sample_address)
  moreover have "addAddresses f [] = Inr []" for f by (simp add: addAddresses_def)
  ultimately have "Node_Config smuggling_node = Inr smuggling_config"
    unfolding Node_Config_Inr_iff
    by (simp add: smuggling_node_def zero_Node_def smuggling_config_def keyToHex_sample
        pskToHex_def node_config_def)
  then show ?thesis by (simp add: ParseEndpoint_def smuggling_doc_decoded)
qed

text \<open>
  C37: A node of a subscription can put lines of its own into what the device is told.  A text with
  an escaped line break is taken as it is, and the rendering of a node with one peer and one
  allowed address is read by the device as two peers, the second with a key and an endpoint the
  configuration does not have.  (No \<^verbatim>\<open>.conf\<close> can do this: its rendering reads back as exactly
  its settings.)
\<close>

theorem ParseEndpoint_smuggles_lines:
  "\<exists>c es. ParseEndpoint smuggling_doc = Inr c \<and> length (AllowedIPs (peer c)) = 1 \<and>
     PublicKey (peer c) = sample_hex \<and> Endpoint (peer c) = ''h:1'' \<and>
     uapi_read (IPC c) = Some es \<and>
     entries_of ''public_key'' es = [sample_hex, ''00''] \<and>
     entries_of ''endpoint'' es = [''h:1'', ''evil:1''] \<and>
     entries_of ''allowed_ip'' es = [''0.0.0.0/0'']"
proof -
  let ?es = "[(''private_key'', sample_hex), (''public_key'', sample_hex), (''endpoint'', ''h:1''),
      (''allowed_ip'', ''0.0.0.0/0''), (''public_key'', ''00''), (''endpoint'', ''evil:1'')]"
  have "concat (map (\<lambda>key. (case fmlookup fmempty key of None \<Rightarrow> []
      | Some v \<Rightarrow> ipcLine (uapiName key) (uapiValue key v))) ks) = []" for ks :: "string list"
    by (induction ks) simp_all
  then have "IPC smuggling_config = uapi_doc ?es"
    by (simp add: IPC_def smuggling_config_def smuggled_def ipcLine_def)
  moreover have "uapi_read (uapi_doc ?es) = Some ?es"
    by (rule uapi.dec_enc) (simp add: uapi_valid_def newline_def is_hex_key_newline sample_hex_def numeral_eq_Suc)
  ultimately show ?thesis
    using smuggling_parsed
    by (intro exI [of _ smuggling_config] exI [of _ ?es]) (simp add: smuggling_config_def)
qed

theorem Parse_wf_witness: "wf_config smuggling_config"
proof -
  have "LooksLikeJSON smuggling_doc" by code_simp
  then have "Awg_Endpoint.Parse smuggling_doc = Inr smuggling_config"
    by (simp add: Awg_Endpoint.Parse_def smuggling_parsed)
  then show ?thesis using Parse_wf by blast
qed

end
