(* ===== verification/Service.thy ===== *)
theory Service
  imports Systunnel Go_Json
begin

text \<open>
  \<^verbatim>\<open>core/internal/ipc/protocol.go\<close>, and of \<^verbatim>\<open>core/cmd/caelo-service\<close> the messages, the
  handling of a request, the connection, the Linux socket and the shutdown.  Logging is left out.
  The versions of the build and the texts of errors are arguments.
\<close>

section \<open>The protocol\<close>

definition SocketPath :: string where
  "SocketPath = ''/run/caelo/caelo.sock''"

definition ProtocolVersion :: int where
  "ProtocolVersion = 1"

definition CommandConnect :: string where "CommandConnect = ''connect''"
definition CommandDisconnect :: string where "CommandDisconnect = ''disconnect''"
definition CommandStatus :: string where "CommandStatus = ''status''"
definition CommandVersion :: string where "CommandVersion = ''version''"

record Request =
  Command :: string
  ReqProtocolVersion :: int
  ReqConfig :: string

record Response =
  RespOK :: bool
  RespError :: string
  RespUp :: bool
  RespInterface :: string
  RespEndpoint :: string
  RespProtocol :: string
  RespObfuscated :: bool
  RespSinceUnix :: int
  RespHandshakeUnix :: int
  RespLatencyMs :: int
  RespCore :: string
  RespAmneziaWG :: string
  RespProtocolVersion :: int

definition zero_Request :: Request where
  "zero_Request = \<lparr>Command = [], ReqProtocolVersion = 0, ReqConfig = []\<rparr>"

definition zero_Response :: Response where
  "zero_Response =
     \<lparr>RespOK = False, RespError = [], RespUp = False, RespInterface = [], RespEndpoint = [],
      RespProtocol = [], RespObfuscated = False, RespSinceUnix = 0, RespHandshakeUnix = 0,
      RespLatencyMs = 0, RespCore = [], RespAmneziaWG = [], RespProtocolVersion = 0\<rparr>"

definition refusal :: "string \<Rightarrow> Response" where
  "refusal why = zero_Response\<lparr>RespError := why\<rparr>"

text \<open>Decoding a request, encoding a response: a member is left out when it is the zero value.\<close>

definition requestNames :: "string list" where
  "requestNames = [''command'', ''protocol_version'', ''config'']"

definition set_request_field :: "string \<Rightarrow> json \<Rightarrow> Request \<Rightarrow> Request option" where
  "set_request_field name j r =
     (if name = ''command'' then map_option (\<lambda>v. r\<lparr>Command := v\<rparr>) (into_string j (Command r))
      else if name = ''protocol_version'' then
        map_option (\<lambda>v. r\<lparr>ReqProtocolVersion := v\<rparr>) (into_int j (ReqProtocolVersion r))
      else map_option (\<lambda>v. r\<lparr>ReqConfig := v\<rparr>) (into_string j (ReqConfig r)))"

definition text_member :: "string \<Rightarrow> string \<Rightarrow> (string \<times> json) list" where
  "text_member k v = (if v = [] then [] else [(k, JString v)])"

definition int_member :: "string \<Rightarrow> int \<Rightarrow> (string \<times> json) list" where
  "int_member k v = (if v = 0 then [] else [(k, JNumber (Itoa v))])"

definition bool_member :: "string \<Rightarrow> bool \<Rightarrow> (string \<times> json) list" where
  "bool_member k v = (if v then [(k, JBool v)] else [])"

definition response_members :: "Response \<Rightarrow> (string \<times> json) list" where
  "response_members r =
     [(''ok'', JBool (RespOK r))] @ text_member ''error'' (RespError r)
     @ bool_member ''up'' (RespUp r) @ text_member ''interface'' (RespInterface r)
     @ text_member ''endpoint'' (RespEndpoint r) @ text_member ''protocol'' (RespProtocol r)
     @ bool_member ''obfuscated'' (RespObfuscated r) @ int_member ''since_unix'' (RespSinceUnix r)
     @ int_member ''handshake_unix'' (RespHandshakeUnix r) @ int_member ''latency_ms'' (RespLatencyMs r)
     @ text_member ''core'' (RespCore r) @ text_member ''amneziawg'' (RespAmneziaWG r)
     @ int_member ''protocol_version'' (RespProtocolVersion r)"

definition encode_response :: "Response \<Rightarrow> string" where
  "encode_response r = json_render (JObject (response_members r))"

section \<open>Handling a request\<close>

definition fromStatus :: "Status \<Rightarrow> Response" where
  "fromStatus s = zero_Response
     \<lparr>RespOK := True, RespUp := StUp s, RespInterface := StInterface s, RespEndpoint := StEndpoint s,
      RespProtocol := StProtocol s, RespObfuscated := StObfuscated s, RespSinceUnix := StSinceUnix s,
      RespHandshakeUnix := StHandshakeUnix s, RespLatencyMs := StLatencyMs s\<rparr>"

text \<open>The build: the product's version and the device layer's, and how errors read.\<close>

record Build =
  Version :: string
  AmneziaWG :: string
  errorText :: "tunnel_error \<Rightarrow> string"

definition olderApplication :: string where
  "olderApplication = ''this Caelo application is older than the Caelo service; update the application''"

definition olderService :: string where
  "olderService =
     ''the Caelo service is older than this application; reinstall Caelo to update the service''"

definition handle ::
  "Build \<Rightarrow> environment \<Rightarrow> nat \<Rightarrow> Request \<Rightarrow> Controller \<Rightarrow> (Response \<times> Controller) io" where
  "handle build env fuel request c =
     (if Command request = CommandVersion then
        ret (zero_Response\<lparr>RespOK := True, RespCore := Version build, RespAmneziaWG := AmneziaWG build,
               RespProtocolVersion := ProtocolVersion\<rparr>, c)
      else if ReqProtocolVersion request \<noteq> ProtocolVersion then
        ret (refusal (if ReqProtocolVersion request < ProtocolVersion then olderApplication else olderService), c)
      else if Command request = CommandStatus then do {
        (s, c') \<leftarrow> ControllerStatus env c;
        ret (fromStatus s, c')
      }
      else if Command request = CommandConnect then do {
        (r, c') \<leftarrow> Start env fuel (ReqConfig request) c;
        ret (case r of Inl e \<Rightarrow> refusal (errorText build e) | Inr s \<Rightarrow> fromStatus s, c')
      }
      else if Command request = CommandDisconnect then do {
        (r, c') \<leftarrow> Stop env c;
        ret (case r of Inl e \<Rightarrow> refusal (errorText build (Failure e))
                     | Inr _ \<Rightarrow> zero_Response\<lparr>RespOK := True\<rparr>, c')
      }
      else ret (refusal ''unknown command'', c))"

section \<open>A connection\<close>

text \<open>
  \<^verbatim>\<open>bufio.Scanner\<close> with a buffer of 256 KiB: the first line of what the peer sends, without a
  carriage return at its end.  \<open>None\<close> is \<^verbatim>\<open>Scan\<close> returning false: nothing was sent, or no line
  fits.
\<close>

definition maxLine :: nat where "maxLine = 256 * 1024"

definition scan_line :: "string \<Rightarrow> string option" where
  "scan_line input =
     (let line = takeWhile (\<lambda>c. c \<noteq> newline) input in
      if input = [] \<or> maxLine \<le> length line then None
      else Some (if HasSuffix line [CHR 0x0D] then butlast line else line))"

definition decode_request :: "string \<Rightarrow> Request option" where
  "decode_request line =
     Option.bind (json_parse line) (\<lambda>j. into_struct requestNames set_request_field j zero_Request)"

definition reply :: "Response \<Rightarrow> string" where
  "reply r = encode_response r @ [newline]"

text \<open>
  \<^verbatim>\<open>authorise\<close>: the kernel says who is there.  A connection that is not of a Unix socket
  is refused, and one whose peer the kernel does not name.
\<close>

definition authorise :: "environment \<Rightarrow> bool \<Rightarrow> (failure + unit) io" where
  "authorise env unix =
     (if \<not> unix then ret (Inl (Message ''not a unix socket''))
      else andThen (attempt env (Os ''SyscallConn'' [])) (\<lambda>_.
           andThen (attempt env (Os ''Control'' [])) (\<lambda>_.
           andThen (inContext ''establishing who is connected'' (attempt env (Os ''PeerCred'' []))) (\<lambda>_.
           ret (Inr ())))))"

text \<open>\<^verbatim>\<open>serve\<close>: what is written back to a peer, and what became of the controller.\<close>

definition serve ::
  "Build \<Rightarrow> environment \<Rightarrow> nat \<Rightarrow> bool \<Rightarrow> string \<Rightarrow> Controller \<Rightarrow> (string \<times> Controller) io" where
  "serve build env fuel unix input c = do {
     r \<leftarrow> authorise env unix;
     (case r of
        Inl e \<Rightarrow> ret ([], c)
      | Inr _ \<Rightarrow>
          (case scan_line input of
             None \<Rightarrow> ret ([], c)
           | Some line \<Rightarrow>
               (case decode_request line of
                  None \<Rightarrow> ret (reply (refusal ''malformed request''), c)
                | Some request \<Rightarrow> do {
                    (response, c') \<leftarrow> handle build env fuel request c;
                    ret (reply response, c')
                  })))
   }"

section \<open>The socket\<close>

definition listenFDStart :: int where "listenFDStart = 3"

text \<open>An integer from the process's environment.\<close>

definition env_int :: "environment \<Rightarrow> string \<Rightarrow> int option io" where
  "env_int env name = do {
     a \<leftarrow> ask env (Os ''Getenv'' [name]);
     ret (case a of Done v \<Rightarrow> ParseInt64 v | _ \<Rightarrow> None)
   }"

text \<open>\<^verbatim>\<open>activated\<close>: whether systemd passed a socket, and what went wrong taking it.\<close>

definition activated :: "environment \<Rightarrow> (bool \<times> (failure + unit)) io" where
  "activated env = do {
     claimed \<leftarrow> env_int env ''LISTEN_PID'';
     pid \<leftarrow> (case claimed of None \<Rightarrow> ret None | Some p \<Rightarrow> do {
         a \<leftarrow> ask env (Os ''Getpid'' []);
         ret (case a of Handle i \<Rightarrow> Some i | _ \<Rightarrow> None)
       });
     (if claimed = None \<or> claimed \<noteq> pid then ret (False, Inr ())
      else do {
        n \<leftarrow> env_int env ''LISTEN_FDS'';
        (case n of
           None \<Rightarrow> ret (False, Inr ())
         | Some count \<Rightarrow>
             if count < 1 then ret (False, Inr ())
             else if 1 < count then
               ret (True, Inl (Message (''systemd passed '' @ Itoa count @ '' sockets; this program serves one'')))
             else do {
               _ \<leftarrow> ask env (Os ''CloseOnExec'' [Itoa listenFDStart]);
               r \<leftarrow> attempt env (Os ''FileListener'' [Itoa listenFDStart]);
               _ \<leftarrow> ask env (Os ''CloseFile'' [Itoa listenFDStart]);
               ret (True, (case r of
                   Inl e \<Rightarrow> Inl (Context ''adopting the socket systemd passed'' e)
                 | Inr _ \<Rightarrow> Inr ()))
             })
      })
   }"

text \<open>\<^verbatim>\<open>filepath.Dir\<close> of a clean absolute path below the root.\<close>

definition Dir :: "string \<Rightarrow> string" where
  "Dir path = rev (tl (dropWhile (\<lambda>c. c \<noteq> CHR ''/'') (rev path)))"

definition listen :: "environment \<Rightarrow> string \<Rightarrow> (failure + bool) io" where
  "listen env path = do {
     (ok, r) \<leftarrow> activated env;
     (if ok then ret (map_sum id (\<lambda>_. True) r)
      else
        andThen (inContext ''creating the socket directory'' (attempt env (Os ''MkdirAll'' [Dir path, ''0755'']))) (\<lambda>_. do {
          _ \<leftarrow> ask env (RemoveFile path);
          andThen (inContext (''listening on '' @ path) (attempt env (Os ''Listen'' [''unix'', path]))) (\<lambda>_. do {
            r \<leftarrow> attempt env (Os ''Chmod'' [path, ''0600'']);
            (case r of
               Inr _ \<Rightarrow> ret (Inr False)
             | Inl e \<Rightarrow> do {
                 _ \<leftarrow> ask env (Os ''CloseListener'' [path]);
                 ret (Inl (Context ''setting socket permissions'' e))
               })
          })
        }))
   }"

text \<open>\<^verbatim>\<open>mustBePrivileged\<close> on Linux.\<close>

definition mustBePrivileged :: "environment \<Rightarrow> (failure + unit) io" where
  "mustBePrivileged env = do {
     a \<leftarrow> ask env (Os ''Geteuid'' []);
     ret (if a = Handle 0 then Inr ()
          else Inl (Message ''must run as root: this program exists to do what the app may not''))
   }"

text \<open>What \<^verbatim>\<open>main\<close> does before it serves, and how it says where.\<close>

definition startup :: "environment \<Rightarrow> string \<Rightarrow> (failure + bool) io" where
  "startup env path = andThen (mustBePrivileged env) (\<lambda>_. listen env path)"

definition describe :: "string \<Rightarrow> bool \<Rightarrow> string" where
  "describe path act = path @ (if act then '' (handed over by systemd)'' else '' (created here, root only)'')"

section \<open>Shutting down\<close>

text \<open>\<^verbatim>\<open>shutdown\<close>: the machine is restored, then the socket goes and the process exits.\<close>

definition restoreFirst :: "environment \<Rightarrow> Controller \<Rightarrow> Controller io" where
  "restoreFirst env c = do {
     (_, c1) \<leftarrow> ControllerStatus env c;
     (_, c2) \<leftarrow> Stop env c1;
     ret c2
   }"

definition closeSocket :: "environment \<Rightarrow> string \<Rightarrow> bool \<Rightarrow> unit io" where
  "closeSocket env path act = do {
     _ \<leftarrow> ask env (Os ''CloseListener'' [path]);
     (if act then ret () else do { _ \<leftarrow> ask env (RemoveFile path); ret () })
   }"

definition shutdown :: "environment \<Rightarrow> string \<Rightarrow> bool \<Rightarrow> Controller \<Rightarrow> Controller io" where
  "shutdown env path act c = do {
     c' \<leftarrow> restoreFirst env c;
     _ \<leftarrow> closeSocket env path act;
     ret c'
   }"

end
