(* ===== verification/Service_Process.thy ===== *)
theory Service_Process
  imports Service Systunnel_Properties
begin

text \<open>
  The process of \<^verbatim>\<open>core/cmd/caelo-service/main.go\<close>: its goroutines as steps that may come in
  any order.  One step is what happens under one lock: the controller's, or the idler's.
\<close>

section \<open>The idler\<close>

text \<open>
  Beside the fields of the source, what its channel and its timer hold: values in the channel, which
  has room for one; whether a call of \<^verbatim>\<open>fire\<close> waits for room, with the lock held; whether the
  timer runs; and how many calls of \<^verbatim>\<open>fire\<close> the timer has started that have not got the lock.
\<close>

record Idler =
  holders :: int
  fired :: bool
  expired :: nat
  sending :: bool
  armed :: bool
  due :: nat

definition newIdler :: Idler where
  "newIdler = \<lparr>holders = 0, fired = False, expired = 0, sending = False, armed = True, due = 0\<rparr>"

definition fire :: "Idler \<Rightarrow> Idler" where
  "fire i =
     (if 0 < holders i \<or> fired i then i
      else if expired i < 1 then i\<lparr>fired := True, expired := expired i + 1\<rparr>
      else i\<lparr>fired := True, sending := True\<rparr>)"

definition busy :: "Idler \<Rightarrow> Idler" where
  "busy i = i\<lparr>holders := holders i + 1, fired := False, armed := False\<rparr>"

definition idle :: "Idler \<Rightarrow> Idler" where
  "idle i =
     (let i' = i\<lparr>holders := holders i - 1\<rparr> in
      if holders i' \<le> 0 then i'\<lparr>holders := 0, armed := True\<rparr> else i')"

text \<open>The timer running out, and the channel being received from.\<close>

definition runOut :: "Idler \<Rightarrow> Idler" where
  "runOut i = i\<lparr>armed := False, due := due i + 1\<rparr>"

definition receive :: "Idler \<Rightarrow> Idler" where
  "receive i = (if sending i then i\<lparr>sending := False\<rparr> else i\<lparr>expired := expired i - 1\<rparr>)"

section \<open>The process\<close>

text \<open>The goroutine that waits for \<^verbatim>\<open>expired\<close>: waiting, about to ask for the status, with what
  the status said, returned because a tunnel was up, shutting down.\<close>

datatype Watcher = Waiting | Received | Checked bool | Returned | ShuttingDown

text \<open>
  Connections are those accepted and not answered, and those answered and not closed.  \<open>stopping\<close>:
  a shutdown has restored the machine and is about to exit; \<open>late\<close>: requests handled since.
\<close>

record Process =
  controller :: Controller
  history :: trace
  idler :: Idler
  watcher :: Watcher
  unanswered :: nat
  unclosed :: nat
  signalled :: bool
  stopping :: bool
  late :: nat
  exited :: bool

definition serving :: "trace \<Rightarrow> Process" where
  "serving t =
     \<lparr>controller = NewController, history = t, idler = newIdler, watcher = Waiting, unanswered = 0,
      unclosed = 0, signalled = False, stopping = False, late = 0, exited = False\<rparr>"

datatype move =
    Accept
  | Answer bool string
  | CloseConn
  | PacketOut instant bytes
  | PacketIn instant bytes
  | TimerRunsOut
  | Fire
  | Receive
  | Check
  | ReturnUp
  | ShutDownIdle
  | Signal
  | Exit

text \<open>A shutdown up to its exit, for whoever starts it.\<close>

definition restored :: "environment \<Rightarrow> Process \<Rightarrow> Process" where
  "restored env p =
     (let (c, t) = run_state (restoreFirst env (controller p)) (history p) in
      p\<lparr>controller := c, history := t, stopping := True, late := 0\<rparr>)"

definition with_meter :: "Process \<Rightarrow> (Meter \<Rightarrow> Meter option) \<Rightarrow> Process option" where
  "with_meter p f = map_option (\<lambda>m. p\<lparr>controller := (controller p)\<lparr>meter := Some m\<rparr>\<rparr>)
     (Option.bind (meter (controller p)) f)"

fun perform ::
  "Build \<Rightarrow> environment \<Rightarrow> nat \<Rightarrow> string \<Rightarrow> bool \<Rightarrow> move \<Rightarrow> Process \<Rightarrow> Process option" where
  "perform build env fuel path act Accept p =
     (if sending (idler p) then None
      else Some (p\<lparr>idler := busy (idler p), unanswered := unanswered p + 1\<rparr>))"
| "perform build env fuel path act (Answer unix input) p =
     (if unanswered p = 0 then None
      else
        (let ((out, c), t) = run_state (serve build env fuel unix input (controller p)) (history p) in
         Some (p\<lparr>controller := c, history := t, unanswered := unanswered p - 1,
                 unclosed := unclosed p + 1, late := late p + 1\<rparr>)))"
| "perform build env fuel path act CloseConn p =
     (if unclosed p = 0 \<or> sending (idler p) then None
      else Some (p\<lparr>idler := idle (idler p), unclosed := unclosed p - 1\<rparr>))"
| "perform build env fuel path act (PacketOut now pkt) p = with_meter p (Outbound now pkt)"
| "perform build env fuel path act (PacketIn now pkt) p = with_meter p (Inbound now pkt)"
| "perform build env fuel path act TimerRunsOut p =
     (if armed (idler p) then Some (p\<lparr>idler := runOut (idler p)\<rparr>) else None)"
| "perform build env fuel path act Fire p =
     (if due (idler p) = 0 \<or> sending (idler p) then None
      else Some (p\<lparr>idler := (fire (idler p))\<lparr>due := due (idler p) - 1\<rparr>\<rparr>))"
| "perform build env fuel path act Receive p =
     (if watcher p \<noteq> Waiting \<or> expired (idler p) = 0 then None
      else Some (p\<lparr>idler := receive (idler p), watcher := Received\<rparr>))"
| "perform build env fuel path act Check p =
     (if watcher p \<noteq> Received then None
      else
        (let ((s, c), t) = run_state (ControllerStatus env (controller p)) (history p) in
         Some (p\<lparr>controller := c, history := t, watcher := Checked (StUp s)\<rparr>)))"
| "perform build env fuel path act ReturnUp p =
     (if watcher p \<noteq> Checked True \<or> sending (idler p) then None
      else Some (p\<lparr>idler := busy (idler p), watcher := Returned\<rparr>))"
| "perform build env fuel path act ShutDownIdle p =
     (if watcher p \<noteq> Checked False then None else Some ((restored env p)\<lparr>watcher := ShuttingDown\<rparr>))"
| "perform build env fuel path act Signal p =
     (if signalled p then None else Some ((restored env p)\<lparr>signalled := True\<rparr>))"
| "perform build env fuel path act Exit p =
     (if \<not> stopping p then None
      else
        (let (_, t) = run_state (closeSocket env path act) (history p) in
         Some (p\<lparr>history := t, exited := True\<rparr>)))"

text \<open>Any number of steps, until the process is gone.\<close>

fun perform_all ::
  "Build \<Rightarrow> environment \<Rightarrow> nat \<Rightarrow> string \<Rightarrow> bool \<Rightarrow> move list \<Rightarrow> Process \<Rightarrow> Process option" where
  "perform_all build env fuel path act [] p = Some p"
| "perform_all build env fuel path act (e # es) p =
     (if exited p then None
      else Option.bind (perform build env fuel path act e p) (perform_all build env fuel path act es))"

end
