(* ===== verification/Go_Json_Codec.thy ===== *)
theory Go_Json_Codec
  imports Go_Json
begin

text \<open>
  Rendering and reading back: the messages of the program are flat objects whose members are
  booleans, integers and ASCII texts, and reading gives back what was rendered.
\<close>

section \<open>Texts\<close>

lemma hex_low_facts:
  "n < 16 \<Longrightarrow> hex_digit (hex_low n)" "n < 16 \<Longrightarrow> hex_digit_value (hex_low n) = n"
proof -
  have "\<forall>n < 16. hex_digit (hex_low n) \<and> hex_digit_value (hex_low n) = n" by code_simp
  then show "n < 16 \<Longrightarrow> hex_digit (hex_low n)" "n < 16 \<Longrightarrow> hex_digit_value (hex_low n) = n" by blast+
qed

text \<open>The three shapes of an escaped character: itself, a letter, four digits.\<close>

lemma json_char_cases:
  obtains (plain) "json_char c = [c]" "c \<noteq> quote" "c \<noteq> backslash" "0x20 \<le> code c"
  | (short) e where "json_char c = [backslash, e]" "escaped_char e = c" "e \<noteq> CHR ''u''"
      "e \<in> set [quote, backslash, CHR ''/'', CHR ''b'', CHR ''f'', CHR ''n'', CHR ''r'', CHR ''t'']"
  | (long) "json_char c =
      [backslash, CHR ''u'', CHR ''0'', CHR ''0'', hex_low (code c div 16), hex_low (code c mod 16)]"
      "code c < 0x80"
proof -
  let ?named = "[(quote, quote), (backslash, backslash), (CHR 0x08, CHR ''b''), (CHR 0x0C, CHR ''f''),
      (CHR 0x0A, CHR ''n''), (CHR 0x0D, CHR ''r''), (CHR 0x09, CHR ''t'')]"
  show thesis
  proof (cases "map_of ?named c")
    case (Some e)
    have named: "list_all (\<lambda>(c, e). json_char c = [backslash, e] \<and> escaped_char e = c \<and> e \<noteq> CHR ''u'' \<and>
        e \<in> set [quote, backslash, CHR ''/'', CHR ''b'', CHR ''f'', CHR ''n'', CHR ''r'', CHR ''t'']) ?named"
      by code_simp
    then show thesis
      using map_of_SomeD [OF Some] short [of e] unfolding list_all_iff by blast
  next
    case None
    then have other: "c \<noteq> quote" "c \<noteq> backslash" "c \<noteq> CHR 0x08" "c \<noteq> CHR 0x0C" "c \<noteq> CHR 0x0A"
      "c \<noteq> CHR 0x0D" "c \<noteq> CHR 0x09" by (auto simp: map_of_eq_None_iff)
    show thesis
    proof (cases "code c < 0x20 \<or> c = CHR ''<'' \<or> c = CHR ''>'' \<or> c = CHR ''&''")
      case True
      then have "code c < 0x80" by (auto simp: code_def)
      with True other show thesis by (intro long) (simp_all add: json_char_def)
    next
      case False
      with other show thesis by (intro plain) (simp_all add: json_char_def)
    qed
  qed
qed

lemma scan_json_char:
  "scan_string (json_char c @ t) = map_option (\<lambda>(body, rest). (json_char c @ body, rest)) (scan_string t)"
proof (cases c rule: json_char_cases)
  case plain
  then show ?thesis by simp
next
  case (short e)
  then show ?thesis by simp
next
  case long
  have "hex_digit (hex_low (code c div 16))" "hex_digit (hex_low (code c mod 16))" "hex_digit CHR ''0''"
    using long(2) by (auto intro!: hex_low_facts(1)) (simp add: hex_digit_def is_digit_def code_def)
  with long show ?thesis by (simp add: list_all_iff)
qed

lemma unquote_json_char:
  assumes "ascii c"
  shows "unquote (json_char c @ t) = c # unquote t"
proof (cases c rule: json_char_cases)
  case plain
  then show ?thesis using assms by (simp add: unquote.simps [of "c # t"] ascii_def)
next
  case (short e)
  then show ?thesis by (simp add: unquote.simps [of "backslash # e # t"])
next
  case long
  let ?h = "hex_low (code c div 16)" and ?l = "hex_low (code c mod 16)"
  have "hex4 [CHR ''0'', CHR ''0'', ?h, ?l] = code c"
    using long(2) hex_low_facts(2) [of "code c div 16"] hex_low_facts(2) [of "code c mod 16"]
    by (simp add: hex4_def hex_digit_value_def [of "CHR ''0''"] is_digit_def digit_val_def code_def)
  moreover have "encode_rune (code c) = [c]"
    using long(2) by (simp add: encode_rune_def code_def)
  moreover have "\<not> surrogate (code c)"
    using long(2) by (simp add: surrogate_def between_def)
  ultimately show ?thesis
    using long by (simp add: unquote.simps [of "backslash # CHR ''u'' # _"] Let_def)
qed

definition escaped :: "string \<Rightarrow> string" where
  "escaped s = concat (map json_char s)"

lemma json_string_ascii: "list_all ascii s \<Longrightarrow> json_string s = quote # escaped s @ [quote]"
proof -
  assume s: "list_all ascii s"
  then have "concat (map json_rune (runes s)) = escaped s"
    unfolding escaped_def runes_all_ascii [OF s]
    by (induction s) (auto simp: json_rune_def ascii_def)
  then show ?thesis by (simp add: json_string_def)
qed

lemma scan_escaped: "scan_string (escaped s @ quote # r) = Some (escaped s, r)"
  by (induction s) (simp_all add: escaped_def scan_json_char)

lemma unquote_escaped: "list_all ascii s \<Longrightarrow> unquote (escaped s) = s"
proof (induction s)
  case Nil
  then show ?case by (simp add: escaped_def unquote.simps)
next
  case (Cons c s)
  then show ?case using unquote_json_char [of c "escaped s"] by (simp add: escaped_def)
qed

section \<open>Numbers\<close>

text \<open>What may follow a value in a document.\<close>

definition ends_value :: "string \<Rightarrow> bool" where
  "ends_value r \<longleftrightarrow> r = [] \<or> hd r \<in> set '',}]'' \<or> json_space (hd r)"

lemma nat_digits_zero: "HasPrefix (nat_digits n) ''0'' \<longleftrightarrow> n = 0"
proof (induction n rule: nat_digits.induct)
  case (1 n)
  show ?case
  proof (cases "n < 10")
    case True
    have small: "\<forall>n < 10. digit_char n = CHR ''0'' \<longleftrightarrow> n = 0" by code_simp
    with True show ?thesis by (simp add: nat_digits.simps [of n] HasPrefix_Cons)
  next
    case False
    obtain d ds where d: "nat_digits (n div 10) = d # ds" by (cases "nat_digits (n div 10)") auto
    have "n div 10 \<noteq> 0" using False by simp
    then have "d \<noteq> CHR ''0''" using 1 [OF False] d by (simp add: HasPrefix_Cons)
    moreover have "nat_digits n = d # ds @ [digit_char (n mod 10)]"
      using False d by (simp add: nat_digits.simps [of n])
    ultimately show ?thesis using False by (simp add: HasPrefix_Cons)
  qed
qed

lemma not_number_part:
  assumes "ends_value r"
  shows "list_all is_digit ds \<Longrightarrow> takeWhile is_digit (ds @ r) = takeWhile is_digit ds"
    and "scan_fraction r = Some ([], r)" and "scan_exponent r = Some ([], r)"
proof -
  have hd: "\<not> is_digit (hd r) \<and> hd r \<noteq> CHR ''.'' \<and> hd r \<noteq> CHR ''e'' \<and> hd r \<noteq> CHR ''E''" if "r \<noteq> []"
    using assms that by (auto simp: ends_value_def json_space_def is_digit_def code_def)
  then show "scan_fraction r = Some ([], r)" "scan_exponent r = Some ([], r)"
    by (cases r; simp add: scan_fraction_def scan_exponent_def)+
  assume ds: "list_all is_digit ds"
  show "takeWhile is_digit (ds @ r) = takeWhile is_digit ds"
  proof (cases r)
    case (Cons x xs)
    with hd have "\<not> is_digit x" by simp
    with ds show ?thesis unfolding Cons by (induction ds) simp_all
  qed simp
qed

lemma scan_number_Itoa:
  assumes "ends_value r"
  shows "scan_number (Itoa i @ r) = Some (Itoa i, r)"
proof -
  have digits: "scan_number (nat_digits n @ r) = Some (nat_digits n, r)"
    "\<not> HasPrefix (nat_digits n @ r) ''-''" for n
  proof -
    have neg: "\<not> HasPrefix (nat_digits n @ r) ''-''"
      using digits_no_sign [OF nat_digits_digits [of n]] nat_digits_neq_Nil [of n]
      by (cases "nat_digits n") (auto simp: HasPrefix_Cons)
    then show "\<not> HasPrefix (nat_digits n @ r) ''-''" .
    have tw: "takeWhile is_digit (nat_digits n @ r) = nat_digits n"
      using not_number_part(1) [OF assms nat_digits_digits [of n]] nat_digits_digits [of n]
      by (simp add: list_all_iff)
    have "HasPrefix (nat_digits n @ r) ''0'' \<longleftrightarrow> n = 0"
      using nat_digits_zero [of n] nat_digits_neq_Nil [of n]
      by (cases "nat_digits n") (auto simp: HasPrefix_Cons)
    moreover have "nat_digits 0 = ''0''" by code_simp
    ultimately show "scan_number (nat_digits n @ r) = Some (nat_digits n, r)"
      using neg tw not_number_part(2,3) [OF assms] by (simp add: scan_number_def Let_def)
  qed
  show ?thesis
  proof (cases "i < 0")
    case True
    have "HasPrefix (CHR ''-'' # nat_digits (nat (- i)) @ r) ''-''" by (simp add: HasPrefix_Cons)
    with True digits [of "nat (- i)"] show ?thesis
      by (auto simp: Itoa_def scan_number_def Let_def bind_eq_Some_conv split: if_splits prod.splits)
  next
    case False
    with digits show ?thesis by (simp add: Itoa_def)
  qed
qed

section \<open>Flat objects\<close>

definition scalar :: "json \<Rightarrow> bool" where
  "scalar v \<longleftrightarrow>
     (case v of
        JBool b \<Rightarrow> True
      | JNumber t \<Rightarrow> (\<exists>i. t = Itoa i)
      | JString s \<Rightarrow> list_all ascii s
      | _ \<Rightarrow> False)"

lemma skip_first [simp]: "\<not> json_space c \<Longrightarrow> skip (c # s) = c # s"
  by simp

lemma not_space [simp]:
  "\<not> json_space quote" "\<not> json_space CHR ''{''" "\<not> json_space CHR ''}''" "\<not> json_space CHR '':''"
  "\<not> json_space CHR '',''" "\<not> json_space CHR ''t''" "\<not> json_space CHR ''f''"
  by (simp_all add: json_space_def)

lemma Itoa_first:
  obtains c cs where "Itoa i = c # cs" "is_digit c \<or> c = CHR ''-''"
  using Itoa_chars [of "hd (Itoa i)" i] nat_digits_neq_Nil
  by (cases "Itoa i") (auto simp: Itoa_def split: if_splits)

lemma read_scalar:
  assumes "scalar v" and "ends_value r"
  shows "json_value (Suc f) d (json_render v @ r) = Some (v, r)"
proof (cases v)
  case (JBool b)
  then show ?thesis by (cases b) (simp_all add: HasPrefix_Cons)
next
  case (JNumber t)
  with assms(1) obtain i where t: "t = Itoa i" by (auto simp: scalar_def)
  obtain c cs where c: "Itoa i = c # cs" "is_digit c \<or> c = CHR ''-''" by (rule Itoa_first)
  have first: "\<not> json_space c" "c \<noteq> quote" "c \<noteq> CHR ''{''" "c \<noteq> CHR ''[''"
    "\<not> HasPrefix (c # cs @ r) ''null''" "\<not> HasPrefix (c # cs @ r) ''true''"
    "\<not> HasPrefix (c # cs @ r) ''false''"
    using c(2) by (auto simp: json_space_def is_digit_def code_def HasPrefix_Cons)
  have "scan_number (c # cs @ r) = Some (Itoa i, r)"
    using scan_number_Itoa [OF assms(2), of i] c(1) by simp
  with first show ?thesis unfolding JNumber t by (simp add: c(1))
next
  case (JString s)
  with assms(1) have s: "list_all ascii s" by (simp add: scalar_def)
  show ?thesis
    unfolding JString
    using scan_escaped [of s r] unquote_escaped [OF s] by (simp add: json_string_ascii [OF s])
qed (use assms(1) in \<open>simp_all add: scalar_def\<close>)

definition flat :: "(string \<times> json) list \<Rightarrow> bool" where
  "flat ms \<longleftrightarrow> (\<forall>(k, v) \<in> set ms. list_all ascii k \<and> scalar v)"

lemma read_members:
  assumes "flat ms" and "ms \<noteq> []" and "length ms < f"
  shows "json_members f d
      (Join (map (\<lambda>(k, v). json_string k @ '':'' @ json_render v) ms) '','' @ CHR ''}'' # r) = Some (ms, r)"
  using assms
proof (induction ms arbitrary: f)
  case (Cons m ms)
  obtain k v where m: "m = (k, v)" by fastforce
  obtain g where f: "f = Suc (Suc g)" using Cons.prems(3) by (cases f; cases "f - 1") auto
  have k: "list_all ascii k" and v: "scalar v" and rest: "flat ms"
    using Cons.prems(1) by (auto simp: flat_def m)
  let ?key = "\<lambda>t. quote # escaped k @ quote # CHR '':'' # json_render v @ t"
  have read: "json_members f d (?key t) =
      (case skip t of
         [] \<Rightarrow> None
       | c # u \<Rightarrow>
           if c = CHR '','' then map_option (\<lambda>(ms, w). ((unquote (escaped k), v) # ms, w)) (json_members (Suc g) d u)
           else if c = CHR ''}'' then Some ([(unquote (escaped k), v)], u) else None)" if "ends_value t" for t
    using that read_scalar [OF v that, of g d] scan_escaped [of k "CHR '':'' # json_render v @ t"]
    by (simp add: f HasPrefix_Cons del: json_value.simps)
  show ?case
  proof (cases ms)
    case Nil
    have "ends_value (CHR ''}'' # r)" by (simp add: ends_value_def)
    from read [OF this] show ?thesis
      by (simp add: Nil m json_string_ascii [OF k] unquote_escaped [OF k] del: json_members.simps)
  next
    case (Cons m' ms')
    let ?tail = "Join (map (\<lambda>(k, v). json_string k @ '':'' @ json_render v) ms) '','' @ CHR ''}'' # r"
    have "ends_value (CHR '','' # ?tail)" by (simp add: ends_value_def)
    moreover have "json_members (Suc g) d ?tail = Some (ms, r)"
      by (rule Cons.IH) (use rest Cons Cons.prems(3) f in simp_all)
    ultimately have "json_members f d (?key (CHR '','' # ?tail)) = Some (m # ms, r)"
      using read [of "CHR '','' # ?tail"] by (simp add: m unquote_escaped [OF k] del: json_members.simps)
    then show ?thesis by (simp add: Cons m json_string_ascii [OF k] del: json_members.simps)
  qed
qed simp

lemma Join_length: "(\<And>x. x \<in> set xs \<Longrightarrow> 0 < length x) \<Longrightarrow> length xs \<le> length (Join xs sep)"
proof (induction xs sep rule: Join.induct)
  case (3 x y ys sep)
  have "0 < length x" "length (y # ys) \<le> length (Join (y # ys) sep)" using 3 by auto
  then have "Suc (length (y # ys)) \<le> length x + length (Join (y # ys) sep)" by linarith
  then show ?case by simp
qed (simp_all add: Suc_le_eq)

text \<open>What is rendered is read back.\<close>

lemma json_flat:
  assumes "flat ms"
  shows "json_parse (json_render (JObject ms)) = Some (JObject ms)"
proof (cases "ms = []")
  case True
  then show ?thesis by (simp add: json_parse_def maxNestingDepth_def HasPrefix_Cons numeral_eq_Suc)
next
  case False
  let ?body = "Join (map (\<lambda>(k, v). json_string k @ '':'' @ json_render v) ms) '','' @ ''}''"
  have "length ms \<le> length (Join (map (\<lambda>(k, v). json_string k @ '':'' @ json_render v) ms) '','')"
    using Join_length [of "map (\<lambda>(k, v). json_string k @ '':'' @ json_render v) ms" "'',''"]
    by (simp add: json_string_def split_beta image_iff) fastforce
  then have "length ms < 2 * length (CHR ''{'' # ?body) + 1" by simp
  from read_members [OF assms False this, where r = "[]" and d = "maxNestingDepth - 1"]
  have members: "json_members (2 * length (CHR ''{'' # ?body) + 1) (maxNestingDepth - 1) ?body = Some (ms, [])" .
  obtain t where "?body = quote # t"
    using False by (cases ms; cases "tl ms") (auto simp: json_string_def)
  then have "\<not> HasPrefix (skip ?body) ''}''" by (simp add: HasPrefix_Cons)
  then have "json_value (Suc (2 * length (CHR ''{'' # ?body) + 1)) maxNestingDepth (CHR ''{'' # ?body) =
      Some (JObject ms, [])"
    using members by (simp add: maxNestingDepth_def)
  then show ?thesis by (simp add: json_parse_def)
qed

end
