(* ===== verification/Service_Properties.thy ===== *)
theory Service_Properties
  imports Service_Process Go_Json_Codec
begin

text \<open>
  The properties of the privileged service: what a request is answered and what a refused one
  touches, the socket, the reply as the application reads it, the machine when the process exits,
  and the idler.
\<close>

section \<open>One request\<close>

lemma quiet_os [simp]:
  "effect (Os f xs, a) m = m" "path \<noteq> resolvConf \<Longrightarrow> effect (RemoveFile path, a) m = m"
  by (simp_all add: effect_def split: answer.split)

lemma authorise_keeps: "(\<And>t f xs a. I t \<Longrightarrow> I (t @ [(Os f xs, a)])) \<Longrightarrow> keeps I (authorise env unix)"
  unfolding authorise_def
  by (intro keeps_if keeps_andThen keeps_inContext keeps_ret keeps_attempt)

definition safe :: "machine \<Rightarrow> Controller \<Rightarrow> trace \<Rightarrow> bool" where
  "safe m0 c t \<longleftrightarrow> up m0 c t \<or> down m0 c t"

lemma safe_quiet: "safe m0 c t \<Longrightarrow> (\<And>m. effect (d, a) m = m) \<Longrightarrow> (\<And>o'. open_step (d, a) o' = o') \<Longrightarrow>
    safe m0 c (t @ [(d, a)])"
  unfolding safe_def using up_quiet down_quiet by blast

lemma Start_safe:
  assumes "cooperative m0 env" "safe m0 c t" "run_state (Start env fuel txt c) t = ((r, c'), t')"
  shows "safe m0 c' t'"
  using Start_post [OF assms(1) assms(2) [unfolded safe_def] assms(3)] started_up
  by (cases r) (auto simp: safe_def)

lemma Stop_down:
  assumes "cooperative m0 env" "safe m0 c t" "run_state (Stop env c) t = ((r, c'), t')"
  shows "down m0 c' t'"
  using tripleD [OF stopLocked_down [OF assms(1)] assms(2) [unfolded safe_def]] assms(3)
  by (auto simp: Stop_def)

lemma status_safe:
  "safe m0 c t \<Longrightarrow> run_state (ControllerStatus env c) t = ((s, c'), t') \<Longrightarrow> safe m0 c' t'"
  unfolding safe_def using status_up_down by blast

lemma handle_safe:
  assumes "cooperative m0 env" "safe m0 c t" "run_state (handle build env fuel q c) t = ((r, c'), t')"
  shows "safe m0 c' t'"
proof -
  obtain s c1 t1 where st: "run_state (ControllerStatus env c) t = ((s, c1), t1)" by (metis prod.exhaust)
  obtain x c2 t2 where start: "run_state (Start env fuel (ReqConfig q) c) t = ((x, c2), t2)" by (metis prod.exhaust)
  obtain y c3 t3 where stop: "run_state (Stop env c) t = ((y, c3), t3)" by (metis prod.exhaust)
  have "safe m0 c1 t1" "safe m0 c2 t2" "safe m0 c3 t3"
    using status_safe [OF assms(2) st] Start_safe [OF assms(1,2) start] Stop_down [OF assms(1,2) stop]
    by (simp_all add: safe_def)
  then show ?thesis
    using assms(2,3) st start stop by (auto simp: handle_def split: if_splits)
qed

lemma serve_safe:
  assumes "cooperative m0 env" "safe m0 c t" "run_state (serve build env fuel unix input c) t = ((out, c'), t')"
  shows "safe m0 c' t'"
proof -
  obtain r t1 where auth: "run_state (authorise env unix) t = (r, t1)" by fastforce
  have "keeps (safe m0 c) (authorise env unix)"
    by (rule authorise_keeps) (simp add: safe_quiet)
  from keepsD [OF this assms(2)] have t1: "safe m0 c t1" using auth by simp
  show ?thesis
  proof (cases "\<exists>u line q. r = Inr u \<and> scan_line input = Some line \<and> decode_request line = Some q")
    case True
    then obtain q u line where q: "r = Inr u" "scan_line input = Some line" "decode_request line = Some q" by blast
    obtain x c1 t2 where run: "run_state (handle build env fuel q c) t1 = ((x, c1), t2)" by (metis prod.exhaust)
    then have "c' = c1 \<and> t' = t2" using assms(3) auth q by (simp add: serve_def)
    with handle_safe [OF assms(1) t1 run] show ?thesis by simp
  next
    case False
    then have "c' = c \<and> t' = t1"
      using assms(3) auth by (auto simp: serve_def split: sum.splits option.splits)
    with t1 show ?thesis by simp
  qed
qed

lemma restoreFirst_down:
  assumes "cooperative m0 env" "safe m0 c t" "run_state (restoreFirst env c) t = (c', t')"
  shows "down m0 c' t'"
proof -
  obtain s c1 t1 where st: "run_state (ControllerStatus env c) t = ((s, c1), t1)" by (metis prod.exhaust)
  obtain y c2 t2 where stop: "run_state (Stop env c1) t1 = ((y, c2), t2)" by (metis prod.exhaust)
  have "down m0 c2 t2" using Stop_down [OF assms(1) status_safe [OF assms(2) st] stop] .
  then show ?thesis using assms(3) st stop by (simp add: restoreFirst_def)
qed

lemma closeSocket_keeps:
  assumes "path \<noteq> resolvConf"
  shows "keeps (down m0 c) (closeSocket env path act)" "keeps (safe m0 c) (closeSocket env path act)"
  unfolding closeSocket_def
  by (intro keeps_bind keeps_if keeps_ask keeps_ret down_quiet safe_quiet; simp add: assms)+

lemma startup_calm:
  assumes "path \<noteq> resolvConf"
  shows "keeps (calm m0 opn) (startup env path)"
proof -
  have os: "calm m0 opn (t @ [(Os f xs, a)])" "calm m0 opn (t @ [(RemoveFile path, a)])"
    if "calm m0 opn t" for t f xs a
    by (rule calm_quiet [OF that]; simp add: assms)+
  have env: "keeps (calm m0 opn) (env_int env name)" for name
    unfolding env_int_def by (intro keeps_bind keeps_ask keeps_ret os)
  have act: "keeps (calm m0 opn) (activated env)"
    unfolding activated_def
    by (auto intro!: keeps_bind keeps_if env keeps_ret keeps_ask keeps_attempt os split: option.split)
  show ?thesis
    unfolding startup_def mustBePrivileged_def listen_def
    by (auto intro!: keeps_andThen keeps_bind keeps_if keeps_inContext keeps_ask keeps_attempt keeps_ret act os
        split: sum.split)
qed

section \<open>The process\<close>

inductive reachable ::
  "Build \<Rightarrow> environment \<Rightarrow> nat \<Rightarrow> string \<Rightarrow> bool \<Rightarrow> Process \<Rightarrow> bool" for build env fuel path where
  serve: "run_state (startup env path) [] = (Inr act, t) \<Longrightarrow> reachable build env fuel path act (serving t)"
| step: "reachable build env fuel path act p \<Longrightarrow> \<not> exited p \<Longrightarrow>
    perform build env fuel path act e p = Some p' \<Longrightarrow> reachable build env fuel path act p'"

text \<open>What every step keeps of the machine, of the counts and of how a shutdown comes about.\<close>

definition sound :: "machine \<Rightarrow> Process \<Rightarrow> bool" where
  "sound m0 p \<longleftrightarrow>
     safe m0 (controller p) (history p) \<and>
     (stopping p \<and> late p = 0 \<longrightarrow> down m0 (controller p) (history p)) \<and>
     (exited p \<longrightarrow> stopping p)"

definition tallies :: "nat \<Rightarrow> Idler \<Rightarrow> bool" where
  "tallies n i \<longleftrightarrow>
     holders i = int n \<and> expired i \<le> 1 \<and> (sending i \<longrightarrow> expired i = 1) \<and> (0 < n \<longrightarrow> \<not> armed i)"

definition counted :: "Process \<Rightarrow> bool" where
  "counted p \<longleftrightarrow>
     tallies (unanswered p + unclosed p + (if watcher p = Returned then 1 else 0)) (idler p) \<and>
     (exited p \<longrightarrow> stopping p) \<and>
     (stopping p \<longrightarrow> signalled p \<or> watcher p = ShuttingDown)"

lemma with_meter_Some:
  "with_meter p f = Some p' \<Longrightarrow> \<exists>m. p' = p\<lparr>controller := (controller p)\<lparr>meter := Some m\<rparr>\<rparr>"
  by (auto simp: with_meter_def bind_eq_Some_conv)

lemma safe_meter [simp]: "safe m0 (c\<lparr>meter := mo\<rparr>) t \<longleftrightarrow> safe m0 c t"
  by (simp add: safe_def)

lemma restored_sound:
  assumes "cooperative m0 env" "sound m0 p"
  shows "down m0 (controller (restored env p)) (history (restored env p))" "stopping (restored env p)"
    "exited (restored env p) = exited p"
proof -
  obtain c t where run: "run_state (restoreFirst env (controller p)) (history p) = (c, t)" by fastforce
  have "down m0 c t" using restoreFirst_down [OF assms(1) _ run] assms(2) by (simp add: sound_def)
  with run show "down m0 (controller (restored env p)) (history (restored env p))" by (simp add: restored_def)
  show "stopping (restored env p)" "exited (restored env p) = exited p"
    using run by (simp_all add: restored_def)
qed

lemma perform_sound:
  assumes coop: "cooperative m0 env" and path: "path \<noteq> resolvConf"
    and p: "sound m0 p" and run: "perform build env fuel path act e p = Some p'"
  shows "sound m0 p'"
proof (cases e)
  case (Answer unix input)
  obtain out c t where s: "run_state (serve build env fuel unix input (controller p)) (history p) = ((out, c), t)"
    by (metis prod.exhaust)
  have "safe m0 c t" using serve_safe [OF coop _ s] p by (simp add: sound_def)
  then show ?thesis using run p s Answer by (auto simp: sound_def split: if_splits)
next
  case Check
  obtain s c t where st: "run_state (ControllerStatus env (controller p)) (history p) = ((s, c), t)"
    by (metis prod.exhaust)
  have "safe m0 c t" using status_safe [OF _ st] p by (simp add: sound_def)
  moreover have "down m0 (controller p) (history p) \<Longrightarrow> down m0 c t" using status_up_down(2) [OF st] .
  ultimately show ?thesis using run p st Check by (auto simp: sound_def split: if_splits)
next
  case Exit
  obtain t where s: "run_state (closeSocket env path act) (history p) = ((), t)"
    by (cases "run_state (closeSocket env path act) (history p)") simp
  have "safe m0 (controller p) t"
    using keepsD [OF closeSocket_keeps(2) [OF path, of m0 "controller p" env act], of "history p"] p s by (simp add: sound_def)
  moreover have "down m0 (controller p) (history p) \<Longrightarrow> down m0 (controller p) t"
    using keepsD [OF closeSocket_keeps(1) [OF path, of m0 "controller p" env act], of "history p"] s by simp
  ultimately show ?thesis using run p s Exit by (auto simp: sound_def split: if_splits)
next
  case ShutDownIdle
  then show ?thesis
    using run restored_sound [OF coop p] by (auto simp: sound_def safe_def split: if_splits)
next
  case Signal
  then show ?thesis
    using run restored_sound [OF coop p] by (auto simp: sound_def safe_def split: if_splits)
next
  case (PacketOut now pkt)
  then show ?thesis using run p with_meter_Some by (fastforce simp: sound_def)
next
  case (PacketIn now pkt)
  then show ?thesis using run p with_meter_Some by (fastforce simp: sound_def)
qed (use p run in \<open>auto simp: sound_def split: if_splits\<close>)


lemma reachable_sound:
  assumes "reachable build env fuel path act p" and "cooperative m0 env" and "path \<noteq> resolvConf"
  shows "sound m0 p"
  using assms(1)
proof (induction rule: reachable.induct)
  case (serve act t)
  have "calm m0 nothing_open t"
    using keepsD [OF startup_calm [OF assms(3)], of m0 nothing_open "[]" env] serve
    by (simp add: calm_def)
  then show ?case by (simp add: sound_def safe_def down_def serving_def NewController_def)
next
  case (step act p e p')
  show ?case by (rule perform_sound [OF assms(2,3) step.IH step.hyps(3)])
qed

lemma tallies_steps [simp]:
  "tallies n i \<Longrightarrow> tallies (Suc n) (busy i)"
  "tallies (Suc n) i \<Longrightarrow> tallies n (idle i)"
  "tallies n i \<Longrightarrow> armed i \<Longrightarrow> tallies n (runOut i)"
  "tallies n i \<Longrightarrow> \<not> sending i \<Longrightarrow> tallies n ((fire i)\<lparr>due := d\<rparr>)"
  "tallies n i \<Longrightarrow> 0 < expired i \<Longrightarrow> tallies n (receive i)"
  by (auto simp: tallies_def busy_def idle_def runOut_def fire_def receive_def Let_def)

lemma restored_fields [simp]:
  "idler (restored env p) = idler p" "watcher (restored env p) = watcher p"
  "unanswered (restored env p) = unanswered p" "unclosed (restored env p) = unclosed p"
  "signalled (restored env p) = signalled p" "stopping (restored env p)" "exited (restored env p) = exited p"
  by (simp_all add: restored_def split: prod.split)

lemma perform_counted:
  assumes p: "counted p" and run: "perform build env fuel path act e p = Some p'"
  shows "counted p'"
proof (cases e)
  case (Answer unix input)
  have "unanswered p - 1 + (unclosed p + 1) = unanswered p + unclosed p" if "unanswered p \<noteq> 0"
    using that by simp
  then show ?thesis using Answer run p by (auto simp: counted_def split: if_splits prod.splits)
next
  case (PacketOut now pkt)
  then show ?thesis using run p with_meter_Some by (fastforce simp: counted_def)
next
  case (PacketIn now pkt)
  then show ?thesis using run p with_meter_Some by (fastforce simp: counted_def)
next
  case CloseConn
  then have c: "0 < unclosed p" "p' = p\<lparr>idler := idle (idler p), unclosed := unclosed p - 1\<rparr>"
    using run by (auto split: if_splits)
  let ?r = "if watcher p = Returned then 1 else 0"
  have "tallies (Suc (unanswered p + (unclosed p - 1) + ?r)) (idler p)"
    using p c(1) by (simp add: counted_def)
  then have "tallies (unanswered p + (unclosed p - 1) + ?r) (idle (idler p))" by (rule tallies_steps(2))
  then show ?thesis using p c(2) by (simp add: counted_def)
qed (use p run in \<open>auto simp: counted_def split: if_splits prod.splits\<close>)

lemma reachable_counted: "reachable build env fuel path act p \<Longrightarrow> counted p"
proof (induction rule: reachable.induct)
  case (serve act t)
  show ?case by (simp add: counted_def tallies_def serving_def newIdler_def)
next
  case (step act p e p')
  show ?case by (rule perform_counted [OF step.IH step.hyps(3)])
qed

lemma perform_all_counted:
  "counted p \<Longrightarrow> perform_all build env fuel path act es p = Some p' \<Longrightarrow> counted p'"
  by (induction es arbitrary: p) (auto simp: bind_eq_Some_conv dest: perform_counted split: if_splits)

text \<open>The goroutine that has returned stays returned.\<close>

lemma perform_returned:
  "perform build env fuel path act e p = Some p' \<Longrightarrow> watcher p = Returned \<Longrightarrow> watcher p' = Returned"
  by (cases e) (auto split: if_splits prod.splits dest!: with_meter_Some)

lemma perform_all_returned:
  "perform_all build env fuel path act es p = Some p' \<Longrightarrow> watcher p = Returned \<Longrightarrow> watcher p' = Returned"
  by (induction es arbitrary: p) (auto simp: bind_eq_Some_conv dest: perform_returned split: if_splits)

end
