(* ===== verification/Service_Theorems.thy ===== *)
theory Service_Theorems
  imports Service_Properties
begin

text \<open>
  What the privileged service guarantees, and where it does not: the machine when the process has
  exited, the idler, and one request.  The runs are on a machine that cooperates.
\<close>

section \<open>Runs on a machine that cooperates\<close>

definition service_environment :: environment where
  "service_environment t c = (if c = Os ''Geteuid'' [] then Handle 0 else served_environment t c)"

lemma service_cooperative: "cooperative sample_machine service_environment"
proof -
  have same: "service_environment t (Exec p xs) = served_environment t (Exec p xs)"
    "service_environment t (RemoveFile f) = served_environment t (RemoveFile f)"
    "service_environment t (WriteFile f x) = served_environment t (WriteFile f x)"
    "service_environment t (Symlink l f) = served_environment t (Symlink l f)"
    "service_environment t (Readlink f) = served_environment t (Readlink f)"
    "service_environment t (ReadFile f) = served_environment t (ReadFile f)" for t p xs f x l
    by (simp_all add: service_environment_def)
  show ?thesis
    using served_cooperative unfolding cooperative_def honest_def obliging_def Let_def same .
qed

definition sample_build :: Build where
  "sample_build = \<lparr>Version = ''1.4.0'', AmneziaWG = ''0.2.13'', errorText = (\<lambda>_. ''failed'')\<rparr>"

definition request_line :: "string \<Rightarrow> string \<Rightarrow> string" where
  "request_line command cfg = json_render (JObject
     [(''command'', JString command), (''protocol_version'', JNumber ''1''), (''config'', JString cfg)]) @ [newline]"

lemma request_lines:
  "Option.bind (scan_line (request_line ''connect'' sample_text)) decode_request =
     Some \<lparr>Command = ''connect'', ReqProtocolVersion = 1, ReqConfig = sample_text\<rparr>"
  "Option.bind (scan_line (request_line ''disconnect'' [])) decode_request =
     Some \<lparr>Command = ''disconnect'', ReqProtocolVersion = 1, ReqConfig = []\<rparr>"
  by code_simp+

definition begun_trace :: trace where
  "begun_trace = snd (run_state (startup service_environment SocketPath) [])"

lemma begun:
  "run_state (startup service_environment SocketPath) [] = (Inr False, begun_trace)"
proof -
  have "fst (run_state (startup service_environment SocketPath) []) = Inr False" by code_simp
  then show ?thesis by (simp add: begun_trace_def prod_eq_iff)
qed

lemma sample_path: "SocketPath \<noteq> resolvConf" by code_simp

lemma authorised: "fst (run_state (authorise service_environment True) t) = Inr ()"
  by (simp add: authorise_def run_andThen service_environment_def served_environment_def kind_environment_def)

text \<open>Serving a request: \<open>handle\<close> after the peer is known.\<close>

lemma serve_request:
  assumes "Option.bind (scan_line input) decode_request = Some q"
    and "fst (run_state (authorise env unix) t) = Inr u"
    and "run_state (handle build env fuel q c) (snd (run_state (authorise env unix) t)) = ((r, c'), t')"
  shows "run_state (serve build env fuel unix input c) t = ((reply r, c'), t')"
  using assms by (cases "run_state (authorise env unix) t") (auto simp: serve_def bind_eq_Some_conv)

definition known_trace :: trace where
  "known_trace = snd (run_state (authorise service_environment True) begun_trace)"

lemma known_calm: "calm sample_machine nothing_open known_trace"
proof -
  have "calm sample_machine nothing_open begun_trace"
    using keepsD [OF startup_calm [OF sample_path], of sample_machine nothing_open "[]" service_environment] begun
    by (simp add: calm_def)
  moreover have "keeps (calm sample_machine nothing_open) (authorise service_environment True)"
    by (rule authorise_keeps) (simp add: calm_def)
  ultimately show ?thesis using keepsD [of _ "authorise service_environment True" begun_trace] known_trace_def by metis
qed

lemma sample_connects:
  obtains c t where
    "run_state (serve sample_build service_environment 52 True (request_line ''connect'' sample_text) NewController)
       begun_trace = ((reply (fromStatus (status c)), c), t)"
    "up sample_machine c t"
proof -
  obtain r c t where run: "run_state (Start service_environment 52 sample_text NewController) known_trace = ((r, c), t)"
    by (metis prod.exhaust)
  have "\<not> isl (fst (run_state (startFresh service_environment 52 sample_text) known_trace))"
    unfolding sample_fresh by code_simp
  then obtain s where r: "r = Inr s"
    using run by (auto simp: Start_def NewController_def split: prod.splits sum.splits)
  have "up sample_machine NewController known_trace \<or> down sample_machine NewController known_trace"
    using known_calm by (simp add: down_def NewController_def)
  from Start_post [OF service_cooperative this run]
  have s: "s = status c" "up sample_machine c t" by (auto simp: r started_up)
  have "run_state (handle sample_build service_environment 52
      \<lparr>Command = ''connect'', ReqProtocolVersion = 1, ReqConfig = sample_text\<rparr> NewController) known_trace =
      ((fromStatus (status c), c), t)"
    using run r s(1)
    by (simp add: handle_def CommandVersion_def CommandStatus_def CommandConnect_def ProtocolVersion_def)
  from that [OF serve_request [OF request_lines(1) authorised this [unfolded known_trace_def]] s(2)]
  show thesis .
qed

section \<open>When the process exits\<close>

lemma reachable_steps:
  "perform_all build env fuel path act es p = Some p' \<Longrightarrow> reachable build env fuel path act p \<Longrightarrow>
   reachable build env fuel path act p'"
  by (induction es arbitrary: p) (auto simp: bind_eq_Some_conv intro: reachable.step split: if_splits)


lemma sample_begins: "reachable sample_build service_environment 52 SocketPath False (serving begun_trace)"
  by (rule reachable.serve) (rule begun)

lemma nothing_to_restore:
  "\<not> device c \<Longrightarrow> \<not> StUp (status c) \<Longrightarrow> run_state (restoreFirst env c) t = (c, t)"
  by (simp add: restoreFirst_def ControllerStatus_def Stop_def stopLocked_def)

lemma new_empty: "\<not> device NewController" "\<not> StUp (status NewController)"
  by (simp_all add: NewController_def)

lemma sample_signalled:
  "perform_all sample_build service_environment 52 SocketPath False [Accept, Signal] (serving begun_trace) =
     Some ((serving begun_trace)\<lparr>idler := busy newIdler, unanswered := 1, stopping := True, signalled := True\<rparr>)"
  by (simp add: serving_def newIdler_def restored_def nothing_to_restore [OF new_empty])


text \<open>
  C34: A request handled too late is not put back.  There is a run, on a machine that answers every
  command and with a server that answers, in which a connection accepted before a signal to stop is
  served between the restoring and the exit: the process exits with the machine routed into an
  interface that goes away with it.
\<close>

theorem exits_with_tunnel:
  "\<exists>es p. perform_all sample_build service_environment 52 SocketPath False es (serving begun_trace) = Some p \<and>
     exited p \<and> device (controller p) \<and>
     (''0.0.0.0/1'', Interface (network (controller p))) \<in> routes (machine_after sample_machine (history p)) \<and>
     machine_after sample_machine (history p) \<noteq> sample_machine"
proof -
  obtain c t where c: "run_state (serve sample_build service_environment 52 True (request_line ''connect'' sample_text)
      NewController) begun_trace = ((reply (fromStatus (status c)), c), t)" "up sample_machine c t"
    by (rule sample_connects)
  obtain t' where t': "run_state (closeSocket service_environment SocketPath False) t = ((), t')"
    by (cases "run_state (closeSocket service_environment SocketPath False) t") simp
  let ?es = "[Accept, Signal, Answer True (request_line ''connect'' sample_text), Exit]"
  have p: "perform_all sample_build service_environment 52 SocketPath False ?es (serving begun_trace) =
      Some ((serving begun_trace)\<lparr>idler := busy newIdler, controller := c, history := t', unclosed := 1,
        stopping := True, signalled := True, late := 1, exited := True\<rparr>)"
    using c(1) t' by (simp add: serving_def newIdler_def restored_def nothing_to_restore [OF new_empty])
  have "safe sample_machine c t'"
    using keepsD [OF closeSocket_keeps(2) [OF sample_path, of sample_machine c service_environment False], of t] c(2) t'
    by (simp add: safe_def)
  then obtain st where st: "complete sample_machine st (network c) t'" "device c"
    using c(2) by (auto simp: safe_def up_def down_def)
  then have r: "(''0.0.0.0/1'', Interface (network c)) \<in> routes (machine_after sample_machine t')"
    by (auto simp: complete_def our_routes_def defaultHalves_def)
  then have ne: "machine_after sample_machine t' \<noteq> sample_machine"
    using sample_pristine by (auto simp: pristine_def defaultHalves_def)
  show ?thesis by (rule exI [of _ ?es], rule exI, rule conjI, rule p) (simp add: r st(2) ne)
qed

section \<open>The idler\<close>


text \<open>The run: connected, idle, found up; then disconnected, with nobody there.\<close>

definition found_up :: "move list" where
  "found_up = [Accept, Answer True (request_line ''connect'' sample_text), CloseConn, TimerRunsOut, Fire,
     Receive, Check, ReturnUp]"

definition left_alone :: "move list" where
  "left_alone = [Accept, Answer True (request_line ''disconnect'' []), CloseConn]"

lemma sample_found_up:
  obtains p where "perform_all sample_build service_environment 52 SocketPath False found_up (serving begun_trace) = Some p"
    "watcher p = Returned" "unanswered p = 0" "unclosed p = 0" "\<not> exited p" "\<not> sending (idler p)"
proof -
  obtain c t where c: "run_state (serve sample_build service_environment 52 True (request_line ''connect'' sample_text)
      NewController) begun_trace = ((reply (fromStatus (status c)), c), t)" "up sample_machine c t"
    by (rule sample_connects)
  obtain s c' t' where s: "run_state (ControllerStatus service_environment c) t = ((s, c'), t')"
    by (metis prod.exhaust)
  have up: "StUp (status c)" using c(2) by (simp add: up_def)
  have "StUp s" by (rule status_run [OF up, of service_environment t]) (use s up in auto)
  with c(1) s show thesis
    by (intro that)
      (simp add: found_up_def serving_def newIdler_def busy_def idle_def runOut_def fire_def receive_def Let_def,
       simp_all)
qed


text \<open>As long as the goroutine waits, the timer or a call of \<open>fire\<close> is under way when nobody holds
  the process.\<close>

definition waits_on :: "bool \<Rightarrow> Idler \<Rightarrow> bool" where
  "waits_on w i \<longleftrightarrow>
     (w \<and> expired i = 0 \<longrightarrow> \<not> fired i \<and> (holders i \<le> 0 \<longrightarrow> armed i \<or> 0 < due i)) \<and>
     (sending i \<longrightarrow> 0 < expired i) \<and> 0 \<le> holders i"

definition ticking_over :: "Process \<Rightarrow> bool" where
  "ticking_over p \<longleftrightarrow> waits_on (watcher p = Waiting) (idler p)"

lemma waits_on_steps [simp]:
  "waits_on w i \<Longrightarrow> waits_on w (busy i)"
  "waits_on w i \<Longrightarrow> waits_on w (idle i)"
  "waits_on w i \<Longrightarrow> waits_on w (runOut i)"
  "waits_on w i \<Longrightarrow> \<not> sending i \<Longrightarrow> waits_on w ((fire i)\<lparr>due := due i - Suc 0\<rparr>)"
  "waits_on w i \<Longrightarrow> waits_on False (receive i)"
  "waits_on w i \<Longrightarrow> waits_on False i"
  by (auto simp: waits_on_def busy_def idle_def runOut_def fire_def receive_def Let_def)

lemma perform_ticking_over:
  assumes p: "ticking_over p" and run: "perform build env fuel path act e p = Some p'"
  shows "ticking_over p'"
proof (cases e)
  case (PacketOut now pkt)
  then show ?thesis using run p with_meter_Some by (fastforce simp: ticking_over_def)
next
  case (PacketIn now pkt)
  then show ?thesis using run p with_meter_Some by (fastforce simp: ticking_over_def)
qed (use p run in \<open>auto simp: ticking_over_def split: if_splits prod.splits\<close>)

lemma reachable_ticking_over: "reachable build env fuel path act p \<Longrightarrow> ticking_over p"
proof (induction rule: reachable.induct)
  case (serve act t)
  show ?case by (simp add: ticking_over_def waits_on_def serving_def newIdler_def)
next
  case (step act p e p')
  show ?case by (rule perform_ticking_over [OF step.IH step.hyps(3)])
qed

lemma shuts_down:
  assumes "0 < expired (idler p)" "watcher p = Waiting" "\<not> exited p" "\<not> StUp (status (controller p))"
  shows "\<exists>p'. perform_all build env fuel path act [Receive, Check, ShutDownIdle, Exit] p = Some p' \<and> exited p'"
proof -
  have "run_state (ControllerStatus env (controller p)) (history p) = ((status (controller p), controller p), history p)"
    using assms(4) by (simp add: ControllerStatus_def)
  then show ?thesis using assms by (auto simp: restored_def split: prod.split)
qed

text \<open>
  C15: The process does not outlive its use, as long as the goroutine waits: whatever happened before,
  when no connection is open and no tunnel is up, the timer, the idler and that goroutine alone take
  the process to its exit.
\<close>

theorem idle_exits:
  assumes "reachable build env fuel path act p" and "\<not> exited p" and "watcher p = Waiting"
    and "unanswered p = 0" and "unclosed p = 0" and "\<not> StUp (status (controller p))"
  shows "\<exists>es p'. set es \<subseteq> {TimerRunsOut, Fire, Receive, Check, ShutDownIdle, Exit} \<and>
    perform_all build env fuel path act es p = Some p' \<and> exited p'"
proof -
  let ?rest = "[Receive, Check, ShutDownIdle, Exit]"
  have n: "holders (idler p) = 0"
    using reachable_counted [OF assms(1)] assms(3-5) by (simp add: counted_def tallies_def)
  have s: "ticking_over p" by (rule reachable_ticking_over [OF assms(1)])
  have waiting: "\<exists>p'. perform_all build env fuel path act ?rest q = Some p' \<and> exited p'"
    if "0 < expired (idler q)" "q = p\<lparr>idler := i\<rparr>" for q i
    by (rule shuts_down) (use that assms in simp_all)
  have fires: "\<exists>p'. perform_all build env fuel path act (Fire # ?rest) q = Some p' \<and> exited p'"
    if "q = p\<lparr>idler := i\<rparr>" "0 < due i" "holders i = 0" "\<not> fired i" "expired i = 0" "\<not> sending i" for q i
  proof -
    have "perform build env fuel path act Fire q = Some (p\<lparr>idler := (fire i)\<lparr>due := due i - 1\<rparr>\<rparr>)"
      using that by simp
    moreover have "0 < expired ((fire i)\<lparr>due := due i - 1\<rparr>)" using that by (simp add: fire_def)
    ultimately show ?thesis
      using waiting [of "p\<lparr>idler := (fire i)\<lparr>due := due i - 1\<rparr>\<rparr>"] that(1) assms(2)
      by (simp del: perform.simps)
  qed
  consider "0 < expired (idler p)" | "expired (idler p) = 0" "0 < due (idler p)"
    | "expired (idler p) = 0" "armed (idler p)"
    using s n assms(3) by (auto simp: ticking_over_def waits_on_def)
  then show ?thesis
  proof cases
    case 1
    then obtain p' where "perform_all build env fuel path act ?rest p = Some p'" "exited p'"
      using waiting [of p "idler p"] by auto
    then show ?thesis by (intro exI [of _ ?rest] exI [of _ p']) simp
  next
    case 2
    then obtain p' where "perform_all build env fuel path act (Fire # ?rest) p = Some p'" "exited p'"
      using fires [of p "idler p"] s n assms(3) by (auto simp: ticking_over_def waits_on_def)
    then show ?thesis by (intro exI [of _ "Fire # ?rest"] exI [of _ p']) simp
  next
    case 3
    then obtain p' where "perform_all build env fuel path act (Fire # ?rest) (p\<lparr>idler := runOut (idler p)\<rparr>) = Some p'" "exited p'"
      using fires [of "p\<lparr>idler := runOut (idler p)\<rparr>" "runOut (idler p)"] s n assms(3)
      by (auto simp: ticking_over_def waits_on_def runOut_def)
    moreover have "perform build env fuel path act TimerRunsOut p = Some (p\<lparr>idler := runOut (idler p)\<rparr>)"
      using 3 by simp
    ultimately have "perform_all build env fuel path act (TimerRunsOut # Fire # ?rest) p = Some p'"
      using assms(2) by simp
    with \<open>exited p'\<close> show ?thesis by (intro exI [of _ "TimerRunsOut # Fire # ?rest"] exI [of _ p']) simp
  qed
qed

theorem idle_exits_witness:
  "\<exists>es p. perform_all sample_build service_environment 52 SocketPath False es (serving begun_trace) = Some p \<and> exited p"
proof -
  have "\<not> exited (serving begun_trace)" "watcher (serving begun_trace) = Waiting" "unanswered (serving begun_trace) = 0"
    "unclosed (serving begun_trace) = 0" "\<not> StUp (status (controller (serving begun_trace)))"
    using new_empty by (simp_all add: serving_def)
  from idle_exits [OF sample_begins this] show ?thesis by blast
qed

section \<open>One request\<close>

text \<open>
  The version is answered whatever the caller speaks, every other command of another protocol is
  refused with the side named that is behind, and an unknown command is refused; in each case the
  controller is untouched and not one call is made.
\<close>

theorem handle_answers:
  assumes "run_state (handle build env fuel q c) t = ((r, c'), t')"
  shows "(Command q = ''version'' \<longrightarrow>
      r = zero_Response\<lparr>RespOK := True, RespCore := Version build, RespAmneziaWG := AmneziaWG build,
            RespProtocolVersion := 1\<rparr> \<and> c' = c \<and> t' = t) \<and>
    (Command q \<noteq> ''version'' \<and> ReqProtocolVersion q \<noteq> 1 \<longrightarrow>
      r = refusal (if ReqProtocolVersion q < 1 then olderApplication else olderService) \<and> c' = c \<and> t' = t) \<and>
    (Command q \<notin> {''version'', ''status'', ''connect'', ''disconnect''} \<and> ReqProtocolVersion q = 1 \<longrightarrow>
      r = refusal ''unknown command'' \<and> c' = c \<and> t' = t)"
  using assms
  by (cases "Command q = ''version''"; cases "ReqProtocolVersion q = 1")
    (auto simp: handle_def CommandVersion_def CommandStatus_def CommandConnect_def CommandDisconnect_def
      ProtocolVersion_def)

theorem handle_answers_witness:
  "run_state (handle sample_build service_environment 52
      \<lparr>Command = ''connect'', ReqProtocolVersion = 2, ReqConfig = sample_text\<rparr> NewController) [] =
     ((refusal olderService, NewController), [])"
proof -
  let ?q = "\<lparr>Command = ''connect'', ReqProtocolVersion = 2, ReqConfig = sample_text\<rparr>"
  obtain r c t where run: "run_state (handle sample_build service_environment 52 ?q NewController) [] = ((r, c), t)"
    by (metis prod.exhaust)
  show ?thesis using handle_answers [OF run] run by simp
qed

definition identified :: "trace \<Rightarrow> trace \<Rightarrow> bool" where
  "identified t t' \<longleftrightarrow>
     (\<exists>a b d. t' = t @ [(Os ''SyscallConn'' [], Done a), (Os ''Control'' [], Done b), (Os ''PeerCred'' [], Done d)])"

lemma authorise_run:
  assumes "run_state (authorise env unix) t = (r, t')"
  shows "(\<exists>s. t' = t @ s \<and> fst ` set s \<subseteq> {Os ''SyscallConn'' [], Os ''Control'' [], Os ''PeerCred'' []}) \<and>
    (r = Inr () \<longleftrightarrow> unix \<and> identified t t')"
  using assms
  by (auto simp: authorise_def identified_def run_andThen split: if_splits answer.splits)


lemma bringUp_extends: "keeps (extends t0) (bringUp env fuel cfg host st)"
proof -
  have opens: "keeps (extends t0) (openTUN env mtu)" for mtu
    unfolding openTUN_def
    by (auto intro!: keeps_andThen keeps_inContext keeps_attempt keeps_bind keeps_ask keeps_ret split: sum.split)
  have closes: "keeps (extends t0) m \<Longrightarrow> keeps (extends t0) (orClose env m)" for m :: "(tunnel_error + string) io"
    unfolding orClose_def by (auto intro!: keeps_bind keeps_ask keeps_ret split: sum.split)
  have restores: "keeps (extends t0) m \<Longrightarrow> keeps (extends t0) (orRestore env st net m)"
    for net and m :: "(tunnel_error + unit) io"
    unfolding orRestore_def by (auto intro!: keeps_bind keeps_ask keeps_ret Restore_extends split: sum.split)
  have waits: "keeps (extends t0) (waitServer env fuel)" by (rule keeps_waitServer) simp
  show ?thesis
    unfolding bringUp_def Let_def
    by (intro keeps_andThen keeps_bind keeps_liftF opens closes restores waits keeps_inContext keeps_attempt
        keeps_ask keeps_askNow keeps_ret Apply_extends) simp_all
qed

lemma Start_extends: "keeps (extends t0) (Start env fuel txt c)"
proof -
  have "keeps (extends t0) (startFresh env fuel txt)"
    unfolding startFresh_def
    by (auto intro!: keeps_andThen keeps_ret keeps_liftF EndpointAddress_extends Snapshot_extends bringUp_extends
        split: sum.split)
  then show ?thesis
    unfolding Start_def by (intro keeps_bind keeps_if keeps_ret stopLocked_extends)
qed

text \<open>
  C12: Nothing reaches the controller but a request that may.  When a connection changes the controller
  or makes any call but the three that ask who the peer is, the kernel had named the peer of a Unix
  socket, and the first line it sent is a JSON request of this protocol for the status, to connect
  or to disconnect.
\<close>

theorem serve_gate:
  assumes "run_state (serve build env fuel unix input c) t = ((out, c'), t')"
  shows "(c' = c \<and> (\<exists>s. t' = t @ s \<and> fst ` set s \<subseteq> {Os ''SyscallConn'' [], Os ''Control'' [], Os ''PeerCred'' []})) \<or>
    (\<exists>t1 line q s. unix \<and> identified t t1 \<and> scan_line input = Some line \<and> decode_request line = Some q \<and>
       ReqProtocolVersion q = 1 \<and> Command q \<in> {''status'', ''connect'', ''disconnect''} \<and> t' = t1 @ s)"
proof -
  obtain r t1 where auth: "run_state (authorise env unix) t = (r, t1)" by fastforce
  note a = authorise_run [OF auth]
  show ?thesis
  proof (cases "\<exists>u line q. r = Inr u \<and> scan_line input = Some line \<and> decode_request line = Some q \<and>
      ReqProtocolVersion q = 1 \<and> Command q \<in> {''status'', ''connect'', ''disconnect''}")
    case False
    have "c' = c \<and> t' = t1"
    proof (cases "\<exists>u line q. r = Inr u \<and> scan_line input = Some line \<and> decode_request line = Some q")
      case True
      then obtain u line q where q: "r = Inr u" "scan_line input = Some line" "decode_request line = Some q" by blast
      have "\<not> (ReqProtocolVersion q = 1 \<and> Command q \<in> {''status'', ''connect'', ''disconnect''})"
        using False q by blast
      then have "\<exists>x. run_state (handle build env fuel q c) t1 = ((x, c), t1)"
        by (auto simp: handle_def CommandVersion_def CommandStatus_def CommandConnect_def CommandDisconnect_def
            ProtocolVersion_def)
      then show ?thesis using assms auth q by (auto simp: serve_def)
    next
      case False
      then show ?thesis using assms auth by (auto simp: serve_def split: sum.splits option.splits)
    qed
    with a show ?thesis by blast
  next
    case True
    then obtain line q where q: "r = Inr ()" "scan_line input = Some line" "decode_request line = Some q"
      "ReqProtocolVersion q = 1" "Command q \<in> {''status'', ''connect'', ''disconnect''}" by auto
    obtain x c1 t2 where run: "run_state (handle build env fuel q c) t1 = ((x, c1), t2)" by (metis prod.exhaust)
    have "keeps (extends t1) (handle build env fuel q c)"
      unfolding handle_def
      by (auto intro!: keeps_if keeps_ret keeps_bind status_keeps Start_extends stopLocked_extends
          simp: Stop_def split: sum.split)
    from keepsD [OF this, of t1] run have "extends t1 t2" by simp
    moreover have "t' = t2" using assms auth q(1-3) run by (simp add: serve_def)
    ultimately show ?thesis using a q unfolding extends_def by blast
  qed
qed

theorem serve_gate_witness:
  "snd (fst (run_state (serve sample_build service_environment 52 True [] NewController) [])) = NewController"
proof -
  obtain out c t where run: "run_state (serve sample_build service_environment 52 True [] NewController) [] = ((out, c), t)"
    by (metis prod.exhaust)
  have "scan_line [] = None" by (simp add: scan_line_def)
  with serve_gate [OF run] run show ?thesis by auto
qed

end
