(* ===== verification/Service_Reply.thy ===== *)
theory Service_Reply
  imports Service_Theorems
begin

text \<open>
  The reply as the application reads it, by the names of \<^verbatim>\<open>ipc.Response\<close>, and the socket.
\<close>

section \<open>The reply\<close>

definition responseNames :: "string list" where
  "responseNames = [''ok'', ''error'', ''up'', ''interface'', ''endpoint'', ''protocol'', ''obfuscated'',
     ''since_unix'', ''handshake_unix'', ''latency_ms'', ''core'', ''amneziawg'', ''protocol_version'']"

definition into_bool :: "json \<Rightarrow> bool \<Rightarrow> bool option" where
  "into_bool j old = (case j of JNull \<Rightarrow> Some old | JBool b \<Rightarrow> Some b | _ \<Rightarrow> None)"

definition set_response_field :: "string \<Rightarrow> json \<Rightarrow> Response \<Rightarrow> Response option" where
  "set_response_field name j r =
     (if name = ''ok'' then map_option (\<lambda>v. r\<lparr>RespOK := v\<rparr>) (into_bool j (RespOK r))
      else if name = ''error'' then map_option (\<lambda>v. r\<lparr>RespError := v\<rparr>) (into_string j (RespError r))
      else if name = ''up'' then map_option (\<lambda>v. r\<lparr>RespUp := v\<rparr>) (into_bool j (RespUp r))
      else if name = ''interface'' then map_option (\<lambda>v. r\<lparr>RespInterface := v\<rparr>) (into_string j (RespInterface r))
      else if name = ''endpoint'' then map_option (\<lambda>v. r\<lparr>RespEndpoint := v\<rparr>) (into_string j (RespEndpoint r))
      else if name = ''protocol'' then map_option (\<lambda>v. r\<lparr>RespProtocol := v\<rparr>) (into_string j (RespProtocol r))
      else if name = ''obfuscated'' then map_option (\<lambda>v. r\<lparr>RespObfuscated := v\<rparr>) (into_bool j (RespObfuscated r))
      else if name = ''since_unix'' then map_option (\<lambda>v. r\<lparr>RespSinceUnix := v\<rparr>) (into_int j (RespSinceUnix r))
      else if name = ''handshake_unix'' then
        map_option (\<lambda>v. r\<lparr>RespHandshakeUnix := v\<rparr>) (into_int j (RespHandshakeUnix r))
      else if name = ''latency_ms'' then map_option (\<lambda>v. r\<lparr>RespLatencyMs := v\<rparr>) (into_int j (RespLatencyMs r))
      else if name = ''core'' then map_option (\<lambda>v. r\<lparr>RespCore := v\<rparr>) (into_string j (RespCore r))
      else if name = ''amneziawg'' then map_option (\<lambda>v. r\<lparr>RespAmneziaWG := v\<rparr>) (into_string j (RespAmneziaWG r))
      else map_option (\<lambda>v. r\<lparr>RespProtocolVersion := v\<rparr>) (into_int j (RespProtocolVersion r)))"

definition decode_response :: "string \<Rightarrow> Response option" where
  "decode_response s =
     Option.bind (json_parse s) (\<lambda>j. into_struct responseNames set_response_field j zero_Response)"

text \<open>A response of ASCII texts and of integers of 64 bits.\<close>

definition plain_response :: "Response \<Rightarrow> bool" where
  "plain_response r \<longleftrightarrow>
     list_all (list_all ascii) [RespError r, RespInterface r, RespEndpoint r, RespProtocol r, RespCore r, RespAmneziaWG r] \<and>
     list_all in_int64 [RespSinceUnix r, RespHandshakeUnix r, RespLatencyMs r, RespProtocolVersion r]"

lemma plain_flat: "plain_response r \<Longrightarrow> flat (response_members r)"
  by (auto simp: plain_response_def flat_def scalar_def response_members_def text_member_def bool_member_def
      int_member_def ascii_def code_def)

abbreviation decode_step :: "string \<times> json \<Rightarrow> Response option \<Rightarrow> Response option" where
  "decode_step \<equiv> (\<lambda>(key, v) r. Option.bind r (\<lambda>x.
      (case field_named responseNames key of None \<Rightarrow> Some x | Some n \<Rightarrow> set_response_field n v x)))"

lemma response_fields:
  "fold decode_step (text_member ''error'' v) (Some x) = Some (x\<lparr>RespError := if v = [] then RespError x else v\<rparr>)"
  "fold decode_step (text_member ''interface'' v) (Some x) = Some (x\<lparr>RespInterface := if v = [] then RespInterface x else v\<rparr>)"
  "fold decode_step (text_member ''endpoint'' v) (Some x) = Some (x\<lparr>RespEndpoint := if v = [] then RespEndpoint x else v\<rparr>)"
  "fold decode_step (text_member ''protocol'' v) (Some x) = Some (x\<lparr>RespProtocol := if v = [] then RespProtocol x else v\<rparr>)"
  "fold decode_step (text_member ''core'' v) (Some x) = Some (x\<lparr>RespCore := if v = [] then RespCore x else v\<rparr>)"
  "fold decode_step (text_member ''amneziawg'' v) (Some x) = Some (x\<lparr>RespAmneziaWG := if v = [] then RespAmneziaWG x else v\<rparr>)"
  "fold decode_step (bool_member ''up'' b) (Some x) = Some (x\<lparr>RespUp := b \<or> RespUp x\<rparr>)"
  "fold decode_step (bool_member ''obfuscated'' b) (Some x) = Some (x\<lparr>RespObfuscated := b \<or> RespObfuscated x\<rparr>)"
  by (auto simp: text_member_def bool_member_def field_named_def responseNames_def set_response_field_def
      into_string_def into_bool_def)

lemma response_numbers:
  assumes "in_int64 i"
  shows "fold decode_step (int_member ''since_unix'' i) (Some x) = Some (x\<lparr>RespSinceUnix := if i = 0 then RespSinceUnix x else i\<rparr>)"
    "fold decode_step (int_member ''handshake_unix'' i) (Some x) = Some (x\<lparr>RespHandshakeUnix := if i = 0 then RespHandshakeUnix x else i\<rparr>)"
    "fold decode_step (int_member ''latency_ms'' i) (Some x) = Some (x\<lparr>RespLatencyMs := if i = 0 then RespLatencyMs x else i\<rparr>)"
    "fold decode_step (int_member ''protocol_version'' i) (Some x) = Some (x\<lparr>RespProtocolVersion := if i = 0 then RespProtocolVersion x else i\<rparr>)"
  using decimal.dec_enc [OF assms]
  by (auto simp: int_member_def field_named_def responseNames_def set_response_field_def into_int_def)

lemma decode_encode_response: "plain_response r \<Longrightarrow> decode_response (encode_response r) = Some r"
proof -
  assume r: "plain_response r"
  have n: "in_int64 (RespSinceUnix r)" "in_int64 (RespHandshakeUnix r)" "in_int64 (RespLatencyMs r)"
    "in_int64 (RespProtocolVersion r)" using r by (simp_all add: plain_response_def)
  have ok: "decode_step (''ok'', JBool b) (Some x) = Some (x\<lparr>RespOK := b\<rparr>)" for b x
    by (simp add: field_named_def responseNames_def set_response_field_def into_bool_def)
  have "fold decode_step (response_members r) (Some zero_Response) = Some r"
    unfolding response_members_def append_Cons append_Nil fold.simps fold_append o_apply ok
    by (simp only: response_fields response_numbers [OF n(1)] response_numbers [OF n(2)] response_numbers [OF n(3)]
        response_numbers [OF n(4)]) (simp add: zero_Response_def)
  then show ?thesis
    using json_flat [OF plain_flat [OF r]] by (simp add: decode_response_def encode_response_def into_struct_def)
qed

text \<open>The reader of the replies and the writer of them.\<close>

interpretation replies: codec plain_response encode_response decode_response
  by unfold_locales (rule decode_encode_response)

lemma escaped_newline: "newline \<notin> set (escaped s)"
proof -
  have "newline \<notin> set (json_char c)" for c
  proof (cases c rule: json_char_cases)
    case plain
    then show ?thesis by (auto simp: newline_def code_def)
  next
    case (short e)
    then show ?thesis by (auto simp: newline_def)
  next
    case long
    have "\<not> hex_digit newline" by code_simp
    then have h: "newline \<noteq> hex_low n" if "n < 16" for n using hex_low_facts(1) [OF that] by metis
    have "newline \<notin> set [backslash, CHR ''u'', CHR ''0'', CHR ''0'']" by code_simp
    then show ?thesis
      using long h [of "code c div 16"] h [of "code c mod 16"] by simp
  qed
  then show ?thesis by (auto simp: escaped_def)
qed

lemma set_Join: "set (Join xs sep) \<subseteq> \<Union> (set ` set xs) \<union> set sep"
  by (induction xs sep rule: Join.induct) auto

lemma scalar_newline: "scalar v \<Longrightarrow> newline \<notin> set (json_render v)"
proof (cases v)
  case (JNumber t)
  assume "scalar v"
  with JNumber obtain i where "t = Itoa i" by (auto simp: scalar_def)
  moreover have "newline \<notin> set (Itoa i)"
    using Itoa_chars [of newline i] by (auto simp: newline_def is_digit_def code_def)
  ultimately show ?thesis using JNumber by simp
next
  case (JString s)
  assume "scalar v"
  with JString have "list_all ascii s" by (simp add: scalar_def)
  with JString show ?thesis by (simp add: json_string_ascii escaped_newline) (simp add: newline_def)
qed (auto simp: scalar_def newline_def)

lemma flat_newline: "flat ms \<Longrightarrow> newline \<notin> set (json_render (JObject ms))"
proof -
  assume ms: "flat ms"
  have "newline \<notin> set (json_string k @ '':'' @ json_render v)" if "(k, v) \<in> set ms" for k v
  proof -
    from ms that have "list_all ascii k" "scalar v" by (auto simp: flat_def)
    then show ?thesis
      using escaped_newline scalar_newline by (simp add: json_string_ascii) (simp add: newline_def)
  qed
  then have "newline \<notin> \<Union> (set ` set (map (\<lambda>(k, v). json_string k @ '':'' @ json_render v) ms)) \<union> set '',''"
    by (auto simp: newline_def)
  then have "newline \<notin> set (Join (map (\<lambda>(k, v). json_string k @ '':'' @ json_render v) ms) '','')"
    using set_Join by blast
  then show ?thesis by (simp add: newline_def)
qed



section \<open>The socket\<close>

text \<open>A socket of systemd's is adopted; one of our own is closed to everybody else.\<close>

definition adopted :: "trace \<Rightarrow> bool" where
  "adopted s \<longleftrightarrow>
     (\<exists>p i n out. (Os ''Getenv'' [''LISTEN_PID''], Done p) \<in> set s \<and> (Os ''Getpid'' [], Handle i) \<in> set s \<and>
        ParseInt64 p = Some i \<and> (Os ''Getenv'' [''LISTEN_FDS''], Done n) \<in> set s \<and> ParseInt64 n = Some 1 \<and>
        (Os ''FileListener'' [''3''], Done out) \<in> set s)"

lemma env_int_run:
  "run_state (env_int env name) t =
     ((case env t (Os ''Getenv'' [name]) of Done v \<Rightarrow> ParseInt64 v | _ \<Rightarrow> None),
      t @ [(Os ''Getenv'' [name], env t (Os ''Getenv'' [name]))])"
  by (simp add: env_int_def)

lemma activated_run:
  assumes "run_state (activated env) t = ((ok, r), t')"
  shows "\<exists>s. t' = t @ s \<and> (ok \<longrightarrow> r = Inr () \<longrightarrow> adopted s) \<and> (\<forall>xs b. (Os ''Listen'' xs, b) \<notin> set s)"
proof -
  let ?c1 = "Os ''Getenv'' [''LISTEN_PID'']" and ?c2 = "Os ''Getpid'' []" and ?c3 = "Os ''Getenv'' [''LISTEN_FDS'']"
  let ?t1 = "t @ [(?c1, env t ?c1)]"
  let ?t2 = "?t1 @ [(?c2, env ?t1 ?c2)]"
  let ?t3 = "?t2 @ [(?c3, env ?t2 ?c3)]"
  show ?thesis
  proof (cases "\<exists>v p. env t ?c1 = Done v \<and> ParseInt64 v = Some p \<and> env ?t1 ?c2 = Handle p")
    case False
    then have "\<not> ok \<and> (t' = ?t1 \<or> t' = ?t2)"
      using assms by (auto simp: activated_def env_int_run split: answer.splits option.splits if_splits)
    then show ?thesis by auto
  next
    case True
    then obtain v p where one: "env t ?c1 = Done v" "ParseInt64 v = Some p" "env ?t1 ?c2 = Handle p" by blast
    show ?thesis
    proof (cases "\<exists>w. env ?t2 ?c3 = Done w \<and> ParseInt64 w = Some 1")
      case False
      with one have "(ok \<longrightarrow> r \<noteq> Inr ()) \<and> t' = ?t3"
        using assms by (auto simp: activated_def env_int_run split: answer.splits option.splits if_splits)
      then show ?thesis by auto
    next
      case True
      then obtain w where two: "env ?t2 ?c3 = Done w" "ParseInt64 w = Some 1" by blast
      have three: "Itoa listenFDStart = ''3''" by code_simp
      show ?thesis
        using assms one two
        by (auto simp: activated_def env_int_run three adopted_def split: answer.splits if_splits)
    qed
  qed
qed


text \<open>
  C14: Whose socket it is.  The service takes systemd's socket only when the variables name this very
  process and exactly one socket; a socket of its own has become readable by root alone before it
  is served, and one that could not be made so is closed again.
\<close>

theorem listen_private:
  assumes "run_state (listen env path) t = (r, t')"
  shows "\<exists>s. t' = t @ s \<and>
    (case r of
       Inr act \<Rightarrow>
         if act then adopted s
         else (\<exists>s1 out out'. s = s1 @ [(Os ''Listen'' [''unix'', path], Done out), (Os ''Chmod'' [path, ''0600''], Done out')])
     | Inl e \<Rightarrow>
         (Os ''Listen'' [''unix'', path] \<in> {c. \<exists>out. (c, Done out) \<in> set s}) \<longrightarrow>
         (\<exists>s1 a. s = s1 @ [(Os ''CloseListener'' [path], a)]))"
proof -
  obtain ok x t1 where act: "run_state (activated env) t = ((ok, x), t1)" by (metis prod.exhaust)
  obtain s where s: "t1 = t @ s" "ok \<Longrightarrow> x = Inr () \<Longrightarrow> adopted s" "\<And>xs b. (Os ''Listen'' xs, b) \<notin> set s"
    using activated_run [OF act] by blast
  show ?thesis
  proof (cases ok)
    case True
    then have "r = map_sum id (\<lambda>_. True) x" "t' = t @ s" using assms act s(1) by (auto simp: listen_def)
    then show ?thesis using s(2,3) True by (cases x) auto
  next
    case False
    let ?c1 = "Os ''MkdirAll'' [Dir path, ''0755'']" and ?c2 = "RemoveFile path"
      and ?c3 = "Os ''Listen'' [''unix'', path]" and ?c4 = "Os ''Chmod'' [path, ''0600'']"
    show ?thesis
      using assms act s(1,3) False
      by (auto simp: listen_def run_andThen split: answer.splits)
  qed
qed

theorem listen_private_witness:
  "\<exists>s1 out out'. snd (run_state (listen service_environment SocketPath) []) =
     s1 @ [(Os ''Listen'' [''unix'', SocketPath], Done out), (Os ''Chmod'' [SocketPath, ''0600''], Done out')]"
proof -
  obtain r t where run: "run_state (listen service_environment SocketPath) [] = (r, t)" by fastforce
  have "fst (run_state (listen service_environment SocketPath) []) = Inr False" by code_simp
  with run have r: "r = Inr False" by simp
  from listen_private [OF run] run show ?thesis by (auto simp: r)
qed

end
