(* ===== verification/Probe.thy ===== *)
theory Probe
  imports Systunnel Diag "HOL-Library.Multiset"
begin

text \<open>
  \<^verbatim>\<open>core/internal/probe\<close>: one tunnel, one request through it, and how long the way is.  The
  device layer, its userspace network and the HTTP client are calls of the environment; devices
  are told apart by what the call that makes them answers.  What the device logs and carries while
  the probe runs is an argument.
\<close>

section \<open>Devices\<close>

definition id_of :: "answer \<Rightarrow> string" where
  "id_of a = (case a of Done d \<Rightarrow> d | _ \<Rightarrow> [])"

definition newDevice :: "environment \<Rightarrow> string io" where
  "newDevice env = do { a \<leftarrow> ask env (Os ''NewDevice'' []); ret (id_of a) }"

definition closeDevice :: "environment \<Rightarrow> string \<Rightarrow> unit io" where
  "closeDevice env d = do { _ \<leftarrow> ask env (Os ''DeviceClose'' [d]); ret () }"

text \<open>\<^verbatim>\<open>IpcSet\<close> and \<^verbatim>\<open>Up\<close>, in the words of whoever calls them.\<close>

definition configure :: "environment \<Rightarrow> string \<Rightarrow> string \<Rightarrow> string \<Rightarrow> Config \<Rightarrow> (tunnel_error + unit) io" where
  "configure env configuring bringing d cfg =
     liftF (andThen (inContext configuring (attempt env (Os ''IpcSet'' [d, IPC cfg]))) (\<lambda>_.
            andThen (inContext bringing (attempt env (Os ''DeviceUp'' [d]))) (\<lambda>_. ret (Inr ()))))"

text \<open>\<^verbatim>\<open>netstack.CreateNetTUN\<close> for a configuration.\<close>

definition resolvers :: "Config \<Rightarrow> string list" where
  "resolvers cfg = (if DNS cfg = [] then [''1.1.1.1''] else map Addr_String (DNS cfg))"

definition createNet :: "environment \<Rightarrow> Config \<Rightarrow> (tunnel_error + unit) io" where
  "createNet env cfg =
     liftF (andThen (inContext ''creating netstack device'' (attempt env
       (Os ''CreateNetTUN''
         [Join (map Addr_String (Addresses cfg)) '','', Join (resolvers cfg) '','', Itoa (MTU cfg)])))
       (\<lambda>_. ret (Inr ())))"

section \<open>One request\<close>

definition MaxBody :: nat where "MaxBody = 256 * 1024"

text \<open>
  \<^verbatim>\<open>io.ReadAll(io.LimitReader(body, limit))\<close>: the answer is what the server sends, and with
  \<open>Failed\<close> what it had sent when the connection broke.
\<close>

definition readLimited :: "environment \<Rightarrow> nat \<Rightarrow> (failure + string) io" where
  "readLimited env limit = do {
     a \<leftarrow> ask env (Os ''Body'' []);
     ret (case a of
            Done sent \<Rightarrow> Inr (take limit sent)
          | Failed sent \<Rightarrow> if limit \<le> length sent then Inr (take limit sent) else Inl (OsFailed (Os ''Body'' []))
          | _ \<Rightarrow> Inl (OsFailed (Os ''Body'' [])))
   }"

definition tooLarge :: "string \<Rightarrow> failure" where
  "tooLarge url = Message (''response from '' @ url @ '' is larger than '' @ Itoa (int MaxBody) @ '' bytes'')"

definition fetch :: "environment \<Rightarrow> string \<Rightarrow> (failure + (string \<times> string \<times> duration)) io" where
  "fetch env url =
     andThen (attempt env (Os ''NewRequest'' [url])) (\<lambda>_. do {
       started \<leftarrow> askNow env;
       andThen (inContext (''fetching '' @ url @ '' through the tunnel'') (attempt env (Os ''Do'' [url]))) (\<lambda>sts. do {
         body \<leftarrow> readLimited env (MaxBody + 1);
         closed \<leftarrow> attempt env (Os ''CloseBody'' []);
         (case body of
            Inl e \<Rightarrow> ret (Inl (Context ''reading response'' e))
          | Inr b \<Rightarrow>
              if MaxBody < length b then ret (Inl (tooLarge url))
              else (case closed of
                 Inl e \<Rightarrow> ret (Inl (Context ''closing response'' e))
               | Inr _ \<Rightarrow> do {
                   now \<leftarrow> askNow env;
                   ret (Inr (sts, TrimSpace b, time_sub now started))
                 }))
       })
     })"

section \<open>The handshake clock\<close>

definition sendingInitiation :: string where
  "sendingInitiation = ''%v - Sending handshake initiation''"

definition receivedResponse :: string where
  "receivedResponse = ''%v - Received handshake response''"

text \<open>\<open>hsSent\<close> is \<open>None\<close> for the zero time.\<close>

record handshakeClock =
  hsSent :: "instant option"
  hsRtt :: duration
  hsDone :: bool

definition newHandshakeClock :: handshakeClock where
  "newHandshakeClock = \<lparr>hsSent = None, hsRtt = 0, hsDone = False\<rparr>"

definition observe :: "instant \<Rightarrow> string \<Rightarrow> handshakeClock \<Rightarrow> handshakeClock" where
  "observe now format c =
     (if format = sendingInitiation then c\<lparr>hsSent := Some now\<rparr>
      else if format = receivedResponse then
        (case hsSent c of
           None \<Rightarrow> c
         | Some at \<Rightarrow> c\<lparr>hsRtt := time_sub now at, hsDone := True, hsSent := None\<rparr>)
      else c)"

definition roundTrip :: "handshakeClock \<Rightarrow> duration option" where
  "roundTrip c = (if hsDone c then Some (hsRtt c) else None)"

text \<open>\<^verbatim>\<open>logger\<close>: what it passes on to the base, which may lack either function.\<close>

definition clock_Verbosef ::
  "(instant \<Rightarrow> string \<Rightarrow> Log \<Rightarrow> Log) option \<Rightarrow> instant \<Rightarrow> string \<Rightarrow> string \<Rightarrow>
   handshakeClock \<times> Log \<Rightarrow> handshakeClock \<times> Log" where
  "clock_Verbosef base now format message s =
     (observe now format (fst s), (case base of None \<Rightarrow> snd s | Some f \<Rightarrow> f now message (snd s)))"

definition clock_Errorf ::
  "(instant \<Rightarrow> string \<Rightarrow> Log \<Rightarrow> Log) option \<Rightarrow> instant \<Rightarrow> string \<Rightarrow>
   handshakeClock \<times> Log \<Rightarrow> handshakeClock \<times> Log" where
  "clock_Errorf base now message s = (fst s, (case base of None \<Rightarrow> snd s | Some f \<Rightarrow> f now message (snd s)))"

section \<open>The latency\<close>

definition logged :: "environment \<Rightarrow> string \<Rightarrow> Log \<Rightarrow> Log io" where
  "logged env message l = do { now \<leftarrow> askNow env; ret (Logf now message l) }"

definition DefaultLatencyTarget :: string where
  "DefaultLatencyTarget = ''1.1.1.1:443''"

definition exitDialTimeout :: duration where
  "exitDialTimeout = 3 * seconds"

text \<open>What the tunnel carries meanwhile, shown to the meter.\<close>

definition carried :: "event list \<Rightarrow> Meter \<Rightarrow> Meter" where
  "carried es m = fold (\<lambda>e m. (case meter_step e m of Some m' \<Rightarrow> m' | None \<Rightarrow> m)) es m"

definition timeExit ::
  "environment \<Rightarrow> string \<Rightarrow> event list \<Rightarrow> Meter \<Rightarrow> Log \<Rightarrow> (duration option \<times> Meter \<times> Log) io" where
  "timeExit env target during m l = do {
     let m1 = Forget m;
     r \<leftarrow> attempt env (Os ''DialContext'' [''tcp'', target, Itoa exitDialTimeout]);
     (case r of
        Inl e \<Rightarrow> do {
          l' \<leftarrow> logged env ''probe: timing the exit: the dial failed'' l;
          ret (None, carried during m1, l')
        }
      | Inr _ \<Rightarrow> do {
          _ \<leftarrow> ask env (Os ''CloseConn'' []);
          let m2 = carried during m1;
          now \<leftarrow> meterNow env (Some m2);
          let (took, m3) = Latency now m2;
          ret (took, m3, l)
        })
   }"

text \<open>\<^verbatim>\<open>measureLatency\<close> over its sources.\<close>

definition measureLatency ::
  "environment \<Rightarrow> (Log \<Rightarrow> (duration option \<times> Log) io) \<Rightarrow> duration option \<Rightarrow> (failure + duration) io \<Rightarrow> Log \<Rightarrow>
   ((failure + int) \<times> Log) io" where
  "measureLatency env exit handshake request l = do {
     (r, l1) \<leftarrow> exit l;
     (case r of
        Some took \<Rightarrow> ret (Inr (max (Milliseconds_of took) 1), l1)
      | None \<Rightarrow>
          (case handshake of
             Some took \<Rightarrow> do {
               l2 \<leftarrow> logged env ''probe: the exit did not answer; reporting the handshake'' l1;
               ret (Inr (max (Milliseconds_of took) 1), l2)
             }
           | None \<Rightarrow> do {
               l2 \<leftarrow> logged env ''probe: neither the exit nor the handshake was timed; measuring a request instead'' l1;
               latency \<leftarrow> inContext ''measuring latency'' request;
               ret (map_sum id (\<lambda>d. max (Milliseconds_of d) 1) latency, l2)
             }))
   }"

section \<open>A probe\<close>

record Options =
  OptURL :: string
  OptTimeout :: duration
  OptVerbose :: bool
  OptMeasureLatency :: bool
  OptLatencyTarget :: string

record Result =
  ResEndpoint :: string
  ResMTU :: int
  ResObfuscated :: bool
  ResStatus :: string
  ResBody :: string
  ResElapsed :: duration
  ResElapsedMs :: int
  ResLatencyMs :: "int option"

text \<open>
  What happens in the device while the probe runs: the packets before the exit is timed and while
  it is, and the messages logged, with when, before the handshake clock is read.
\<close>

record Traffic =
  beforeDial :: "event list"
  duringDial :: "event list"
  messages :: "(instant \<times> string) list"

definition clock_after :: "(instant \<times> string) list \<Rightarrow> handshakeClock" where
  "clock_after ms = fold (\<lambda>(now, format). observe now format) ms newHandshakeClock"

definition with_defaults :: "Options \<Rightarrow> Options" where
  "with_defaults opts =
     (let o1 = (if OptURL opts = [] then opts\<lparr>OptURL := ''https://ifconfig.me/ip''\<rparr> else opts)
      in if OptTimeout o1 \<le> 0 then o1\<lparr>OptTimeout := 30 * seconds\<rparr> else o1)"

text \<open>The sources, and the latency when one is asked for.\<close>

definition exitSource ::
  "environment \<Rightarrow> Traffic \<Rightarrow> Options \<Rightarrow> Log \<Rightarrow> (duration option \<times> Log) io" where
  "exitSource env traffic opts l = do {
     (took, m, l') \<leftarrow> timeExit env
       (if OptLatencyTarget opts = [] then DefaultLatencyTarget else OptLatencyTarget opts)
       (duringDial traffic) (carried (beforeDial traffic) Rtt.New) l;
     ret (took, l')
   }"

definition requestSource :: "environment \<Rightarrow> Options \<Rightarrow> (failure + duration) io" where
  "requestSource env opts = do {
     r \<leftarrow> fetch env (OptURL opts);
     ret (map_sum id (\<lambda>(sts, body, took). took) r)
   }"

definition probeLatency ::
  "environment \<Rightarrow> Traffic \<Rightarrow> Options \<Rightarrow> Log \<Rightarrow> ((failure + int option) \<times> Log) io" where
  "probeLatency env traffic opts l =
     (if OptMeasureLatency opts then do {
        (ms, l1) \<leftarrow> measureLatency env (exitSource env traffic opts)
          (roundTrip (clock_after (messages traffic))) (requestSource env opts) l;
        ret (map_sum id Some ms, l1)
      }
      else ret (Inr None, l))"

text \<open>From the device on, which the caller closes.\<close>

definition probeWith ::
  "environment \<Rightarrow> Traffic \<Rightarrow> Config \<Rightarrow> Options \<Rightarrow> string \<Rightarrow> Log \<Rightarrow> ((tunnel_error + Result) \<times> Log) io" where
  "probeWith env traffic cfg opts d l = do {
     up \<leftarrow> configure env ''configuring device'' ''bringing device up'' d cfg;
     (case up of
        Inl e \<Rightarrow> ret (Inl e, l)
      | Inr _ \<Rightarrow> do {
          _ \<leftarrow> ask env (Os ''WithTimeout'' [Itoa (OptTimeout opts)]);
          r \<leftarrow> fetch env (OptURL opts);
          (case r of
             Inl e \<Rightarrow> ret (Inl (Failure e), l)
           | Inr (sts, body, elapsed) \<Rightarrow> do {
               (latency, l1) \<leftarrow> probeLatency env traffic opts l;
               ret (case latency of
                      Inl e \<Rightarrow> Inl (Failure e)
                    | Inr ms \<Rightarrow> Inr \<lparr>ResEndpoint = Endpoint (peer cfg), ResMTU = MTU cfg,
                        ResObfuscated = (Obfuscation cfg \<noteq> fmempty), ResStatus = sts, ResBody = body,
                        ResElapsed = elapsed, ResElapsedMs = Milliseconds_of elapsed, ResLatencyMs = ms\<rparr>, l1)
             })
        })
   }"

definition Run ::
  "environment \<Rightarrow> Traffic \<Rightarrow> string \<Rightarrow> Options \<Rightarrow> Log \<Rightarrow> ((tunnel_error + Result) \<times> Log) io" where
  "Run env traffic configText options l =
     (let opts = with_defaults options in
      case Awg_Endpoint.Parse configText of
        Inl e \<Rightarrow> ret (Inl (BadConfiguration e), l)
      | Inr cfg \<Rightarrow> do {
          net \<leftarrow> createNet env cfg;
          (case net of
             Inl e \<Rightarrow> ret (Inl e, l)
           | Inr _ \<Rightarrow> do {
               now \<leftarrow> askNow env;
               d \<leftarrow> newDevice env;
               r \<leftarrow> probeWith env traffic cfg opts d (SetVerbose now (OptVerbose opts) l);
               _ \<leftarrow> closeDevice env d;
               ret r
             })
        })"

end
