(* ===== verification/Tunnel.thy ===== *)
theory Tunnel
  imports Probe
begin

text \<open>
  \<^verbatim>\<open>core/internal/tunnel/session.go\<close>: one userspace tunnel, replaced and taken down by calls
  that may overlap.  A call is a few steps: what it does before it takes the lock, under it, and
  after; the steps of different calls interleave.
\<close>

section \<open>Data\<close>

record Session =
  sessDevice :: "string option"
  sessNet :: "string option"
  sessEndpoint :: string
  sessUpSince :: instant

definition NewSession :: Session where
  "NewSession = \<lparr>sessDevice = None, sessNet = None, sessEndpoint = [], sessUpSince = 0\<rparr>"

record Info =
  InfoEndpoint :: string
  InfoMTU :: int
  InfoObfuscated :: bool
  InfoProtocol :: string

definition info_of :: "Config \<Rightarrow> Info" where
  "info_of cfg =
     \<lparr>InfoEndpoint = Endpoint (peer cfg), InfoMTU = MTU cfg, InfoObfuscated = (Obfuscation cfg \<noteq> fmempty),
      InfoProtocol = (if Obfuscation cfg = fmempty then ''WireGuard'' else ''AmneziaWG'')\<rparr>"

section \<open>Connecting\<close>

text \<open>Before the lock: the configuration is read, the device made, configured and brought up.\<close>

definition prepare :: "environment \<Rightarrow> string \<Rightarrow> (tunnel_error + (Config \<times> string)) io" where
  "prepare env configText =
     (case Awg_Endpoint.Parse configText of
        Inl e \<Rightarrow> ret (Inl (BadConfiguration e))
      | Inr cfg \<Rightarrow> do {
          net \<leftarrow> createNet env cfg;
          (case net of
             Inl e \<Rightarrow> ret (Inl e)
           | Inr _ \<Rightarrow> do {
               d \<leftarrow> newDevice env;
               up \<leftarrow> configure env ''configuring device'' ''bringing device up'' d cfg;
               (case up of
                  Inl e \<Rightarrow> do { _ \<leftarrow> closeDevice env d; ret (Inl e) }
                | Inr _ \<Rightarrow> ret (Inr (cfg, d)))
             })
        })"

text \<open>Under the lock: the new device in, the previous one out.\<close>

definition swapIn :: "environment \<Rightarrow> Config \<Rightarrow> string \<Rightarrow> Session \<Rightarrow> (string option \<times> Session) io" where
  "swapIn env cfg d s = do {
     now \<leftarrow> askNow env;
     ret (sessDevice s, s\<lparr>sessDevice := Some d, sessNet := Some d, sessEndpoint := Endpoint (peer cfg), sessUpSince := now\<rparr>)
   }"

text \<open>After the lock: the previous device is closed.\<close>

definition closePrevious :: "environment \<Rightarrow> string option \<Rightarrow> unit io" where
  "closePrevious env previous = (case previous of None \<Rightarrow> ret () | Some d \<Rightarrow> closeDevice env d)"

definition Session_Connect ::
  "environment \<Rightarrow> string \<Rightarrow> Session \<Rightarrow> ((tunnel_error + Info) \<times> Session) io" where
  "Session_Connect env configText s = do {
     r \<leftarrow> prepare env configText;
     (case r of
        Inl e \<Rightarrow> ret (Inl e, s)
      | Inr (cfg, d) \<Rightarrow> do {
          (previous, s') \<leftarrow> swapIn env cfg d s;
          _ \<leftarrow> closePrevious env previous;
          ret (Inr (info_of cfg), s')
        })
   }"

section \<open>Checking\<close>

record Reachability =
  ReachAddress :: string
  ReachStatus :: string
  ReachElapsedMs :: int

datatype check_error = ErrNotConnected | CheckFailed failure

definition Session_Check ::
  "environment \<Rightarrow> string \<Rightarrow> duration \<Rightarrow> Session \<Rightarrow> (check_error + Reachability) io" where
  "Session_Check env url0 timeout0 s =
     (case sessNet s of
        None \<Rightarrow> ret (Inl ErrNotConnected)
      | Some net \<Rightarrow>
          (let url = (if url0 = [] then ''https://ifconfig.me/ip'' else url0);
               timeout = (if timeout0 \<le> 0 then 20 * seconds else timeout0) in do {
             _ \<leftarrow> ask env (Os ''WithTimeout'' [Itoa timeout]);
             r \<leftarrow> andThen (attempt env (Os ''NewRequest'' [url])) (\<lambda>_. do {
               started \<leftarrow> askNow env;
               andThen (inContext (''reaching '' @ url @ '' through the tunnel'') (attempt env (Os ''Do'' [url])))
                 (\<lambda>sts. do {
                    body \<leftarrow> readLimited env (MaxBody + 1);
                    (case body of
                       Inl e \<Rightarrow> do { _ \<leftarrow> ask env (Os ''CloseBody'' []); ret (Inl (Context ''reading response'' e)) }
                     | Inr b \<Rightarrow>
                         if MaxBody < length b
                         then do { _ \<leftarrow> ask env (Os ''CloseBody'' []); ret (Inl (tooLarge url)) }
                         else do {
                           now \<leftarrow> askNow env;
                           _ \<leftarrow> ask env (Os ''CloseBody'' []);
                           ret (Inr \<lparr>ReachAddress = TrimSpace b, ReachStatus = sts,
                             ReachElapsedMs = Milliseconds_of (time_sub now started)\<rparr>)
                         })
                  })
             });
             ret (map_sum CheckFailed id r)
           }))"

section \<open>Taking down\<close>

text \<open>Under the lock, and after it.\<close>

definition takeOut :: "Session \<Rightarrow> string option \<times> Session" where
  "takeOut s = (sessDevice s, s\<lparr>sessDevice := None, sessNet := None, sessEndpoint := []\<rparr>)"

definition Session_Disconnect :: "environment \<Rightarrow> Session \<Rightarrow> Session io" where
  "Session_Disconnect env s = (case takeOut s of (d, s') \<Rightarrow> do { _ \<leftarrow> closePrevious env d; ret s' })"

definition Session_Up :: "Session \<Rightarrow> bool \<times> string" where
  "Session_Up s = (sessDevice s \<noteq> None, sessEndpoint s)"

section \<open>Calls that overlap\<close>

text \<open>
  What is under way besides the session: calls of \<^verbatim>\<open>Connect\<close> that have their device and wait
  for the lock, and calls that have let go of the lock and have a device to close.
\<close>

record Overlap =
  ovSession :: Session
  ovTrace :: trace
  preparing :: "(Config \<times> string) list"
  closing :: "string list"

inductive overlap :: "environment \<Rightarrow> Overlap \<Rightarrow> bool" for env where
  begun: "overlap env \<lparr>ovSession = NewSession, ovTrace = [], preparing = [], closing = []\<rparr>"
| prepares: "overlap env o1 \<Longrightarrow> run_state (prepare env txt) (ovTrace o1) = (Inr (cfg, d), t) \<Longrightarrow>
    overlap env (o1\<lparr>ovTrace := t, preparing := (cfg, d) # preparing o1\<rparr>)"
| fails: "overlap env o1 \<Longrightarrow> run_state (prepare env txt) (ovTrace o1) = (Inl e, t) \<Longrightarrow>
    overlap env (o1\<lparr>ovTrace := t\<rparr>)"
| swaps: "overlap env o1 \<Longrightarrow> preparing o1 = ps @ (cfg, d) # qs \<Longrightarrow>
    run_state (swapIn env cfg d (ovSession o1)) (ovTrace o1) = ((previous, s), t) \<Longrightarrow>
    overlap env (o1\<lparr>ovSession := s, ovTrace := t, preparing := ps @ qs,
      closing := (case previous of None \<Rightarrow> closing o1 | Some d' \<Rightarrow> d' # closing o1)\<rparr>)"
| takes_out: "overlap env o1 \<Longrightarrow> takeOut (ovSession o1) = (d, s) \<Longrightarrow>
    overlap env (o1\<lparr>ovSession := s, closing := (case d of None \<Rightarrow> closing o1 | Some d' \<Rightarrow> d' # closing o1)\<rparr>)"
| closes: "overlap env o1 \<Longrightarrow> closing o1 = ds @ d # es \<Longrightarrow>
    run_state (closeDevice env d) (ovTrace o1) = ((), t) \<Longrightarrow>
    overlap env (o1\<lparr>ovTrace := t, closing := ds @ es\<rparr>)"
| checks: "overlap env o1 \<Longrightarrow> run_state (Session_Check env url timeout (ovSession o1)) (ovTrace o1) = (r, t) \<Longrightarrow>
    overlap env (o1\<lparr>ovTrace := t\<rparr>)"

text \<open>The devices that are open after a trace, each as often as it was made and not closed.\<close>

definition device_step :: "call \<times> answer \<Rightarrow> string multiset \<Rightarrow> string multiset" where
  "device_step e ds =
     (case e of
        (Os name args, a) \<Rightarrow>
          if name = ''NewDevice'' then ds + {#id_of a#}
          else if name = ''DeviceClose'' then ds - {#hd args#}
          else ds
      | _ \<Rightarrow> ds)"

definition devices :: "trace \<Rightarrow> string multiset" where
  "devices t = fold device_step t {#}"

end
