(* ===== verification/Tunnel_Properties.thy ===== *)
theory Tunnel_Properties
  imports Tunnel Systunnel_Properties
begin

text \<open>
  The properties of the userspace tunnel and of the probe: no device is lost or closed twice, however
  calls overlap; a response is refused rather than cut short; and what the figures of a probe are.
\<close>

section \<open>Devices\<close>

lemma devices_simps [simp]:
  "devices [] = {#}"
  "devices (t @ [e]) = device_step e (devices t)"
  by (simp_all add: devices_def)

lemma devices_append: "devices (t @ es) = fold device_step es (devices t)"
  by (simp add: devices_def)

lemma device_step_simps [simp]:
  "device_step (Os ''NewDevice'' xs, a) ds = ds + {#id_of a#}"
  "device_step (Os ''DeviceClose'' [d], a) ds = ds - {#d#}"
  "name \<noteq> ''NewDevice'' \<Longrightarrow> name \<noteq> ''DeviceClose'' \<Longrightarrow> device_step (Os name xs, a) ds = ds"
  "device_step (Now, a) ds = ds"
  by (simp_all add: device_step_def)

text \<open>A computation that makes and closes no device.\<close>

abbreviation same_devices :: "(trace, 'a) state \<Rightarrow> bool" where
  "same_devices m \<equiv> (\<forall>ds. keeps (\<lambda>t. devices t = ds) m)"

lemma same_devicesD: "same_devices m \<Longrightarrow> devices (snd (run_state m t)) = devices t"
  using keepsD [of "\<lambda>t'. devices t' = devices t" m t] by simp

lemma same_devices_rules:
  "keeps (\<lambda>t. devices t = ds) (askNow env)"
  "keeps (\<lambda>t. devices t = ds) (configure env x y d cfg)"
  "keeps (\<lambda>t. devices t = ds) (createNet env cfg)"
  "keeps (\<lambda>t. devices t = ds) (readLimited env n)"
  "keeps (\<lambda>t. devices t = ds) (meterNow env mo)"
  unfolding configure_def createNet_def readLimited_def
  by (intro keeps_askNow keeps_liftF keeps_andThen keeps_inContext keeps_attempt keeps_ret keeps_bind keeps_ask
      meterNow_keeps; simp)+

lemma fetch_same: "keeps (\<lambda>t. devices t = ds) (fetch env url)"
  unfolding fetch_def
  by (auto intro!: keeps_andThen keeps_bind keeps_if keeps_inContext keeps_attempt keeps_ret same_devices_rules
      split: sum.split)

lemma Check_same: "keeps (\<lambda>t. devices t = ds) (Session_Check env url timeout s)"
  unfolding Session_Check_def Let_def
  by (auto intro!: keeps_andThen keeps_bind keeps_if keeps_inContext keeps_attempt keeps_ask keeps_ret
      same_devices_rules split: sum.split option.split)

lemma prepare_devices:
  assumes "run_state (prepare env txt) t = (r, t')"
  shows "devices t' = devices t + (case r of Inl e \<Rightarrow> {#} | Inr p \<Rightarrow> {#snd p#})"
proof (cases "Awg_Endpoint.Parse txt")
  case (Inl e)
  with assms show ?thesis by (auto simp: prepare_def)
next
  case (Inr cfg)
  obtain n t1 where net: "run_state (createNet env cfg) t = (n, t1)" by fastforce
  have t1: "devices t1 = devices t"
    using same_devicesD [of "createNet env cfg" t] same_devices_rules(3) net by simp
  show ?thesis
  proof (cases n)
    case (Inl e)
    with assms Inr net t1 show ?thesis by (auto simp: prepare_def)
  next
    case (Inr u)
    let ?d = "id_of (env t1 (Os ''NewDevice'' []))"
    let ?t2 = "t1 @ [(Os ''NewDevice'' [], env t1 (Os ''NewDevice'' []))]"
    obtain up t3 where up: "run_state (configure env ''configuring device'' ''bringing device up'' ?d cfg) ?t2 = (up, t3)"
      by fastforce
    have "devices t3 = devices ?t2"
      using same_devicesD [of "configure env ''configuring device'' ''bringing device up'' ?d cfg" ?t2]
        same_devices_rules(2) up by simp
    then have t3: "devices t3 = devices t + {#?d#}" using t1 by simp
    show ?thesis
      using assms \<open>Awg_Endpoint.Parse txt = Inr cfg\<close> net Inr up t3
      by (cases up) (auto simp: prepare_def newDevice_def closeDevice_def)
  qed
qed

abbreviation opt_mset :: "'a option \<Rightarrow> 'a multiset" where
  "opt_mset x \<equiv> (case x of None \<Rightarrow> {#} | Some a \<Rightarrow> {#a#})"

definition accounted :: "Overlap \<Rightarrow> bool" where
  "accounted o1 \<longleftrightarrow>
     devices (ovTrace o1) =
       opt_mset (sessDevice (ovSession o1)) + mset (map snd (preparing o1)) + mset (closing o1) \<and>
     sessNet (ovSession o1) = sessDevice (ovSession o1) \<and>
     (sessDevice (ovSession o1) = None \<longrightarrow> sessEndpoint (ovSession o1) = [])"

lemma swapIn_run:
  "run_state (swapIn env cfg d s) t =
     ((sessDevice s, s\<lparr>sessDevice := Some d, sessNet := Some d, sessEndpoint := Endpoint (peer cfg),
         sessUpSince := clock_of (env t Now)\<rparr>), t @ [(Now, env t Now)])"
  by (simp add: swapIn_def askNow_def)

lemma overlap_accounted: "overlap env o1 \<Longrightarrow> accounted o1"
proof (induction rule: overlap.induct)
  case begun
  show ?case by (simp add: accounted_def NewSession_def)
next
  case (prepares o1 cf cfg d t)
  then show ?case using prepare_devices [OF prepares.hyps(2)] by (simp add: accounted_def)
next
  case (fails o1 cf e t)
  then show ?case using prepare_devices [OF fails.hyps(2)] by (simp add: accounted_def)
next
  case (swaps o1 ps cfg d qs previous s t)
  then show ?case by (auto simp: accounted_def swapIn_run split: option.split)
next
  case (takes_out o1 d s)
  then show ?case by (auto simp: accounted_def takeOut_def split: option.split)
next
  case (closes o1 ds d es t)
  then show ?case by (auto simp: accounted_def closeDevice_def)
next
  case (checks o1 url timeout r t)
  then show ?case
    using same_devicesD [of "Session_Check env url timeout (ovSession o1)" "ovTrace o1"] Check_same
    by (simp add: accounted_def)
qed

text \<open>
  C16: No device is lost.  However calls of \<^verbatim>\<open>Connect\<close>, \<^verbatim>\<open>Disconnect\<close> and \<^verbatim>\<open>Check\<close> overlap and
  whichever of them fail, the devices that are open are the session's, those of the calls that have
  yet to take the lock, and those still to be closed, each once; so when no call is under way what is
  open is the session's device, and nothing when there is none.
\<close>

theorem devices_accounted:
  assumes "overlap env o1"
  shows "devices (ovTrace o1) =
      opt_mset (sessDevice (ovSession o1)) + mset (map snd (preparing o1)) + mset (closing o1) \<and>
    (preparing o1 = [] \<and> closing o1 = [] \<longrightarrow>
      devices (ovTrace o1) = (if fst (Session_Up (ovSession o1)) then {#the (sessDevice (ovSession o1))#} else {#}))"
  using overlap_accounted [OF assms] by (auto simp: accounted_def Session_Up_def split: option.split)

text \<open>A call of \<^verbatim>\<open>Connect\<close> by itself.\<close>

lemma sample_Parse: "Awg_Endpoint.Parse sample_text = Inr sample_config"
proof -
  have "\<not> LooksLikeJSON sample_text" by code_simp
  then show ?thesis by (simp add: Awg_Endpoint.Parse_def sample_parses)
qed

lemma createNet_run:
  "run_state (createNet env cfg) t =
     (let c = Os ''CreateNetTUN''
          [Join (map Addr_String (Addresses cfg)) '','', Join (resolvers cfg) '','', Itoa (MTU cfg)]
      in ((case env t c of
             Done _ \<Rightarrow> Inr ()
           | Missing \<Rightarrow> Inl (Failure (Context ''creating netstack device'' NotExist))
           | _ \<Rightarrow> Inl (Failure (Context ''creating netstack device'' (OsFailed c)))), t @ [(c, env t c)]))"
  by (simp add: createNet_def run_liftF run_andThen Let_def split: answer.split sum.split)

lemma sample_prepares:
  "\<exists>d t'. run_state (prepare served_environment sample_text) t = (Inr (sample_config, d), t')"
  by (auto simp: prepare_def sample_Parse createNet_run newDevice_def configure_def run_liftF run_andThen
      served_environment_def kind_environment_def Let_def)

theorem devices_accounted_witness:
  "\<exists>o1 d. overlap served_environment o1 \<and> ovSession o1 \<noteq> NewSession \<and> devices (ovTrace o1) = {#d#}"
proof -
  let ?o = "\<lparr>ovSession = NewSession, ovTrace = [], preparing = [], closing = []\<rparr>"
  obtain d t where run: "run_state (prepare served_environment sample_text) [] = (Inr (sample_config, d), t)"
    using sample_prepares by blast
  let ?o1 = "?o\<lparr>ovTrace := t, preparing := [(sample_config, d)]\<rparr>"
  have one: "overlap served_environment ?o1"
    using overlap.prepares [OF overlap.begun, of served_environment sample_text sample_config d t] run by simp
  obtain previous s t2 where sw: "run_state (swapIn served_environment sample_config d NewSession) t = ((previous, s), t2)"
    by (metis prod.exhaust)
  then have s: "previous = None" "sessDevice s = Some d" by (auto simp: swapIn_run NewSession_def)
  have two: "overlap served_environment (?o1\<lparr>ovSession := s, ovTrace := t2, preparing := [], closing := []\<rparr>)"
    using overlap.swaps [OF one, of "[]" sample_config d "[]" previous s t2] sw s(1) by simp
  show ?thesis
    using devices_accounted [OF two] two s(2)
    by (intro exI [of _ "?o1\<lparr>ovSession := s, ovTrace := t2, preparing := [], closing := []\<rparr>"] exI [of _ d])
      (auto simp: Session_Up_def NewSession_def)
qed

text \<open>
  C17: A failed \<^verbatim>\<open>Connect\<close> leaves the tunnel that was working alone, and nothing of its own; a
  successful one puts its device in and closes the one that was there.
\<close>

theorem Connect_replaces_or_keeps:
  assumes "run_state (Session_Connect env txt s) t = ((r, s'), t')"
  shows "case r of
      Inl e \<Rightarrow> s' = s \<and> devices t' = devices t
    | Inr info \<Rightarrow>
        (\<exists>cfg d. Awg_Endpoint.Parse txt = Inr cfg \<and> info = info_of cfg \<and>
           sessDevice s' = Some d \<and> sessNet s' = Some d \<and> Session_Up s' = (True, Endpoint (peer cfg)) \<and>
           devices t' = devices t + {#d#} - opt_mset (sessDevice s))"
proof -
  obtain p t1 where prep: "run_state (prepare env txt) t = (p, t1)" by fastforce
  note d = prepare_devices [OF prep]
  show ?thesis
  proof (cases p)
    case (Inl e)
    with assms prep d show ?thesis by (auto simp: Session_Connect_def)
  next
    case (Inr q)
    obtain cfg dv where q: "q = (cfg, dv)" by fastforce
    have "Awg_Endpoint.Parse txt = Inr cfg"
      using prep Inr q
      by (auto simp: prepare_def newDevice_def split: sum.splits prod.splits)
    with assms prep d Inr q show ?thesis
      by (auto simp: Session_Connect_def swapIn_run closePrevious_def closeDevice_def Session_Up_def devices_append
          split: option.splits)
  qed
qed

theorem Connect_replaces_or_keeps_witness:
  "\<exists>info s t. run_state (Session_Connect served_environment sample_text NewSession) [] = ((Inr info, s), t) \<and>
     Session_Up s = (True, ''h:1'')"
proof -
  obtain d t where run: "run_state (prepare served_environment sample_text) [] = (Inr (sample_config, d), t)"
    using sample_prepares by blast
  obtain r s t' where c: "run_state (Session_Connect served_environment sample_text NewSession) [] = ((r, s), t')"
    by (metis prod.exhaust)
  then have r: "r = Inr (info_of sample_config)"
    using run by (auto simp: Session_Connect_def swapIn_run closePrevious_def NewSession_def)
  show ?thesis
    using Connect_replaces_or_keeps [OF c] c sample_Parse unfolding r by (auto simp: sample_config_def)
qed

section \<open>A response\<close>

text \<open>What the body was, when the computation that read it succeeds.\<close>

definition received :: "trace \<Rightarrow> trace \<Rightarrow> string \<Rightarrow> bool" where
  "received t t' sent \<longleftrightarrow> (\<exists>s. t' = t @ s \<and> (Os ''Body'' [], Done sent) \<in> set s)"

text \<open>
  C21: A response is refused rather than cut short.  When a request through the tunnel succeeds, in a
  probe or in a check, the server's body had ended, it is no longer than 256 KiB, and what is
  reported is the whole of it, without the space around it; the time is that of the clock between.
\<close>

theorem fetch_whole_body:
  "(\<forall>sts body took t'. run_state (fetch env url) t = (Inr (sts, body, took), t') \<longrightarrow>
      (\<exists>sent. received t t' sent \<and> length sent \<le> MaxBody \<and> body = TrimSpace sent \<and> in_int64 took)) \<and>
   (\<forall>r t'. run_state (Session_Check env url timeout s) t = (Inr r, t') \<longrightarrow>
      (\<exists>sent. received t t' sent \<and> length sent \<le> MaxBody \<and> ReachAddress r = TrimSpace sent \<and> sessNet s \<noteq> None))"
proof (intro conjI allI impI)
  show "\<exists>sent. received t t' sent \<and> length sent \<le> MaxBody \<and> body = TrimSpace sent \<and> in_int64 took"
    if "run_state (fetch env url) t = (Inr (sts, body, took), t')" for sts body took t'
    using that
    by (auto simp: fetch_def run_andThen askNow_def readLimited_def received_def
        split: answer.splits sum.splits prod.splits if_splits)
  show "\<exists>sent. received t t' sent \<and> length sent \<le> MaxBody \<and> ReachAddress r = TrimSpace sent \<and> sessNet s \<noteq> None"
    if "run_state (Session_Check env url timeout s) t = (Inr r, t')" for r t'
    using that
    by (auto simp: Session_Check_def Let_def run_andThen askNow_def readLimited_def received_def
        split: answer.splits sum.splits prod.splits if_splits option.splits)
qed

theorem fetch_whole_body_witness:
  "\<exists>took t. run_state (fetch served_environment ''u'') [] = (Inr ([], [], took), t) \<and> in_int64 took"
proof -
  obtain r t where run: "run_state (fetch served_environment ''u'') [] = (r, t)" by fastforce
  have "TrimSpace [] = []" by code_simp
  with run obtain took where "r = Inr ([], [], took)"
    by (auto simp: fetch_def run_andThen askNow_def readLimited_def served_environment_def kind_environment_def)
  with run fetch_whole_body [of served_environment "''u''" "[]"] show ?thesis by blast
qed

end
