(* ===== verification/Probe_Properties.thy ===== *)
theory Probe_Properties
  imports Tunnel_Properties Rtt_Properties Diag_Properties
begin

text \<open>
  The properties of a probe: the handshake clock against what the device logged, the figure of the
  exit against what the meter was shown, the device and the log a probe leaves.
\<close>

section \<open>The handshake clock\<close>

lemma words_differ [simp]: "sendingInitiation \<noteq> receivedResponse" "receivedResponse \<noteq> sendingInitiation"
  by (simp_all add: sendingInitiation_def receivedResponse_def)

text \<open>The messages of a handshake, and the round trips of those initiations that the next such
  message answers.\<close>

definition handshake_messages :: "(instant \<times> string) list \<Rightarrow> (instant \<times> string) list" where
  "handshake_messages ms = filter (\<lambda>m. snd m \<in> {sendingInitiation, receivedResponse}) ms"

fun exchanges :: "(instant \<times> string) list \<Rightarrow> duration list" where
  "exchanges (m # m' # ms) =
     (if snd m = sendingInitiation \<and> snd m' = receivedResponse then [time_sub (fst m') (fst m)] else [])
     @ exchanges (m' # ms)"
| "exchanges ms = []"

abbreviation latest :: "'a option \<Rightarrow> 'a list \<Rightarrow> 'a option" where
  "latest old xs \<equiv> (if xs = [] then old else Some (last xs))"

lemma fold_observe_filter:
  "fold (\<lambda>(now, format). observe now format) ms c =
   fold (\<lambda>(now, format). observe now format) (handshake_messages ms) c"
  by (induction ms arbitrary: c) (auto simp: handshake_messages_def observe_def)

lemma fold_observe:
  assumes "\<forall>m \<in> set ms. snd m \<in> {sendingInitiation, receivedResponse}"
  shows "roundTrip (fold (\<lambda>(now, format). observe now format) ms c) =
    latest (roundTrip c) (exchanges (case hsSent c of None \<Rightarrow> (0, receivedResponse) # ms | Some t \<Rightarrow> (t, sendingInitiation) # ms))"
  using assms
proof (induction ms arbitrary: c)
  case (Cons m ms)
  obtain now format where m: "m = (now, format)" by fastforce
  have IH: "roundTrip (fold (\<lambda>(now, format). observe now format) ms d) =
    latest (roundTrip d) (exchanges (case hsSent d of None \<Rightarrow> (0, receivedResponse) # ms | Some t \<Rightarrow> (t, sendingInitiation) # ms))"
    for d using Cons by simp
  have dull: "exchanges ((now, receivedResponse) # ms) = exchanges ((0, receivedResponse) # ms)"
    by (cases ms) simp_all
  from Cons.prems m have "format = sendingInitiation \<or> format = receivedResponse" by simp
  then show ?case
  proof
    assume f: "format = sendingInitiation"
    show ?thesis
      unfolding m fold.simps o_apply case_prod_conv IH
      by (cases "hsSent c") (simp_all add: f observe_def roundTrip_def)
  next
    assume f: "format = receivedResponse"
    show ?thesis
      unfolding m fold.simps o_apply case_prod_conv IH
      by (cases "hsSent c") (simp_all add: f observe_def roundTrip_def dull del: exchanges.simps, simp_all add: dull)
  qed
qed (simp split: option.split)

text \<open>
  C22: The handshake's round trip.  Whatever a device logs in whatever order, what the clock reports
  is the time from the last initiation that the next message of the kind answers to that answer, and
  nothing when no initiation was answered: a response after a retry is timed from the retry.
\<close>

theorem clock_reports_last_exchange:
  "roundTrip (clock_after ms) =
     (if exchanges (handshake_messages ms) = [] then None else Some (last (exchanges (handshake_messages ms))))"
proof -
  have "exchanges ((0, receivedResponse) # handshake_messages ms) = exchanges (handshake_messages ms)"
    by (cases "handshake_messages ms") simp_all
  moreover have "\<forall>m \<in> set (handshake_messages ms). snd m \<in> {sendingInitiation, receivedResponse}"
    by (simp add: handshake_messages_def)
  ultimately show ?thesis
    using fold_observe [of "handshake_messages ms" newHandshakeClock]
    by (simp add: clock_after_def fold_observe_filter [of ms] newHandshakeClock_def roundTrip_def)
qed

section \<open>The figure of the exit\<close>

lemma Forget_is_New: "pending m = fmempty \<Longrightarrow> Forget m = Rtt.New"
  by (cases m) (simp add: Forget_def Rtt.New_def)

lemma timeExit_run:
  assumes "run_state (timeExit env target during m l) t = ((r, m', l'), t')"
  shows "(\<exists>out. env t (Os ''DialContext'' [''tcp'', target, Itoa exitDialTimeout]) = Done out) \<Longrightarrow>
      l' = l \<and> (\<exists>now. r = fst (Latency now (carried during (Forget m))))"
    and "(\<And>out. env t (Os ''DialContext'' [''tcp'', target, Itoa exitDialTimeout]) \<noteq> Done out) \<Longrightarrow> r = None"
  using assms
  by (auto simp: timeExit_def Let_def split: answer.splits prod.splits) (metis fst_conv)

lemma carried_metered: "metered es (carried es Rtt.New)"
proof (induction es rule: rev_induct)
  case Nil
  show ?case by (simp add: carried_def metered.start)
next
  case (snoc e es)
  obtain m where m: "meter_step e (carried es Rtt.New) = Some m" using meter_step_total by blast
  then have "carried (es @ [e]) Rtt.New = m" by (simp add: carried_def)
  with metered.step [OF snoc m] show ?case by simp
qed

text \<open>
  The exit's figure is that of the connection made to time it: when no SYN was waiting for its
  answer, it is what a new meter gives that is shown the packets of the dial and nothing else.
\<close>

theorem exit_timed_alone:
  assumes "run_state (timeExit env target during m l) t = ((Some took, m', l'), t')"
    and "pending m = fmempty"
  shows "\<exists>m0 now. metered during m0 \<and> fst (Latency now m0) = Some took"
  using timeExit_run [OF assms(1)] carried_metered [of during] Forget_is_New [OF assms(2)]
  by (metis option.distinct(1))

abbreviation one_connection :: Meter where
  "one_connection \<equiv>
     \<lparr>pending = fmempty, samples = [\<lparr>sample_at = 1000000, rtt = 1000000\<rparr>], last_rtt = 0, seen = True\<rparr>"

lemma carried_connection:
  "carried [Out 0 (client_syn 1)] Rtt.New = add_syn 0 (client_flow 1) 1000 Rtt.New"
  "carried [In 1000000 (server_answer 1)] (add_syn 0 (client_flow 1) 1000 Rtt.New) = one_connection"
  "carried [Out 0 (client_syn 1), In 1000000 (server_answer 1)] Rtt.New = one_connection"
  "Forget (add_syn 0 (client_flow 1) 1000 Rtt.New) = add_syn 0 (client_flow 1) 1000 Rtt.New"
  "Forget Rtt.New = Rtt.New"
  by (simp_all add: carried_def Outbound_eq Inbound_eq Rtt.New_def maxPending_def add_syn_def add_sample_def
      push_sample_def maxSamples_def pendingFor_def seconds_def time_sub_def int64_min_def int64_max_def Forget_def)

lemma one_connection_figure: "fst (Latency now one_connection) = Some 1000000"
  by (simp add: Latency_def expireLocked_def Let_def least_rtt_def)

lemma sample_dial:
  assumes "carried during (Forget m) = one_connection"
  shows "\<exists>m' t'. run_state (timeExit served_environment DefaultLatencyTarget during m l) t = ((Some 1000000, m', l), t')"
proof -
  obtain now t1 where now: "run_state (meterNow served_environment (Some one_connection))
      (t @ [(Os ''DialContext'' [''tcp'', DefaultLatencyTarget, Itoa exitDialTimeout], Done []),
            (Os ''CloseConn'' [], Done [])]) = (now, t1)" by fastforce
  obtain m' where lat: "Latency now one_connection = (Some 1000000, m')"
    using one_connection_figure [of now] by (metis fst_conv prod.exhaust)
  show ?thesis
    using now lat by (simp add: timeExit_def Let_def assms served_environment_def kind_environment_def)
qed

theorem exit_timed_alone_witness:
  "\<exists>m0 now. metered [Out 0 (client_syn 1), In 1000000 (server_answer 1)] m0 \<and> fst (Latency now m0) = Some 1000000"
proof -
  have p: "pending Rtt.New = fmempty" by (simp add: Rtt.New_def)
  have c: "carried [Out 0 (client_syn 1), In 1000000 (server_answer 1)] (Forget Rtt.New) = one_connection"
    by (simp only: carried_connection)
  obtain m' t' where run: "run_state (timeExit served_environment DefaultLatencyTarget
      [Out 0 (client_syn 1), In 1000000 (server_answer 1)] Rtt.New empty_Log) [] = ((Some 1000000, m', empty_Log), t')"
    using sample_dial [OF c] by blast
  show ?thesis by (rule exit_timed_alone [OF run p])
qed

text \<open>A dial during which a connection made before is answered, and then the dial's own.\<close>

abbreviation dial_events :: "event list" where
  "dial_events \<equiv> [Out 0 (client_syn 2), In 1000000 (server_answer 1), In 2000000 (server_answer 2)]"

abbreviation measured :: "sample list \<Rightarrow> Meter" where
  "measured ss \<equiv> \<lparr>pending = fmempty, samples = ss, last_rtt = 0, seen = True\<rparr>"

lemma fmdrop_two: "f \<noteq> g \<Longrightarrow> fmdrop g (fmdrop f (fmupd g v (fmupd f w fmempty))) = fmempty"
  by (rule fmap_ext) simp

lemma carried_dial:
  "carried dial_events Rtt.New = measured [\<lparr>sample_at = 2000000, rtt = 2000000\<rparr>]"
  "carried dial_events (carried [Out 0 (client_syn 1)] Rtt.New) =
     measured [\<lparr>sample_at = 1000000, rtt = 1000000\<rparr>, \<lparr>sample_at = 2000000, rtt = 2000000\<rparr>]"
  by (simp_all add: carried_def Outbound_eq Inbound_eq Rtt.New_def maxPending_def add_syn_def add_sample_def
      map_len_upd fmdrop_two push_sample_def maxSamples_def pendingFor_def seconds_def time_sub_def int64_min_def
      int64_max_def)

definition dialled_environment :: environment where
  "dialled_environment t c = (case c of Now \<Rightarrow> Clock 3000000 | _ \<Rightarrow> Done [])"

text \<open>
  C40: The exit's figure can be another connection's.  Forgetting drops the round trips and keeps the
  SYNs that wait for an answer: when one of those is answered during the dial, the probe can report a
  millisecond where the dial's own connection took two.
\<close>

theorem exit_times_another_connection:
  "\<exists>before during. (\<forall>now. fst (Latency now (carried during Rtt.New)) = Some 2000000) \<and>
     (\<exists>m' l' t'. run_state (timeExit dialled_environment DefaultLatencyTarget during (carried before Rtt.New) l) t =
        ((Some 1000000, m', l'), t'))"
proof (intro exI conjI allI)
  show "fst (Latency now (carried dial_events Rtt.New)) = Some 2000000" for now
    unfolding carried_dial by (simp add: Latency_def expireLocked_def Let_def least_rtt_def)
  have "Forget (carried [Out 0 (client_syn 1)] Rtt.New) = carried [Out 0 (client_syn 1)] Rtt.New"
    by (simp only: carried_connection)
  then show "run_state (timeExit dialled_environment DefaultLatencyTarget dial_events
      (carried [Out 0 (client_syn 1)] Rtt.New) l) t =
    ((Some 1000000, measured [\<lparr>sample_at = 1000000, rtt = 1000000\<rparr>, \<lparr>sample_at = 2000000, rtt = 2000000\<rparr>]\<lparr>last_rtt := 1000000\<rparr>, l),
     t @ [(Os ''DialContext'' [''tcp'', DefaultLatencyTarget, Itoa exitDialTimeout], Done []),
          (Os ''CloseConn'' [], Done []), (Now, Clock 3000000)])"
    by (simp add: timeExit_def Let_def carried_dial dialled_environment_def meterNow_def askNow_def clock_of_def
        Latency_def expireLocked_eq least_rtt_def time_sub_def int64_min_def int64_max_def Window_def seconds_def)
qed

section \<open>A probe\<close>

lemma logged_same: "keeps (\<lambda>t. devices t = ds) (logged env message l)"
  unfolding logged_def by (intro keeps_bind keeps_ret same_devices_rules)

lemma timeExit_same: "keeps (\<lambda>t. devices t = ds) (timeExit env target during m l)"
  unfolding timeExit_def Let_def
  by (auto intro!: keeps_bind keeps_attempt keeps_ask keeps_ret logged_same same_devices_rules
      split: sum.split prod.split)

lemma measureLatency_same:
  assumes "\<And>l. keeps (\<lambda>t. devices t = ds) (exit l)" and "keeps (\<lambda>t. devices t = ds) request"
  shows "keeps (\<lambda>t. devices t = ds) (measureLatency env exit handshake request l)"
  unfolding measureLatency_def
  by (auto intro!: keeps_bind keeps_inContext keeps_ret logged_same assms split: prod.split option.split)

lemma probeLatency_same: "keeps (\<lambda>t. devices t = ds) (probeLatency env traffic opts l)"
  unfolding probeLatency_def exitSource_def requestSource_def
  by (auto intro!: keeps_bind keeps_if keeps_ret measureLatency_same fetch_same timeExit_same split: prod.split)

lemma probeWith_same: "keeps (\<lambda>t. devices t = ds) (probeWith env traffic cfg opts d l)"
  unfolding probeWith_def
  by (auto intro!: keeps_bind keeps_ask keeps_ret probeLatency_same fetch_same same_devices_rules
      split: sum.split prod.split)

lemma map_wrap_Inr: "map_sum id f (wrapE w x) = Inr y \<Longrightarrow> \<exists>a. x = Inr a \<and> y = f a"
  by (cases x) auto

lemma measureLatency_positive:
  assumes "run_state (measureLatency env exit handshake request l) t = ((Inr ms, l'), t')"
  shows "1 \<le> ms"
  using assms
  by (auto simp: measureLatency_def logged_def dest!: map_wrap_Inr split: prod.splits option.splits)

lemma probeLatency_result:
  assumes "run_state (probeLatency env traffic opts l) t = ((Inr ms, l'), t')"
  shows "case ms of None \<Rightarrow> \<not> OptMeasureLatency opts | Some n \<Rightarrow> OptMeasureLatency opts \<and> 1 \<le> n"
proof (cases "OptMeasureLatency opts")
  case True
  obtain x l1 t1 where run: "run_state (measureLatency env (exitSource env traffic opts)
      (roundTrip (clock_after (messages traffic))) (requestSource env opts) l) t = ((x, l1), t1)"
    by (metis prod.exhaust)
  with assms True obtain n where "x = Inr n" "ms = Some n"
    by (cases x) (auto simp: probeLatency_def)
  with measureLatency_positive run True show ?thesis by fastforce
qed (use assms in \<open>auto simp: probeLatency_def\<close>)

lemma probeWith_Inr:
  assumes "run_state (probeWith env traffic cfg opts d l) t = ((Inr res, l'), t')"
  obtains ms t1 where "run_state (probeLatency env traffic opts l) t1 = ((Inr ms, l'), t')"
    "ResEndpoint res = Endpoint (peer cfg)" "ResMTU res = MTU cfg" "ResObfuscated res = (Obfuscation cfg \<noteq> fmempty)"
    "ResLatencyMs res = ms"
  using assms by (auto simp: probeWith_def split: prod.splits sum.splits)

lemma with_defaults_measure [simp]: "OptMeasureLatency (with_defaults opts) = OptMeasureLatency opts"
  by (simp add: with_defaults_def Let_def)

lemma Run_devices:
  assumes "run_state (Run env traffic txt opts l) t = ((r, l'), t')"
  shows "devices t' = devices t"
proof (cases "Awg_Endpoint.Parse txt")
  case (Inl e)
  with assms show ?thesis by (simp add: Run_def)
next
  case (Inr cfg)
  obtain n t1 where net: "run_state (createNet env cfg) t = (n, t1)" by fastforce
  have t1: "devices t1 = devices t"
    using same_devicesD [of "createNet env cfg" t] same_devices_rules(3) net by simp
  show ?thesis
  proof (cases n)
    case (Inl e)
    with assms Inr net t1 show ?thesis by (auto simp: Run_def Let_def)
  next
    case (Inr u)
    let ?t2 = "t1 @ [(Now, env t1 Now)]"
    let ?d = "id_of (env ?t2 (Os ''NewDevice'' []))"
    let ?t3 = "?t2 @ [(Os ''NewDevice'' [], env ?t2 (Os ''NewDevice'' []))]"
    let ?p = "probeWith env traffic cfg (with_defaults opts) ?d
      (SetVerbose (clock_of (env t1 Now)) (OptVerbose (with_defaults opts)) l)"
    obtain x t4 where run: "run_state ?p ?t3 = (x, t4)" by fastforce
    have "devices t4 = devices ?t3" using same_devicesD [of ?p ?t3] probeWith_same run by simp
    moreover have "devices ?t3 = devices t + {#?d#}" using t1 by (simp add: devices_append)
    moreover have "t' = t4 @ [(Os ''DeviceClose'' [?d], env t4 (Os ''DeviceClose'' [?d]))]"
      using assms \<open>Awg_Endpoint.Parse txt = Inr cfg\<close> net Inr run
      by (simp add: Run_def Let_def newDevice_def closeDevice_def askNow_def)
    ultimately show ?thesis by simp
  qed
qed

lemma Run_result:
  assumes "run_state (Run env traffic txt opts l) t = ((Inr res, l'), t')"
  obtains cfg d now t1 t2 where "Awg_Endpoint.Parse txt = Inr cfg"
    "run_state (probeWith env traffic cfg (with_defaults opts) d
       (SetVerbose now (OptVerbose (with_defaults opts)) l)) t1 = ((Inr res, l'), t2)"
  using assms
  by (auto simp: Run_def Let_def newDevice_def closeDevice_def askNow_def split: sum.splits prod.splits)

text \<open>
  A probe closes what it opens, whether it succeeds or fails at any step, and its answer carries
  a latency exactly when one was asked for, of at least a millisecond.
\<close>

theorem Run_leaves_nothing:
  assumes "run_state (Run env traffic txt opts l) t = ((r, l'), t')"
  shows "devices t' = devices t \<and>
    (case r of Inl e \<Rightarrow> True
     | Inr res \<Rightarrow>
         (\<exists>cfg. Awg_Endpoint.Parse txt = Inr cfg \<and> ResEndpoint res = Endpoint (peer cfg) \<and> ResMTU res = MTU cfg \<and>
            ResObfuscated res = (Obfuscation cfg \<noteq> fmempty)) \<and>
         (case ResLatencyMs res of None \<Rightarrow> \<not> OptMeasureLatency opts | Some ms \<Rightarrow> OptMeasureLatency opts \<and> 1 \<le> ms))"
proof (cases r)
  case (Inl e)
  then show ?thesis using Run_devices [OF assms] by simp
next
  case (Inr res)
  obtain cfg d now t1 t2 where p: "Awg_Endpoint.Parse txt = Inr cfg"
    "run_state (probeWith env traffic cfg (with_defaults opts) d
       (SetVerbose now (OptVerbose (with_defaults opts)) l)) t1 = ((Inr res, l'), t2)"
    using Run_result assms Inr by blast
  obtain ms t3 where q: "run_state (probeLatency env traffic (with_defaults opts)
       (SetVerbose now (OptVerbose (with_defaults opts)) l)) t3 = ((Inr ms, l'), t2)"
    "ResEndpoint res = Endpoint (peer cfg)" "ResMTU res = MTU cfg" "ResObfuscated res = (Obfuscation cfg \<noteq> fmempty)"
    "ResLatencyMs res = ms" by (rule probeWith_Inr [OF p(2)])
  show ?thesis
    unfolding Inr
    using Run_devices [OF assms] p(1) q(2-5) probeLatency_result [OF q(1), unfolded with_defaults_measure] by simp
qed

definition sample_options :: Options where
  "sample_options = \<lparr>OptURL = [], OptTimeout = 0, OptVerbose = False, OptMeasureLatency = False, OptLatencyTarget = []\<rparr>"

definition no_traffic :: Traffic where
  "no_traffic = \<lparr>beforeDial = [], duringDial = [], messages = []\<rparr>"

lemma fetch_served:
  "\<exists>took t'. run_state (fetch served_environment url) t = (Inr ([], [], took), t')"
proof -
  have "TrimSpace [] = []" by code_simp
  then show ?thesis
    by (auto simp: fetch_def run_andThen askNow_def readLimited_def served_environment_def kind_environment_def)
qed

lemma probeWith_served:
  assumes "\<not> OptMeasureLatency opts"
  shows "\<exists>res t'. run_state (probeWith served_environment traffic cfg opts d l) t = ((Inr res, l), t')"
proof -
  obtain t1 where up: "run_state (configure served_environment ''configuring device'' ''bringing device up'' d cfg) t = (Inr (), t1)"
    by (simp add: configure_def run_liftF run_andThen served_environment_def kind_environment_def)
  let ?c = "Os ''WithTimeout'' [Itoa (OptTimeout opts)]"
  obtain took t2 where "run_state (fetch served_environment (OptURL opts)) (t1 @ [(?c, served_environment t1 ?c)]) = (Inr ([], [], took), t2)"
    using fetch_served by blast
  with up assms show ?thesis by (simp add: probeWith_def probeLatency_def)
qed

lemma sample_Run:
  "\<exists>res now t'. run_state (Run served_environment no_traffic sample_text sample_options l) t =
     ((Inr res, SetVerbose now False l), t')"
proof -
  let ?o = "with_defaults sample_options"
  have o: "\<not> OptMeasureLatency ?o" "OptVerbose ?o = False"
    by (simp_all add: with_defaults_def sample_options_def Let_def)
  obtain t1 where net: "run_state (createNet served_environment sample_config) t = (Inr (), t1)"
    by (simp add: createNet_run Let_def served_environment_def kind_environment_def)
  let ?t2 = "t1 @ [(Now, served_environment t1 Now)]"
  let ?t3 = "?t2 @ [(Os ''NewDevice'' [], served_environment ?t2 (Os ''NewDevice'' []))]"
  obtain res t4 where "run_state (probeWith served_environment no_traffic sample_config ?o
      (id_of (served_environment ?t2 (Os ''NewDevice'' [])))
      (SetVerbose (clock_of (served_environment t1 Now)) False l)) ?t3 =
      ((Inr res, SetVerbose (clock_of (served_environment t1 Now)) False l), t4)"
    using probeWith_served [OF o(1)] by blast
  with net o(2) show ?thesis
    by (simp add: Run_def sample_Parse Let_def newDevice_def closeDevice_def askNow_def) blast
qed

theorem Run_leaves_nothing_witness:
  "\<exists>res l' t'. run_state (Run served_environment no_traffic sample_text sample_options empty_Log) [] = ((Inr res, l'), t') \<and>
     devices t' = {#} \<and> ResLatencyMs res = None \<and> ResEndpoint res = ''h:1''"
proof -
  obtain res l' t' where run:
    "run_state (Run served_environment no_traffic sample_text sample_options empty_Log) [] = ((Inr res, l'), t')"
    using sample_Run by blast
  show ?thesis
    using Run_leaves_nothing [OF run] run sample_Parse
    by (auto simp: sample_options_def sample_config_def split: option.splits)
qed

lemma Logf_length: "length (lines l) \<le> length (lines (Logf now message l))"
  by (simp add: Logf_def push_line_def Let_def capacity_def)

lemma SetVerbose_length: "length (lines (SetVerbose now on l)) = Suc (length (lines l))"
  by (simp add: SetVerbose_def)

lemma timeExit_length:
  "run_state (timeExit env target during m l) t = ((r, m', l'), t') \<Longrightarrow> length (lines l) \<le> length (lines l')"
  using Logf_length by (auto simp: timeExit_def logged_def Let_def split: sum.splits prod.splits)

lemma measureLatency_length:
  assumes "run_state (measureLatency env exit handshake request l) t = ((r, l'), t')"
    and "\<And>l t r l' t'. run_state (exit l) t = ((r, l'), t') \<Longrightarrow> length (lines l) \<le> length (lines l')"
  shows "length (lines l) \<le> length (lines l')"
proof -
  obtain x l1 t1 where run: "run_state (exit l) t = ((x, l1), t1)" by (metis prod.exhaust)
  have "length (lines l1) \<le> length (lines l')"
    using assms(1) run Logf_length
    by (auto simp: measureLatency_def logged_def split: prod.splits option.splits)
  with assms(2) [OF run] show ?thesis by linarith
qed

lemma probeLatency_length:
  assumes "run_state (probeLatency env traffic opts l) t = ((r, l'), t')"
  shows "length (lines l) \<le> length (lines l')"
proof (cases "OptMeasureLatency opts")
  case True
  have exit: "length (lines l) \<le> length (lines l')"
    if "run_state (exitSource env traffic opts l) t = ((r, l'), t')" for l t r l' t'
    using that by (auto simp: exitSource_def dest: timeExit_length split: prod.splits)
  obtain x l1 t1 where run: "run_state (measureLatency env (exitSource env traffic opts)
      (roundTrip (clock_after (messages traffic))) (requestSource env opts) l) t = ((x, l1), t1)"
    by (metis prod.exhaust)
  with assms True have "l' = l1" by (simp add: probeLatency_def)
  with measureLatency_length [OF run exit] show ?thesis by simp
qed (use assms in \<open>auto simp: probeLatency_def\<close>)

text \<open>
  Probing breaks the log's bound.  A probe sets the verbose switch to what it is and a line says
  so, without the log making room: from a log that is full, every probe leaves a longer one, and the
  lines recorded after it no longer drop any.
\<close>

theorem probe_unbounds_log:
  assumes "capacity \<le> length (lines l)"
    and "run_state (Run env traffic txt opts l) t = ((Inr res, l'), t')"
  shows "length (lines l) < length (lines l') \<and>
    (\<forall>now message. length (lines (Logf now message l')) = Suc (length (lines l')))"
proof -
  obtain cfg d now t1 t2 where p: "run_state (probeWith env traffic cfg (with_defaults opts) d
       (SetVerbose now (OptVerbose (with_defaults opts)) l)) t1 = ((Inr res, l'), t2)"
    using Run_result [OF assms(2)] by metis
  have "length (lines l) < length (lines l')"
    by (rule probeWith_Inr [OF p], drule probeLatency_length) (simp add: SetVerbose_length)
  with assms(1) show ?thesis by (simp add: Logf_def push_line_def Let_def)
qed

theorem probe_unbounds_log_witness:
  "\<exists>l' t'. snd (fst (run_state (Run served_environment no_traffic sample_text sample_options
       \<lparr>lines = replicate 400 [], verbose = False\<rparr>) [])) = l' \<and> 400 < length (lines l')"
proof -
  let ?l = "\<lparr>lines = replicate 400 [], verbose = False\<rparr>"
  obtain res l' t' where run:
    "run_state (Run served_environment no_traffic sample_text sample_options ?l) [] = ((Inr res, l'), t')"
    using sample_Run by blast
  have "capacity \<le> length (lines ?l)" by (simp add: capacity_def)
  from probe_unbounds_log [OF this run] run show ?thesis by simp
qed

end
