(* ===== verification/Fdtun.thy ===== *)
theory Fdtun
  imports Probe
begin

text \<open>
  \<^verbatim>\<open>core/internal/fdtun\<close>: a tunnel over a descriptor the host handed over.  Its mutex makes
  \<^verbatim>\<open>Start\<close> and \<^verbatim>\<open>Stop\<close> atomic; \<^verbatim>\<open>Status\<close> and the waiting read the device outside it.
\<close>

section \<open>Data\<close>

record FdStatus =
  FdUp :: bool
  FdEndpoint :: string
  FdProtocol :: string
  FdObfuscated :: bool
  FdSinceUnix :: int
  FdHandshakeUnix :: int
  FdLatencyMs :: int

definition zero_FdStatus :: FdStatus where
  "zero_FdStatus =
     \<lparr>FdUp = False, FdEndpoint = [], FdProtocol = [], FdObfuscated = False, FdSinceUnix = 0,
      FdHandshakeUnix = 0, FdLatencyMs = 0\<rparr>"

record FdSession =
  fdDevice :: "string option"
  fdBind :: bool
  fdStatus :: FdStatus
  fdMeter :: "Meter option"

definition NewFdSession :: FdSession where
  "NewFdSession = \<lparr>fdDevice = None, fdBind = False, fdStatus = zero_FdStatus, fdMeter = None\<rparr>"

section \<open>Adopting the descriptor\<close>

definition adopt_linux :: "environment \<Rightarrow> int \<Rightarrow> (failure + string) io" where
  "adopt_linux env fd = attempt env (Os ''CreateUnmonitoredTUNFromFD'' [Itoa fd])"

text \<open>On macOS a duplicate, which is closed again when it cannot be used.\<close>

definition orCloseFd :: "environment \<Rightarrow> string \<Rightarrow> (failure + string) io \<Rightarrow> (failure + string) io" where
  "orCloseFd env duplicate m = do {
     r \<leftarrow> m;
     (case r of
        Inr x \<Rightarrow> ret (Inr x)
      | Inl e \<Rightarrow> do { _ \<leftarrow> ask env (Os ''Close'' [duplicate]); ret (Inl e) })
   }"

definition adopt_darwin :: "environment \<Rightarrow> int \<Rightarrow> (failure + string) io" where
  "adopt_darwin env fd =
     andThen (inContext ''duplicating the descriptor'' (attempt env (Os ''Dup'' [Itoa fd]))) (\<lambda>duplicate.
     andThen (orCloseFd env duplicate (inContext ''setting the descriptor non-blocking''
       (attempt env (Os ''SetNonblock'' [duplicate])))) (\<lambda>_.
     orCloseFd env duplicate (attempt env (Os ''CreateTUNFromFile'' [duplicate, ''0'']))))"

definition adopt :: "environment \<Rightarrow> bool \<Rightarrow> int \<Rightarrow> (failure + string) io" where
  "adopt env darwin fd = (if darwin then adopt_darwin env fd else adopt_linux env fd)"

text \<open>\<^verbatim>\<open>withMTU\<close>: the MTU the device is said to have, \<open>None\<close> when it is left to answer itself.\<close>

definition withMTU :: "environment \<Rightarrow> int \<Rightarrow> Log \<Rightarrow> (int option \<times> Log) io" where
  "withMTU env mtu l =
     (if mtu \<le> 0 then ret (None, l)
      else do {
        actual \<leftarrow> ask env (Os ''DeviceMTU'' []);
        l' \<leftarrow> (if actual \<noteq> Handle mtu then
                logged env (''tun reports another MTU; telling the device '' @ Itoa mtu @ '' from the configuration'') l
              else ret l);
        ret (Some mtu, l')
      })"

definition MTU_answer :: "int option \<Rightarrow> answer \<Rightarrow> answer" where
  "MTU_answer told actual = (case told of Some mtu \<Rightarrow> Handle mtu | None \<Rightarrow> actual)"

section \<open>The operations\<close>

definition fd_stopLocked :: "environment \<Rightarrow> FdSession \<Rightarrow> FdSession io" where
  "fd_stopLocked env s =
     (case fdDevice s of
        None \<Rightarrow> ret s
      | Some d \<Rightarrow> do {
          _ \<leftarrow> closeDevice env d;
          ret (s\<lparr>fdDevice := None, fdBind := False, fdMeter := None, fdStatus := zero_FdStatus\<rparr>)
        })"

definition Fd_Stop :: "environment \<Rightarrow> FdSession \<Rightarrow> FdSession io" where
  "Fd_Stop env s = fd_stopLocked env s"

definition startedFdStatus :: "Config \<Rightarrow> instant \<Rightarrow> FdStatus" where
  "startedFdStatus cfg now =
     \<lparr>FdUp = True, FdEndpoint = Endpoint (peer cfg),
      FdProtocol = (if Obfuscation cfg = fmempty then ''WireGuard'' else ''AmneziaWG''),
      FdObfuscated = (Obfuscation cfg \<noteq> fmempty), FdSinceUnix = Unix_time now,
      FdHandshakeUnix = 0, FdLatencyMs = 0\<rparr>"

text \<open>From the adopted descriptor on.\<close>

definition fd_bringUp ::
  "environment \<Rightarrow> Config \<Rightarrow> FdSession \<Rightarrow> Log \<Rightarrow> ((tunnel_error + FdStatus) \<times> FdSession \<times> Log) io" where
  "fd_bringUp env cfg s l = do {
     (told, l') \<leftarrow> withMTU env (MTU cfg) l;
     d \<leftarrow> newDevice env;
     up \<leftarrow> configure env ''configuring the device'' ''bringing the device up'' d cfg;
     (case up of
        Inl e \<Rightarrow> do { _ \<leftarrow> closeDevice env d; ret (Inl e, s, l') }
      | Inr _ \<Rightarrow> do {
          _ \<leftarrow> ask env (Os ''DisableSomeRoaming'' [d]);
          now \<leftarrow> askNow env;
          ret (Inr (startedFdStatus cfg now),
               \<lparr>fdDevice = Some d, fdBind = True, fdStatus = startedFdStatus cfg now, fdMeter = Some Rtt.New\<rparr>, l')
        })
   }"

definition Fd_Start ::
  "environment \<Rightarrow> bool \<Rightarrow> int \<Rightarrow> string \<Rightarrow> FdSession \<Rightarrow> Log \<Rightarrow> ((tunnel_error + FdStatus) \<times> FdSession \<times> Log) io" where
  "Fd_Start env darwin fd configText s0 l = do {
     s \<leftarrow> (if fdDevice s0 \<noteq> None then fd_stopLocked env s0 else ret s0);
     (case Awg_Endpoint.Parse configText of
        Inl e \<Rightarrow> ret (Inl (BadConfiguration e), s, l)
      | Inr cfg \<Rightarrow> do {
          tun \<leftarrow> liftF (inContext ''adopting the tun descriptor'' (adopt env darwin fd));
          (case tun of
             Inl e \<Rightarrow> ret (Inl e, s, l)
           | Inr _ \<Rightarrow> fd_bringUp env cfg s l)
        })
   }"

text \<open>\<^verbatim>\<open>uapi\<close>, and the waiting: the session and the device's dump as they are in each round.\<close>

definition fd_uapi :: "environment \<Rightarrow> FdSession \<Rightarrow> (failure + string) io" where
  "fd_uapi env s =
     (case fdDevice s of
        None \<Rightarrow> ret (Inl (Message ''no tunnel is up''))
      | Some d \<Rightarrow> attempt env (Os ''IpcGet'' [d]))"

definition Fd_WaitForHandshake ::
  "(nat \<Rightarrow> FdSession) \<Rightarrow> (nat \<Rightarrow> string option) \<Rightarrow> (nat \<Rightarrow> instant) \<Rightarrow> instant \<Rightarrow> duration \<Rightarrow> bool option" where
  "Fd_WaitForHandshake sessions dump clock start timeout =
     Wait (\<lambda>i. if fdDevice (sessions i) = None then None else dump i) clock start timeout"

definition Fd_SocketFds :: "environment \<Rightarrow> FdSession \<Rightarrow> (int \<times> int) io" where
  "Fd_SocketFds env s =
     (if \<not> fdBind s then ret (-1, -1)
      else do {
        v4 \<leftarrow> ask env (Os ''PeekLookAtSocketFd4'' []);
        v6 \<leftarrow> ask env (Os ''PeekLookAtSocketFd6'' []);
        ret (case v4 of Handle i \<Rightarrow> i | _ \<Rightarrow> -1, case v6 of Handle i \<Rightarrow> i | _ \<Rightarrow> -1)
      })"

definition Fd_Status :: "environment \<Rightarrow> FdSession \<Rightarrow> (FdStatus \<times> FdSession) io" where
  "Fd_Status env s =
     (if \<not> FdUp (fdStatus s) then ret (fdStatus s, s)
      else do {
        now \<leftarrow> meterNow env (fdMeter s);
        let (ms, mo) = Milliseconds now (fdMeter s);
        r \<leftarrow> fd_uapi env s;
        ret ((case r of
                Inl e \<Rightarrow> (fdStatus s)\<lparr>FdLatencyMs := ms\<rparr>
              | Inr out \<Rightarrow>
                  (let at = Handshake.Parse out in
                   if at \<noteq> 0 then (fdStatus s)\<lparr>FdLatencyMs := ms, FdHandshakeUnix := Unix_of at\<rparr>
                   else (fdStatus s)\<lparr>FdLatencyMs := ms\<rparr>)),
             s\<lparr>fdMeter := mo\<rparr>)
      })"

end
