(* ===== verification/Fdtun_Properties.thy ===== *)
theory Fdtun_Properties
  imports Fdtun Tunnel_Properties
begin

text \<open>
  The properties of the tunnel over a descriptor: in any sequence of operations the only device that
  is open is the session's, and a failed start, unlike a failed connect of the userspace tunnel,
  leaves none.
\<close>

lemma adopt_same: "keeps (\<lambda>t. devices t = ds) (adopt env darwin fd)"
  unfolding adopt_def adopt_linux_def adopt_darwin_def orCloseFd_def
  by (auto intro!: keeps_if keeps_andThen keeps_inContext keeps_attempt keeps_bind keeps_ask keeps_ret split: sum.split)

lemma withMTU_same: "keeps (\<lambda>t. devices t = ds) (withMTU env mtu l)"
  unfolding withMTU_def logged_def
  by (intro keeps_if keeps_bind keeps_ask keeps_ret same_devices_rules) simp_all

lemma Fd_Status_same: "keeps (\<lambda>t. devices t = ds) (Fd_Status env s)"
  unfolding Fd_Status_def fd_uapi_def Let_def
  by (auto intro!: keeps_if keeps_bind keeps_attempt keeps_ret same_devices_rules split: prod.split option.split)

lemma SocketFds_same: "keeps (\<lambda>t. devices t = ds) (Fd_SocketFds env s)"
  unfolding Fd_SocketFds_def by (auto intro!: keeps_if keeps_bind keeps_ask keeps_ret)

text \<open>
  What a session is, next to devices of others: nothing at all, or a device with its meter and a
  status that is up.
\<close>

definition fd_ok :: "string multiset \<Rightarrow> FdSession \<Rightarrow> trace \<Rightarrow> bool" where
  "fd_ok others s t \<longleftrightarrow>
     devices t = others + opt_mset (fdDevice s) \<and>
     (case fdDevice s of
        None \<Rightarrow> s = NewFdSession
      | Some d \<Rightarrow> fdBind s \<and> fdMeter s \<noteq> None \<and> FdUp (fdStatus s))"

lemma stop_ok: "fd_ok others s t \<Longrightarrow> run_state (fd_stopLocked env s) t = (s', t') \<Longrightarrow> s' = NewFdSession \<and> devices t' = others"
  by (auto simp: fd_ok_def fd_stopLocked_def closeDevice_def NewFdSession_def split: option.splits)

lemma fd_bringUp_post:
  assumes "devices t = others" and "run_state (fd_bringUp env cfg NewFdSession l) t = ((r, s', l'), t')"
  shows "fd_ok others s' t' \<and>
    (case r of Inl e \<Rightarrow> s' = NewFdSession | Inr st \<Rightarrow> fdStatus s' = st \<and> (\<exists>now. st = startedFdStatus cfg now))"
proof -
  obtain m l1 t1 where w: "run_state (withMTU env (MTU cfg) l) t = ((m, l1), t1)" by (metis prod.exhaust)
  have t1: "devices t1 = others"
    using same_devicesD [of "withMTU env (MTU cfg) l" t] withMTU_same w assms(1) by simp
  let ?d = "id_of (env t1 (Os ''NewDevice'' []))"
  let ?t2 = "t1 @ [(Os ''NewDevice'' [], env t1 (Os ''NewDevice'' []))]"
  let ?c = "configure env ''configuring the device'' ''bringing the device up'' ?d cfg"
  obtain up t3 where up: "run_state ?c ?t2 = (up, t3)" by fastforce
  have t3: "devices t3 = others + {#?d#}"
    using same_devicesD [of ?c ?t2] same_devices_rules(2) up t1 by simp
  show ?thesis
    using assms(2) w up t3
    by (cases up)
      (auto simp: fd_bringUp_def newDevice_def closeDevice_def askNow_def fd_ok_def NewFdSession_def
        startedFdStatus_def devices_append)
qed

lemma Fd_Start_post:
  assumes "fd_ok others s t" and "run_state (Fd_Start env darwin fd txt s l) t = ((r, s', l'), t')"
  shows "fd_ok others s' t' \<and>
    (case r of
       Inl e \<Rightarrow> s' = NewFdSession
     | Inr st \<Rightarrow> fdStatus s' = st \<and> (\<exists>cfg now. Awg_Endpoint.Parse txt = Inr cfg \<and> st = startedFdStatus cfg now))"
proof -
  obtain s1 t1 where first: "run_state (if fdDevice s \<noteq> None then fd_stopLocked env s else ret s) t = (s1, t1)"
    by fastforce
  have one: "s1 = NewFdSession" "devices t1 = others"
    using first stop_ok [OF assms(1), of env s1 t1] assms(1) by (auto simp: fd_ok_def split: if_splits)
  have ok1: "fd_ok others s1 t1" using one by (simp add: fd_ok_def NewFdSession_def)
  show ?thesis
  proof (cases "Awg_Endpoint.Parse txt")
    case (Inl e)
    then show ?thesis using assms(2) first ok1 one(1) by (auto simp: Fd_Start_def)
  next
    case (Inr cfg)
    let ?a = "liftF (inContext ''adopting the tun descriptor'' (adopt env darwin fd))"
    obtain n t2 where net: "run_state ?a t1 = (n, t2)" by fastforce
    have "keeps (\<lambda>t. devices t = ds) ?a" for ds by (intro keeps_liftF keeps_inContext adopt_same)
    then have t2: "devices t2 = others" using same_devicesD [of ?a t1] net one(2) by simp
    show ?thesis
    proof (cases n)
      case (Inl e)
      then show ?thesis
        using assms(2) first net \<open>Awg_Endpoint.Parse txt = Inr cfg\<close> one(1) t2
        by (auto simp: Fd_Start_def fd_ok_def NewFdSession_def)
    next
      case (Inr u)
      then have "run_state (fd_bringUp env cfg NewFdSession l) t2 = ((r, s', l'), t')"
        using assms(2) first net \<open>Awg_Endpoint.Parse txt = Inr cfg\<close> one(1) by (simp add: Fd_Start_def)
      from fd_bringUp_post [OF t2 this] \<open>Awg_Endpoint.Parse txt = Inr cfg\<close> show ?thesis
        by (auto split: sum.splits)
    qed
  qed
qed

section \<open>Sequences of operations\<close>

inductive fd_session :: "environment \<Rightarrow> FdSession \<Rightarrow> trace \<Rightarrow> bool" for env where
  begun: "fd_session env NewFdSession []"
| starts: "fd_session env s t \<Longrightarrow> run_state (Fd_Start env darwin fd txt s l) t = ((r, s', l'), t') \<Longrightarrow>
    fd_session env s' t'"
| stops: "fd_session env s t \<Longrightarrow> run_state (Fd_Stop env s) t = (s', t') \<Longrightarrow> fd_session env s' t'"
| asks: "fd_session env s t \<Longrightarrow> run_state (Fd_Status env s) t = ((st, s'), t') \<Longrightarrow> fd_session env s' t'"
| peeks: "fd_session env s t \<Longrightarrow> run_state (Fd_SocketFds env s) t = (fds, t') \<Longrightarrow> fd_session env s t'"
| carries: "fd_session env s t \<Longrightarrow> fdMeter s = Some m \<Longrightarrow> meter_step e m = Some m' \<Longrightarrow>
    fd_session env (s\<lparr>fdMeter := Some m'\<rparr>) t"

lemma Milliseconds_meter: "mo \<noteq> None \<Longrightarrow> snd (Milliseconds now mo) \<noteq> None"
  by (auto simp: Milliseconds_def split: option.split prod.split)

lemma Fd_Status_session:
  assumes "run_state (Fd_Status env s) t = ((st, s'), t')"
  shows "\<exists>mo. s' = s\<lparr>fdMeter := mo\<rparr> \<and> (fdMeter s \<noteq> None \<longrightarrow> mo \<noteq> None)"
proof (cases "FdUp (fdStatus s)")
  case True
  obtain now t1 where now: "run_state (meterNow env (fdMeter s)) t = (now, t1)" by fastforce
  from assms True now have "s' = s\<lparr>fdMeter := snd (Milliseconds now (fdMeter s))\<rparr>"
    by (auto simp: Fd_Status_def Let_def split: prod.splits)
  with Milliseconds_meter show ?thesis by blast
next
  case False
  with assms show ?thesis by (intro exI [of _ "fdMeter s"]) (simp add: Fd_Status_def)
qed

lemma fd_ok_meter: "fd_ok others s t \<Longrightarrow> fdMeter s \<noteq> None \<Longrightarrow> mo \<noteq> None \<Longrightarrow> fd_ok others (s\<lparr>fdMeter := mo\<rparr>) t"
  by (auto simp: fd_ok_def NewFdSession_def split: option.splits)

lemma fd_session_ok: "fd_session env s t \<Longrightarrow> fd_ok {#} s t"
proof (induction rule: fd_session.induct)
  case begun
  show ?case by (simp add: fd_ok_def NewFdSession_def)
next
  case (starts s t darwin fd cf l r s' l' t')
  show ?case using Fd_Start_post [OF starts.IH starts.hyps(2)] by simp
next
  case (stops s t s' t')
  show ?case using stop_ok [OF stops.IH stops.hyps(2) [unfolded Fd_Stop_def]] by (simp add: fd_ok_def NewFdSession_def)
next
  case (asks s t st s' t')
  have t': "devices t' = devices t"
    using same_devicesD [of "Fd_Status env s" t] Fd_Status_same asks.hyps(2) by simp
  show ?case
  proof (cases "fdDevice s")
    case None
    then have "s = NewFdSession" using asks.IH by (simp add: fd_ok_def)
    then have "s' = s" using asks.hyps(2) by (auto simp: Fd_Status_def NewFdSession_def zero_FdStatus_def)
    with asks.IH t' show ?thesis by (simp add: fd_ok_def)
  next
    case (Some d)
    with Fd_Status_session [OF asks.hyps(2)] fd_ok_meter [OF asks.IH] asks.IH t' show ?thesis
      by (auto simp: fd_ok_def)
  qed
next
  case (peeks s t fds t')
  then show ?case
    using same_devicesD [of "Fd_SocketFds env s" t] SocketFds_same by (simp add: fd_ok_def)
next
  case (carries s t m e m')
  then show ?case by (intro fd_ok_meter) simp_all
qed

text \<open>
  One device or none.  After any sequence of operations with any of them failing, the devices
  open are the session's; a start that fails leaves none, not even the tunnel there was before, and
  an empty session; a start that succeeds leaves one, with the status of the configuration given.
\<close>

theorem Fd_one_device:
  assumes "fd_session env s t" and "run_state (Fd_Start env darwin fd txt s l) t = ((r, s', l'), t')"
  shows "devices t = opt_mset (fdDevice s) \<and>
    (case r of
       Inl e \<Rightarrow> s' = NewFdSession \<and> devices t' = {#}
     | Inr st \<Rightarrow> fdStatus s' = st \<and> (\<exists>d. fdDevice s' = Some d \<and> devices t' = {#d#}) \<and>
         (\<exists>cfg now. Awg_Endpoint.Parse txt = Inr cfg \<and> st = startedFdStatus cfg now))"
proof (cases r)
  case (Inl e)
  with Fd_Start_post [OF fd_session_ok [OF assms(1)] assms(2)] fd_session_ok [OF assms(1)] show ?thesis
    by (auto simp: fd_ok_def NewFdSession_def)
next
  case (Inr st)
  have p: "fd_ok {#} s' t'" "fdStatus s' = st" "\<exists>cfg now. Awg_Endpoint.Parse txt = Inr cfg \<and> st = startedFdStatus cfg now"
    using Fd_Start_post [OF fd_session_ok [OF assms(1)] assms(2)] by (simp_all add: Inr)
  then have "FdUp (fdStatus s')" by (auto simp: startedFdStatus_def)
  with p(1) have "\<exists>d. fdDevice s' = Some d \<and> devices t' = {#d#}"
    by (auto simp: fd_ok_def NewFdSession_def zero_FdStatus_def split: option.splits)
  with p(2,3) fd_session_ok [OF assms(1)] show ?thesis by (simp add: Inr fd_ok_def)
qed

lemma sample_Fd_Start:
  "\<exists>st s l' t. run_state (Fd_Start served_environment False 7 sample_text NewFdSession l) [] = ((Inr st, s, l'), t)"
  by (simp add: Fd_Start_def NewFdSession_def sample_Parse adopt_def adopt_linux_def run_liftF run_andThen
      served_environment_def kind_environment_def fd_bringUp_def withMTU_def logged_def newDevice_def
      configure_def askNow_def split: prod.split)

theorem Fd_one_device_witness:
  "\<exists>st s l t d. run_state (Fd_Start served_environment False 7 sample_text NewFdSession empty_Log) [] =
     ((Inr st, s, l), t) \<and> FdEndpoint st = ''h:1'' \<and> devices t = {#d#}"
proof -
  obtain st s l t where run:
    "run_state (Fd_Start served_environment False 7 sample_text NewFdSession empty_Log) [] = ((Inr st, s, l), t)"
    using sample_Fd_Start by blast
  have "fd_session served_environment NewFdSession []" by (rule fd_session.begun)
  from Fd_one_device [OF this run] run sample_Parse show ?thesis
    by (auto simp: startedFdStatus_def sample_config_def)
qed

end
