(* ===== verification/System_Darwin.thy ===== *)
theory System_Darwin
  imports System_Linux
begin

text \<open>
  \<^verbatim>\<open>core/internal/system/network_darwin.go\<close>: taking over a Mac's routing, DNS and IPv6 with
  \<^verbatim>\<open>route\<close>, \<^verbatim>\<open>ifconfig\<close> and \<^verbatim>\<open>networksetup\<close>, and putting them back.  The commands are
  those of \<open>run\<close>, as on Linux; \<open>mac\<close> is what they change.
\<close>

section \<open>Data\<close>

record Mac_State =
  MacGateway :: string
  MacInterface :: string
  MacService :: string
  MacPreviousDNS :: "string list"
  MacIPv6WasEnabled :: bool

section \<open>Snapshot\<close>

text \<open>\<^verbatim>\<open>strings.Cut\<close> at a text.\<close>

fun CutAt :: "string \<Rightarrow> string \<Rightarrow> (string \<times> string) option" where
  "CutAt sep [] = (if sep = [] then Some ([], []) else None)"
| "CutAt sep (c # cs) =
     (if HasPrefix (c # cs) sep then Some ([], drop (length sep) (c # cs))
      else map_option (apfst ((#) c)) (CutAt sep cs))"

text \<open>The loop over what \<^verbatim>\<open>route -n get default\<close> prints: the gateway and the interface.\<close>

definition route_line :: "string \<Rightarrow> string \<times> string \<Rightarrow> string \<times> string" where
  "route_line line gd =
     (case Cut (CHR '':'') (TrimSpace line) of
        None \<Rightarrow> gd
      | Some (key, val) \<Rightarrow>
          if TrimSpace key = ''gateway'' then (TrimSpace val, snd gd)
          else if TrimSpace key = ''interface'' then (fst gd, TrimSpace val)
          else gd)"

definition defaultRoute_darwin :: "string \<Rightarrow> string \<times> string" where
  "defaultRoute_darwin out = fold route_line (Split newline out) ([], [])"

text \<open>The loop of \<^verbatim>\<open>serviceForInterface\<close>, with the name of the entry it is in.\<close>

fun service_lines :: "string \<Rightarrow> string \<Rightarrow> string list \<Rightarrow> string option" where
  "service_lines device current [] = None"
| "service_lines device current (l # ls) =
     (let line = TrimSpace l in
      if HasPrefix line ''('' \<and> Contains line '') '' then
        service_lines device
          (TrimSpace (case CutAt '') '' line of None \<Rightarrow> [] | Some (_, name) \<Rightarrow> name)) ls
      else if Contains line (''Device: '' @ device @ '')'') then Some current
      else service_lines device current ls)"

definition serviceForInterface :: "environment \<Rightarrow> string \<Rightarrow> (failure + string) io" where
  "serviceForInterface env device =
     andThen (run env ''networksetup'' [''-listnetworkserviceorder'']) (\<lambda>out. ret
       (case service_lines device [] (Split newline out) of
          None \<Rightarrow> Inl (Message (''no network service uses '' @ device))
        | Some name \<Rightarrow> Inr name))"

definition addresses_in :: "string \<Rightarrow> string list" where
  "addresses_in dns = filter (\<lambda>w. ParseIP w \<noteq> None) (Fields dns)"

definition Snapshot_darwin :: "environment \<Rightarrow> (failure + Mac_State) io" where
  "Snapshot_darwin env =
     andThen (inContext ''finding the default route'' (run env ''route'' [''-n'', ''get'', ''default''])) (\<lambda>out.
       let (gw, dev) = defaultRoute_darwin out in
       if gw = [] \<or> dev = [] then
         ret (Inl (Message ''no default route: this machine is not on a network''))
       else andThen (serviceForInterface env dev) (\<lambda>service. do {
         dns \<leftarrow> run env ''networksetup'' [''-getdnsservers'', service];
         info \<leftarrow> run env ''networksetup'' [''-getinfo'', service];
         ret (Inr \<lparr>MacGateway = gw, MacInterface = dev, MacService = service,
           MacPreviousDNS = (case dns of Inl e \<Rightarrow> [] | Inr out \<Rightarrow> addresses_in out),
           MacIPv6WasEnabled = (case info of Inl e \<Rightarrow> False | Inr out \<Rightarrow> \<not> Contains out ''IPv6: Off'')\<rparr>)
       }))"

section \<open>Apply\<close>

definition pinEndpoint_darwin :: "environment \<Rightarrow> Mac_State \<Rightarrow> Network \<Rightarrow> (failure + unit) io" where
  "pinEndpoint_darwin env st cfg =
     inContext ''pinning the endpoint route''
       (runs env ''route'' [''-n'', ''add'', ''-host'', EndpointHost cfg, MacGateway st])"

definition routeHalves_darwin :: "environment \<Rightarrow> Network \<Rightarrow> (failure + unit) io" where
  "routeHalves_darwin env cfg =
     forEach (\<lambda>half. inContext (''routing '' @ half @ '' into the tunnel'')
       (runs env ''route'' [''-n'', ''add'', ''-net'', half, ''-interface'', Interface cfg])) defaultHalves"

definition Apply_darwin :: "environment \<Rightarrow> Mac_State \<Rightarrow> Network \<Rightarrow> (failure + unit) io" where
  "Apply_darwin env st cfg =
     andThen (inContext (''configuring '' @ Interface cfg)
       (runs env ''ifconfig'' [Interface cfg, ''inet'', Address cfg, Address cfg, ''netmask'',
          ''255.255.255.255'', ''up''])) (\<lambda>_.
     andThen (if 0 < NetMTU cfg then inContext (''setting MTU on '' @ Interface cfg)
         (runs env ''ifconfig'' [Interface cfg, ''mtu'', Itoa (NetMTU cfg)])
       else ret (Inr ())) (\<lambda>_.
     andThen (pinEndpoint_darwin env st cfg) (\<lambda>_.
     andThen (routeHalves_darwin env cfg) (\<lambda>_.
     andThen (if MacIPv6WasEnabled st then inContext ''disabling IPv6''
         (runs env ''networksetup'' [''-setv6off'', MacService st])
       else ret (Inr ())) (\<lambda>_.
     if NetDNS cfg \<noteq> [] then inContext ''setting DNS''
       (runs env ''networksetup'' ([''-setdnsservers'', MacService st] @ NetDNS cfg))
     else ret (Inr ()))))))"

section \<open>Restore\<close>

definition restoreDNS_darwin :: "environment \<Rightarrow> Mac_State \<Rightarrow> (string \<times> failure) list \<Rightarrow> (string \<times> failure) list io" where
  "restoreDNS_darwin env st problems =
     (if MacPreviousDNS st \<noteq> [] then
        attempt_command env ''restoring DNS'' ''networksetup''
          ([''-setdnsservers'', MacService st] @ MacPreviousDNS st) problems
      else
        attempt_command env ''clearing DNS'' ''networksetup''
          [''-setdnsservers'', MacService st, ''Empty''] problems)"

definition Restore_darwin :: "environment \<Rightarrow> Mac_State \<Rightarrow> Network \<Rightarrow> (failure + unit) io" where
  "Restore_darwin env st cfg = do {
     problems \<leftarrow> foldIO (\<lambda>half. attempt_command env (''removing route '' @ half) ''route''
       [''-n'', ''delete'', ''-net'', half, ''-interface'', Interface cfg]) defaultHalves [];
     problems \<leftarrow> attempt_command env ''removing the endpoint route'' ''route''
       [''-n'', ''delete'', ''-host'', EndpointHost cfg] problems;
     problems \<leftarrow> restoreDNS_darwin env st problems;
     problems \<leftarrow> (if MacIPv6WasEnabled st then
         attempt_command env ''re-enabling IPv6'' ''networksetup'' [''-setv6automatic'', MacService st] problems
       else ret problems);
     ret (if problems \<noteq> [] then Inl (Problems problems) else Inr ())
   }"

section \<open>The device\<close>

text \<open>\<^verbatim>\<open>core/internal/systunnel/name_darwin.go\<close>.\<close>

definition deviceName_darwin :: string where "deviceName_darwin = ''utun''"

definition deviceHandle_darwin :: int where "deviceHandle_darwin = 0"

section \<open>The machine\<close>

text \<open>How a service is configured for IPv6, in the words of \<^verbatim>\<open>networksetup\<close>.\<close>

datatype v6_mode = V6_Off | V6_Automatic | V6_Manual string

record mac =
  hostRoutes :: "(string \<times> string) set"
  netRoutes :: "(string \<times> string) set"
  servers_of :: "string \<Rightarrow> string list"
  v6_of :: "string \<Rightarrow> v6_mode"

text \<open>
  What a command does that is answered with success: a host route is its address and its router, a
  network route its network and its interface; no servers is what the network offers.
\<close>

definition command_effect :: "string \<Rightarrow> string list \<Rightarrow> mac \<Rightarrow> mac" where
  "command_effect name args m =
     (if name = ''route'' \<and> take 3 args = [''-n'', ''add'', ''-host''] then
        m\<lparr>hostRoutes := insert (args ! 3, args ! 4) (hostRoutes m)\<rparr>
      else if name = ''route'' \<and> take 3 args = [''-n'', ''add'', ''-net''] then
        m\<lparr>netRoutes := insert (args ! 3, args ! 5) (netRoutes m)\<rparr>
      else if name = ''route'' \<and> take 3 args = [''-n'', ''delete'', ''-net''] then
        m\<lparr>netRoutes := netRoutes m - {(args ! 3, args ! 5)}\<rparr>
      else if name = ''route'' \<and> take 3 args = [''-n'', ''delete'', ''-host''] then
        m\<lparr>hostRoutes := {r \<in> hostRoutes m. fst r \<noteq> args ! 3}\<rparr>
      else if name = ''networksetup'' \<and> take 1 args = [''-setdnsservers''] then
        m\<lparr>servers_of := (servers_of m)(args ! 1 := if drop 2 args = [''Empty''] then [] else drop 2 args)\<rparr>
      else if name = ''networksetup'' \<and> take 1 args = [''-setv6off''] then
        m\<lparr>v6_of := (v6_of m)(args ! 1 := V6_Off)\<rparr>
      else if name = ''networksetup'' \<and> take 1 args = [''-setv6automatic''] then
        m\<lparr>v6_of := (v6_of m)(args ! 1 := V6_Automatic)\<rparr>
      else m)"

definition mac_effect :: "call \<times> answer \<Rightarrow> mac \<Rightarrow> mac" where
  "mac_effect e m = (case e of (Exec name args, Done _) \<Rightarrow> command_effect name args m | _ \<Rightarrow> m)"

definition mac_after :: "mac \<Rightarrow> trace \<Rightarrow> mac" where
  "mac_after m0 t = fold mac_effect t m0"

lemma mac_after_simps [simp]:
  "mac_after m0 [] = m0"
  "mac_after m0 (t @ [e]) = mac_effect e (mac_after m0 t)"
  by (simp_all add: mac_after_def)

lemma mac_effect_Exec:
  "mac_effect (Exec name args, a) m = (case a of Done _ \<Rightarrow> command_effect name args m | _ \<Rightarrow> m)"
  by (simp add: mac_effect_def)

lemma command_effect_route [simp]:
  "command_effect ''route'' [''-n'', ''add'', ''-host'', dst, gw] m = m\<lparr>hostRoutes := insert (dst, gw) (hostRoutes m)\<rparr>"
  "command_effect ''route'' [''-n'', ''add'', ''-net'', dst, ''-interface'', i] m =
     m\<lparr>netRoutes := insert (dst, i) (netRoutes m)\<rparr>"
  "command_effect ''route'' [''-n'', ''delete'', ''-net'', dst, ''-interface'', i] m =
     m\<lparr>netRoutes := netRoutes m - {(dst, i)}\<rparr>"
  "command_effect ''route'' [''-n'', ''delete'', ''-host'', dst] m =
     m\<lparr>hostRoutes := {r \<in> hostRoutes m. fst r \<noteq> dst}\<rparr>"
  "command_effect ''route'' [''-n'', ''get'', dst] m = m"
  by (simp_all add: command_effect_def)

lemma command_effect_setup [simp]:
  "command_effect ''networksetup'' (''-setdnsservers'' # s # ds) m =
     m\<lparr>servers_of := (servers_of m)(s := if ds = [''Empty''] then [] else ds)\<rparr>"
  "command_effect ''networksetup'' [''-setv6off'', s] m = m\<lparr>v6_of := (v6_of m)(s := V6_Off)\<rparr>"
  "command_effect ''networksetup'' [''-setv6automatic'', s] m = m\<lparr>v6_of := (v6_of m)(s := V6_Automatic)\<rparr>"
  "command_effect ''networksetup'' [''-getdnsservers'', s] m = m"
  "command_effect ''networksetup'' [''-getinfo'', s] m = m"
  "command_effect ''networksetup'' [''-listnetworkserviceorder''] m = m"
  by (simp_all add: command_effect_def)

lemma command_effect_ifconfig [simp]: "command_effect ''ifconfig'' args m = m"
  by (simp add: command_effect_def)

end
