(* ===== verification/Darwin_Properties.thy ===== *)
theory Darwin_Properties
  imports System_Darwin
begin

text \<open>
  The properties of taking over a Mac and giving it back: what \<^verbatim>\<open>Apply\<close> may change, whatever of
  it fails, and what \<^verbatim>\<open>Restore\<close> then leaves.
\<close>

section \<open>What taking over may change\<close>

definition our_net_routes :: "Network \<Rightarrow> (string \<times> string) set" where
  "our_net_routes cfg = (\<lambda>half. (half, Interface cfg)) ` set defaultHalves"

definition mac_taken :: "mac \<Rightarrow> Mac_State \<Rightarrow> Network \<Rightarrow> mac \<Rightarrow> bool" where
  "mac_taken m0 st cfg m \<longleftrightarrow>
     hostRoutes m0 \<subseteq> hostRoutes m \<and> hostRoutes m \<subseteq> insert (EndpointHost cfg, MacGateway st) (hostRoutes m0) \<and>
     netRoutes m0 \<subseteq> netRoutes m \<and> netRoutes m \<subseteq> netRoutes m0 \<union> our_net_routes cfg \<and>
     (\<forall>s. s \<noteq> MacService st \<longrightarrow> servers_of m s = servers_of m0 s) \<and>
     (v6_of m = v6_of m0 \<or> MacIPv6WasEnabled st \<and> v6_of m = (v6_of m0)(MacService st := V6_Off))"

lemma mac_taken_refl: "mac_taken m0 st cfg m0"
  by (auto simp: mac_taken_def)

lemma mac_taken_runs:
  "(\<And>m. mac_taken m1 st cfg m \<Longrightarrow> mac_taken m1 st cfg (command_effect name args m)) \<Longrightarrow>
   keeps (\<lambda>t. mac_taken m1 st cfg (mac_after m0 t)) (runs env name args)"
  by (intro keeps_runs) (simp add: mac_effect_Exec split: answer.split)

lemma mac_taken_steps:
  assumes "mac_taken m0 st cfg m"
  shows "mac_taken m0 st cfg (m\<lparr>hostRoutes := insert (EndpointHost cfg, MacGateway st) (hostRoutes m)\<rparr>)"
    and "half \<in> set defaultHalves \<Longrightarrow> mac_taken m0 st cfg (m\<lparr>netRoutes := insert (half, Interface cfg) (netRoutes m)\<rparr>)"
    and "mac_taken m0 st cfg (m\<lparr>servers_of := (servers_of m)(MacService st := ds)\<rparr>)"
    and "MacIPv6WasEnabled st \<Longrightarrow> mac_taken m0 st cfg (m\<lparr>v6_of := (v6_of m)(MacService st := V6_Off)\<rparr>)"
  using assms by (auto simp: mac_taken_def our_net_routes_def)

lemma Apply_darwin_taken: "keeps (\<lambda>t. mac_taken m1 st cfg (mac_after m0 t)) (Apply_darwin env st cfg)"
  unfolding Apply_darwin_def pinEndpoint_darwin_def routeHalves_darwin_def
  by (intro keeps_andThen keeps_inContext keeps_if keeps_forEach keeps_ret mac_taken_runs)
    (simp_all add: mac_taken_steps)

section \<open>Giving back\<close>

text \<open>
  What the system owes \<^verbatim>\<open>Restore\<close>: a route that is there can be deleted, and the settings of a
  service can be set.
\<close>

definition mac_obliging :: "mac \<Rightarrow> environment \<Rightarrow> bool" where
  "mac_obliging m0 env \<longleftrightarrow>
     (\<forall>t. (\<forall>dst i. (dst, i) \<in> netRoutes (mac_after m0 t) \<longrightarrow>
             (\<exists>out. env t (Exec ''route'' [''-n'', ''delete'', ''-net'', dst, ''-interface'', i]) = Done out)) \<and>
          (\<forall>dst gw. (dst, gw) \<in> hostRoutes (mac_after m0 t) \<longrightarrow>
             (\<exists>out. env t (Exec ''route'' [''-n'', ''delete'', ''-host'', dst]) = Done out)) \<and>
          (\<forall>s ds. \<exists>out. env t (Exec ''networksetup'' (''-setdnsservers'' # s # ds)) = Done out) \<and>
          (\<forall>s. \<exists>out. env t (Exec ''networksetup'' [''-setv6automatic'', s]) = Done out))"

lemma mac_after_net_del:
  assumes "mac_obliging m0 env"
  shows "mac_after m0 (t @ [(Exec ''route'' [''-n'', ''delete'', ''-net'', dst, ''-interface'', i],
      env t (Exec ''route'' [''-n'', ''delete'', ''-net'', dst, ''-interface'', i]))]) =
    (mac_after m0 t)\<lparr>netRoutes := netRoutes (mac_after m0 t) - {(dst, i)}\<rparr>"
proof (cases "(dst, i) \<in> netRoutes (mac_after m0 t)")
  case True
  then obtain out where "env t (Exec ''route'' [''-n'', ''delete'', ''-net'', dst, ''-interface'', i]) = Done out"
    using assms unfolding mac_obliging_def by blast
  then show ?thesis by (simp add: mac_effect_Exec)
qed (simp add: mac_effect_Exec split: answer.split)

lemma mac_after_host_del:
  assumes "mac_obliging m0 env"
  shows "mac_after m0 (t @ [(Exec ''route'' [''-n'', ''delete'', ''-host'', dst],
      env t (Exec ''route'' [''-n'', ''delete'', ''-host'', dst]))]) =
    (mac_after m0 t)\<lparr>hostRoutes := {r \<in> hostRoutes (mac_after m0 t). fst r \<noteq> dst}\<rparr>"
proof (cases "\<exists>gw. (dst, gw) \<in> hostRoutes (mac_after m0 t)")
  case True
  then obtain out where "env t (Exec ''route'' [''-n'', ''delete'', ''-host'', dst]) = Done out"
    using assms unfolding mac_obliging_def by blast
  then show ?thesis by (simp add: mac_effect_Exec)
next
  case False
  then have "{r \<in> hostRoutes (mac_after m0 t). fst r \<noteq> dst} = hostRoutes (mac_after m0 t)" by auto
  then show ?thesis by (simp add: mac_effect_Exec split: answer.split)
qed

lemma mac_after_servers:
  assumes "mac_obliging m0 env"
  shows "mac_after m0 (t @ [(Exec ''networksetup'' (''-setdnsservers'' # s # ds),
      env t (Exec ''networksetup'' (''-setdnsservers'' # s # ds)))]) =
    (mac_after m0 t)\<lparr>servers_of := (servers_of (mac_after m0 t))(s := if ds = [''Empty''] then [] else ds)\<rparr>"
proof -
  obtain out where "env t (Exec ''networksetup'' (''-setdnsservers'' # s # ds)) = Done out"
    using assms unfolding mac_obliging_def by blast
  then show ?thesis by (simp add: mac_effect_Exec)
qed

lemma mac_after_v6:
  assumes "mac_obliging m0 env"
  shows "mac_after m0 (t @ [(Exec ''networksetup'' [''-setv6automatic'', s],
      env t (Exec ''networksetup'' [''-setv6automatic'', s]))]) =
    (mac_after m0 t)\<lparr>v6_of := (v6_of (mac_after m0 t))(s := V6_Automatic)\<rparr>"
proof -
  obtain out where "env t (Exec ''networksetup'' [''-setv6automatic'', s]) = Done out"
    using assms unfolding mac_obliging_def by blast
  then show ?thesis by (simp add: mac_effect_Exec)
qed

lemma attempt_command_run:
  "run_state (attempt_command env what name args problems) t =
     (note_problem what (case env t (Exec name args) of Done out \<Rightarrow> Inr out | _ \<Rightarrow> Inl (ExecFailed name args)) problems,
      t @ [(Exec name args, env t (Exec name args))])"
  by (simp add: attempt_command_def)

text \<open>The machine after \<^verbatim>\<open>Restore\<close>, whatever it was before.\<close>

lemma Restore_darwin_after:
  assumes ok: "mac_obliging m0 env" and dns: "''Empty'' \<notin> set (MacPreviousDNS st)"
  shows "mac_after m0 (snd (run_state (Restore_darwin env st cfg) t)) =
    (let m = mac_after m0 t in
     m\<lparr>hostRoutes := {r \<in> hostRoutes m. fst r \<noteq> EndpointHost cfg},
       netRoutes := netRoutes m - our_net_routes cfg,
       servers_of := (servers_of m)(MacService st := MacPreviousDNS st),
       v6_of := (if MacIPv6WasEnabled st then (v6_of m)(MacService st := V6_Automatic) else v6_of m)\<rparr>)"
proof -
  have "netRoutes m - {(''0.0.0.0/1'', Interface cfg)} - {(''128.0.0.0/1'', Interface cfg)} =
      netRoutes m - our_net_routes cfg" for m
    by (auto simp: our_net_routes_def defaultHalves_def)
  moreover have "MacPreviousDNS st \<noteq> [''Empty'']" using dns by auto
  ultimately show ?thesis
    by (simp add: Restore_darwin_def restoreDNS_darwin_def attempt_command_run defaultHalves_def Let_def
        mac_after_net_del [OF ok] mac_after_host_del [OF ok] mac_after_servers [OF ok] mac_after_v6 [OF ok]
        del: append_assoc mac_after_simps(2)) (intro conjI impI mac.equality; simp)
qed

text \<open>The machine has none of the routes \<^verbatim>\<open>Apply\<close> would add.\<close>

definition mac_untouched :: "Network \<Rightarrow> mac \<Rightarrow> bool" where
  "mac_untouched cfg m \<longleftrightarrow>
     (\<forall>gw. (EndpointHost cfg, gw) \<notin> hostRoutes m) \<and> netRoutes m \<inter> our_net_routes cfg = {}"

lemma Restore_darwin_restores:
  assumes "mac_obliging m0 env" and "''Empty'' \<notin> set (MacPreviousDNS st)"
    and "mac_taken m st cfg (mac_after m0 t)" and "mac_untouched cfg m"
  shows "mac_after m0 (snd (run_state (Restore_darwin env st cfg) t)) =
    m\<lparr>servers_of := (servers_of m)(MacService st := MacPreviousDNS st),
      v6_of := (if MacIPv6WasEnabled st then (v6_of m)(MacService st := V6_Automatic) else v6_of m)\<rparr>"
proof -
  let ?n = "mac_after m0 t"
  have "{r \<in> hostRoutes ?n. fst r \<noteq> EndpointHost cfg} = hostRoutes m"
    using assms(3,4) by (auto simp: mac_taken_def mac_untouched_def)
  moreover have "netRoutes ?n - our_net_routes cfg = netRoutes m"
    using assms(3,4) by (auto simp: mac_taken_def mac_untouched_def)
  moreover have "(servers_of ?n)(MacService st := ds) = (servers_of m)(MacService st := ds)" for ds
    using assms(3) by (auto simp: mac_taken_def)
  moreover have "(if MacIPv6WasEnabled st then (v6_of ?n)(MacService st := V6_Automatic) else v6_of ?n) =
      (if MacIPv6WasEnabled st then (v6_of m)(MacService st := V6_Automatic) else v6_of m)"
    using assms(3) by (auto simp: mac_taken_def)
  ultimately show ?thesis
    by (simp add: Restore_darwin_after [OF assms(1,2)] Let_def mac.equality)
qed

section \<open>Recording\<close>

text \<open>An environment that answers for a service as it is configured: \<^verbatim>\<open>networksetup\<close> lists the
  servers, and says when IPv6 is off.\<close>

definition mac_tells :: "mac \<Rightarrow> mac \<Rightarrow> environment \<Rightarrow> bool" where
  "mac_tells m0 m env \<longleftrightarrow>
     (\<forall>t s. mac_after m0 t = m \<longrightarrow>
        (\<exists>out. env t (Exec ''networksetup'' [''-getdnsservers'', s]) = Done out \<and> addresses_in out = servers_of m s) \<and>
        (\<exists>out. env t (Exec ''networksetup'' [''-getinfo'', s]) = Done out \<and>
           (Contains out ''IPv6: Off'' \<longleftrightarrow> v6_of m s = V6_Off)))"

lemma serviceForInterface_quiet: "mac_after m0 (snd (run_state (serviceForInterface env dev) t)) = mac_after m0 t"
  by (simp add: serviceForInterface_def run_andThen mac_effect_Exec split: answer.split sum.split)

lemma Snapshot_darwin_records:
  assumes "run_state (Snapshot_darwin env) t = (Inr st, t')" and "mac_tells m0 (mac_after m0 t) env"
  shows "mac_after m0 t' = mac_after m0 t \<and> MacPreviousDNS st = servers_of (mac_after m0 t) (MacService st) \<and>
    (MacIPv6WasEnabled st \<longleftrightarrow> v6_of (mac_after m0 t) (MacService st) \<noteq> V6_Off)"
proof -
  let ?get = "Exec ''route'' [''-n'', ''get'', ''default'']"
  let ?t1 = "t @ [(?get, env t ?get)]"
  obtain out where out: "env t ?get = Done out"
    using assms(1) by (auto simp: Snapshot_darwin_def run_andThen split: answer.splits)
  obtain gw dev where gd: "defaultRoute_darwin out = (gw, dev)" by fastforce
  obtain r t2 where sv: "run_state (serviceForInterface env dev) ?t1 = (r, t2)" by fastforce
  have found: "gw \<noteq> []" "dev \<noteq> []"
    using assms(1) out gd by (auto simp: Snapshot_darwin_def run_andThen)
  with assms(1) out gd sv obtain service where r: "r = Inr service"
    by (cases r) (auto simp: Snapshot_darwin_def run_andThen)
  have m2: "mac_after m0 t2 = mac_after m0 t"
    using serviceForInterface_quiet [of m0 env dev ?t1] sv by (simp add: mac_effect_Exec out)
  let ?dns = "Exec ''networksetup'' [''-getdnsservers'', service]"
  let ?t3 = "t2 @ [(?dns, env t2 ?dns)]"
  let ?info = "Exec ''networksetup'' [''-getinfo'', service]"
  have m3: "mac_after m0 ?t3 = mac_after m0 t" using m2 by (simp add: mac_effect_Exec split: answer.split)
  obtain dns where dns: "env t2 ?dns = Done dns" "addresses_in dns = servers_of (mac_after m0 t) service"
    using assms(2) m2 unfolding mac_tells_def by blast
  obtain info where info: "env ?t3 ?info = Done info"
      "Contains info ''IPv6: Off'' \<longleftrightarrow> v6_of (mac_after m0 t) service = V6_Off"
    using assms(2) m3 unfolding mac_tells_def by blast
  have "st = \<lparr>MacGateway = gw, MacInterface = dev, MacService = service, MacPreviousDNS = addresses_in dns,
      MacIPv6WasEnabled = (\<not> Contains info ''IPv6: Off'')\<rparr> \<and> t' = ?t3 @ [(?info, env ?t3 ?info)]"
    using assms(1) out gd found sv dns(1) info(1) by (simp add: Snapshot_darwin_def run_andThen r)
  then show ?thesis using dns(2) info m3 by (simp add: mac_effect_Exec del: append_assoc append.simps)
qed

lemma addresses_in_no_words: "''Empty'' \<notin> set (addresses_in out)"
proof -
  have "ParseIP ''Empty'' = None" by code_simp
  then show ?thesis by (auto simp: addresses_in_def)
qed

text \<open>
  C6: What a Mac is left with.  After a snapshot, any part of \<^verbatim>\<open>Apply\<close> and \<^verbatim>\<open>Restore\<close>, the routes
  and the DNS servers are what they were, and so is IPv6 where it was off or automatic; a service
  whose IPv6 was configured by hand is left with automatic configuration.
\<close>

theorem Restore_darwin_leaves:
  assumes "run_state (Snapshot_darwin env) t = (Inr st, t1)"
    and "run_state (Apply_darwin env st cfg) t1 = (r, t2)"
    and "run_state (Restore_darwin env st cfg) t2 = (r', t3)"
    and "mac_tells m0 (mac_after m0 t) env" and "mac_obliging m0 env" and "mac_untouched cfg (mac_after m0 t)"
  shows "mac_after m0 t3 =
    (let m = mac_after m0 t; service = MacService st
     in m\<lparr>v6_of := (v6_of m)(service := (if v6_of m service = V6_Off then V6_Off else V6_Automatic))\<rparr>)"
proof -
  let ?m = "mac_after m0 t"
  note rec = Snapshot_darwin_records [OF assms(1,4)]
  have dns: "''Empty'' \<notin> set (MacPreviousDNS st)"
  proof -
    obtain out where "addresses_in out = servers_of ?m (MacService st)"
      using assms(4) unfolding mac_tells_def by blast
    with rec addresses_in_no_words show ?thesis by metis
  qed
  have "mac_taken ?m st cfg (mac_after m0 t2)"
    using keepsD [OF Apply_darwin_taken, of ?m st cfg m0 t1 env] assms(2) rec mac_taken_refl by simp
  from Restore_darwin_restores [OF assms(5) dns this assms(6)] assms(3) rec show ?thesis
    by (auto simp: Let_def intro!: mac.equality)
qed

definition sample_mac :: mac where
  "sample_mac =
     \<lparr>hostRoutes = {}, netRoutes = {}, servers_of = (\<lambda>_. [''9.9.9.9'']), v6_of = (\<lambda>_. V6_Manual ''2001:db8::2'')\<rparr>"

definition mac_network :: Network where
  "mac_network =
     \<lparr>Interface = ''utun4'', AdapterHandle = 0, Address = ''10.8.0.2'', NetMTU = 1280, EndpointHost = ''192.0.2.1'',
      NetDNS = [''1.1.1.1'']\<rparr>"

definition mac_environment :: environment where
  "mac_environment t c =
     (case c of
        Exec _ args \<Rightarrow>
          if args = [''-n'', ''get'', ''default''] then
            Done (''  gateway: 10.0.0.1'' @ newline # ''interface: en0'')
          else if args = [''-listnetworkserviceorder''] then
            Done (''(1) Wi-Fi'' @ newline # ''(Hardware Port: Wi-Fi, Device: en0)'')
          else if take 1 args = [''-getdnsservers''] then Done ''9.9.9.9''
          else Done []
      | _ \<Rightarrow> Done [])"

lemma mac_environment_obliging: "mac_obliging m0 mac_environment"
  by (simp add: mac_obliging_def mac_environment_def)

lemma mac_environment_tells: "mac_tells sample_mac sample_mac mac_environment"
proof -
  have "addresses_in ''9.9.9.9'' = [''9.9.9.9'']" by code_simp
  then show ?thesis by (simp add: mac_tells_def mac_environment_def sample_mac_def)
qed

lemma sample_snapshot_darwin:
  "\<exists>st t. run_state (Snapshot_darwin mac_environment) [] = (Inr st, t) \<and> MacService st = ''Wi-Fi''"
proof -
  have "defaultRoute_darwin (''  gateway: 10.0.0.1'' @ newline # ''interface: en0'') = (''10.0.0.1'', ''en0'')"
    by code_simp
  moreover have "service_lines ''en0'' [] (Split newline (''(1) Wi-Fi'' @ newline # ''(Hardware Port: Wi-Fi, Device: en0)''))
      = Some ''Wi-Fi''" by code_simp
  ultimately show ?thesis
    by (simp add: Snapshot_darwin_def serviceForInterface_def run_andThen mac_environment_def)
qed

theorem Restore_darwin_leaves_witness:
  "\<exists>st t1 r t2 r' t3.
     run_state (Snapshot_darwin mac_environment) [] = (Inr st, t1) \<and>
     run_state (Apply_darwin mac_environment st mac_network) t1 = (r, t2) \<and>
     run_state (Restore_darwin mac_environment st mac_network) t2 = (r', t3) \<and>
     mac_after sample_mac t3 = sample_mac\<lparr>v6_of := (v6_of sample_mac)(''Wi-Fi'' := V6_Automatic)\<rparr>"
proof -
  obtain st t1 where s: "run_state (Snapshot_darwin mac_environment) [] = (Inr st, t1)" "MacService st = ''Wi-Fi''"
    using sample_snapshot_darwin by blast
  obtain r t2 where a: "run_state (Apply_darwin mac_environment st mac_network) t1 = (r, t2)" by fastforce
  obtain r' t3 where b: "run_state (Restore_darwin mac_environment st mac_network) t2 = (r', t3)" by fastforce
  have "mac_untouched mac_network (mac_after sample_mac [])"
    by (simp add: mac_untouched_def sample_mac_def)
  with Restore_darwin_leaves [OF s(1) a b, of sample_mac] mac_environment_tells mac_environment_obliging
  have "mac_after sample_mac t3 = sample_mac\<lparr>v6_of := (v6_of sample_mac)(''Wi-Fi'' := V6_Automatic)\<rparr>"
    by (simp add: s(2) sample_mac_def Let_def)
  with s(1) a b show ?thesis by blast
qed

end
