(* ===== verification/System_Windows.thy ===== *)
theory System_Windows
  imports System_Linux
begin

text \<open>
  \<^verbatim>\<open>core/internal/system/network_windows.go\<close>: taking over a Windows machine through the IP Helper
  API.  The routing table and the interfaces' metrics are arguments, metrics at their width of 32
  bits; the calls that change something are calls of the environment, each with the adapter it is
  about first.
\<close>

section \<open>Snapshot\<close>

record Win_State =
  WinInterface :: int
  WinNextHop :: "addr option"

record forward_row =
  rowPrefixLength :: nat
  rowLUID :: int
  rowMetric :: "32 word"
  rowNextHop :: "addr option"

text \<open>One round of the loop over the table: the least total so far, and what it recorded.\<close>

definition best_default ::
  "(int \<Rightarrow> failure + 32 word) \<Rightarrow> forward_row \<Rightarrow> 32 word \<times> Win_State \<Rightarrow> 32 word \<times> Win_State" where
  "best_default metric row b =
     (if rowPrefixLength row \<noteq> 0 then b
      else (case metric (rowLUID row) of
              Inl e \<Rightarrow> b
            | Inr m \<Rightarrow>
                (let total = rowMetric row + m in
                 if fst b \<le> total then b
                 else (total, \<lparr>WinInterface = rowLUID row, WinNextHop = rowNextHop row\<rparr>))))"

definition Snapshot_windows ::
  "failure + forward_row list \<Rightarrow> (int \<Rightarrow> failure + 32 word) \<Rightarrow> failure + Win_State" where
  "Snapshot_windows table metric =
     bindE (wrapE (Context ''reading the routing table'') table) (\<lambda>rows.
       let st = snd (fold (best_default metric) rows (- 1, \<lparr>WinInterface = 0, WinNextHop = None\<rparr>)) in
       if WinNextHop st = None then Inl (Message ''no default route: this machine is not on a network'')
       else Inr st)"

section \<open>Apply\<close>

definition adapter_call :: "string \<Rightarrow> int \<Rightarrow> string list \<Rightarrow> call" where
  "adapter_call name luid args = Os name (Itoa luid # args)"

definition on_adapter :: "environment \<Rightarrow> string \<Rightarrow> int \<Rightarrow> string list \<Rightarrow> (failure + unit) io" where
  "on_adapter env name luid args = andThen (attempt env (adapter_call name luid args)) (\<lambda>_. ret (Inr ()))"

definition host_prefix :: "addr \<Rightarrow> string" where
  "host_prefix a = Addr_String a @ ''/32''"

definition next_hop :: "Win_State \<Rightarrow> string" where
  "next_hop st = (case WinNextHop st of None \<Rightarrow> ''invalid IP'' | Some a \<Rightarrow> Addr_String a)"

definition setMTU_windows :: "environment \<Rightarrow> Network \<Rightarrow> (failure + unit) io" where
  "setMTU_windows env cfg =
     andThen (inContext ''reading the adapter's settings''
       (on_adapter env ''IPInterface'' (AdapterHandle cfg) [''4''])) (\<lambda>_.
     inContext ''setting MTU and metric''
       (on_adapter env ''SetIPInterface'' (AdapterHandle cfg) [Itoa (NetMTU cfg mod 2 ^ 32), ''0'']))"

definition pinEndpoint_windows :: "environment \<Rightarrow> Win_State \<Rightarrow> addr \<Rightarrow> (failure + unit) io" where
  "pinEndpoint_windows env st endpoint =
     inContext ''pinning the endpoint route''
       (on_adapter env ''AddRoute'' (WinInterface st) [host_prefix endpoint, next_hop st])"

definition routeHalves_windows :: "environment \<Rightarrow> Network \<Rightarrow> (failure + unit) io" where
  "routeHalves_windows env cfg =
     forEach (\<lambda>half. inContext (''routing '' @ half @ '' into the tunnel'')
       (on_adapter env ''AddRoute'' (AdapterHandle cfg) [half, ''0.0.0.0''])) defaultHalves"

definition blockV6_windows :: "environment \<Rightarrow> Network \<Rightarrow> (failure + unit) io" where
  "blockV6_windows env cfg =
     forEach (\<lambda>half. do {
       _ \<leftarrow> on_adapter env ''AddRoute'' (AdapterHandle cfg) [half, ''::''];
       ret (Inr ())
     }) v6Halves"

definition dns_servers :: "string list \<Rightarrow> failure + addr list" where
  "dns_servers servers =
     foldE (\<lambda>server addrs.
       (case ParseAddr server of
          None \<Rightarrow> Inl (Message (''DNS server '' @ server @ '' is not an address''))
        | Some a \<Rightarrow> Inr (addrs @ [a]))) servers []"

definition applyDNS_windows :: "environment \<Rightarrow> Network \<Rightarrow> (failure + unit) io" where
  "applyDNS_windows env cfg =
     (if NetDNS cfg = [] then ret (Inr ())
      else (case dns_servers (NetDNS cfg) of
              Inl e \<Rightarrow> ret (Inl e)
            | Inr servers \<Rightarrow> inContext ''setting DNS''
                (on_adapter env ''SetDNS'' (AdapterHandle cfg) (map Addr_String servers))))"

definition Apply_windows :: "environment \<Rightarrow> Win_State \<Rightarrow> Network \<Rightarrow> (failure + unit) io" where
  "Apply_windows env st cfg =
     (case ParseAddr (Address cfg) of
        None \<Rightarrow> ret (Inl (Message (''the tunnel address '' @ Address cfg @ '' is not an address'')))
      | Some address \<Rightarrow>
          (case ParseAddr (EndpointHost cfg) of
             None \<Rightarrow> ret (Inl (Message (''the endpoint '' @ EndpointHost cfg @ '' is not an address'')))
           | Some endpoint \<Rightarrow>
               andThen (inContext ''addressing the tunnel adapter''
                 (on_adapter env ''SetIPAddresses'' (AdapterHandle cfg) [host_prefix address])) (\<lambda>_.
               andThen (if 0 < NetMTU cfg then setMTU_windows env cfg else ret (Inr ())) (\<lambda>_.
               andThen (pinEndpoint_windows env st endpoint) (\<lambda>_.
               andThen (routeHalves_windows env cfg) (\<lambda>_.
               andThen (blockV6_windows env cfg) (\<lambda>_.
               applyDNS_windows env cfg)))))))"

section \<open>Restore\<close>

definition Restore_windows :: "environment \<Rightarrow> Win_State \<Rightarrow> Network \<Rightarrow> (failure + unit) io" where
  "Restore_windows env st cfg = do {
     problems \<leftarrow> (case ParseAddr (EndpointHost cfg) of
         None \<Rightarrow> ret []
       | Some endpoint \<Rightarrow> do {
           r \<leftarrow> on_adapter env ''DeleteRoute'' (WinInterface st) [host_prefix endpoint, next_hop st];
           ret (note_problem ''removing the endpoint route'' r [])
         });
     r \<leftarrow> on_adapter env ''FlushDNS'' (AdapterHandle cfg) [''4''];
     let problems = note_problem ''clearing the tunnel's DNS'' r problems;
     r \<leftarrow> on_adapter env ''FlushRoutes'' (AdapterHandle cfg) [''4''];
     let problems = note_problem ''clearing the tunnel's routes'' r problems;
     _ \<leftarrow> on_adapter env ''FlushRoutes'' (AdapterHandle cfg) [''6''];
     ret (if problems \<noteq> [] then Inl (Problems problems) else Inr ())
   }"

text \<open>\<^verbatim>\<open>joinLines\<close>, which puts the problems together: a line each, indented from the second.\<close>

fun joinLines_from :: "nat \<Rightarrow> string \<Rightarrow> string list \<Rightarrow> string" where
  "joinLines_from i out [] = out"
| "joinLines_from i out (l # ls) =
     joinLines_from (Suc i) ((if 0 < i then out @ newline # ''  '' else out) @ l) ls"

definition joinLines :: "string list \<Rightarrow> string" where
  "joinLines ls = joinLines_from 0 [] ls"

section \<open>The device\<close>

text \<open>\<^verbatim>\<open>core/internal/systunnel/name_windows.go\<close>: the LUID of a native device.\<close>

definition deviceName_windows :: string where "deviceName_windows = ''Caelo''"

definition deviceHandle_windows :: "int option \<Rightarrow> int" where
  "deviceHandle_windows native = (case native of Some luid \<Rightarrow> luid | None \<Rightarrow> 0)"

end
