(* ===== verification/Windows_Properties.thy ===== *)
theory Windows_Properties
  imports System_Windows
begin

text \<open>
  The properties of taking over a Windows machine: which default route the snapshot finds, and that
  everything \<^verbatim>\<open>Apply\<close> does is either on the adapter that goes away or undone by \<^verbatim>\<open>Restore\<close>.
\<close>

section \<open>The default route\<close>

text \<open>The default routes whose adapter can be asked, with the tot of the two metrics at its width.\<close>

definition candidates :: "(int \<Rightarrow> failure + 32 word) \<Rightarrow> forward_row list \<Rightarrow> (32 word \<times> forward_row) list" where
  "candidates metric rows =
     concat (map (\<lambda>row. if rowPrefixLength row \<noteq> 0 then []
       else (case metric (rowLUID row) of Inl e \<Rightarrow> [] | Inr m \<Rightarrow> [(rowMetric row + m, row)])) rows)"

definition recorded :: "forward_row \<Rightarrow> Win_State" where
  "recorded row = \<lparr>WinInterface = rowLUID row, WinNextHop = rowNextHop row\<rparr>"

text \<open>The first of the least.\<close>

definition first_least :: "(32 word \<times> forward_row) list \<Rightarrow> 32 word \<Rightarrow> forward_row \<Rightarrow> bool" where
  "first_least cs tot row \<longleftrightarrow>
     (\<exists>xs ys. cs = xs @ (tot, row) # ys \<and> list_all (\<lambda>c. tot < fst c) xs \<and> list_all (\<lambda>c. tot \<le> fst c) ys)"

definition take_less :: "32 word \<times> forward_row \<Rightarrow> 32 word \<times> Win_State \<Rightarrow> 32 word \<times> Win_State" where
  "take_less c b = (if fst b \<le> fst c then b else (fst c, recorded (snd c)))"

lemma candidates_Cons:
  "candidates metric (row # rows) = candidates metric [row] @ candidates metric rows"
  by (simp add: candidates_def)

lemma take_candidates: "fold take_less (candidates metric [row]) b = best_default metric row b"
  by (auto simp: candidates_def take_less_def best_default_def recorded_def Let_def split: sum.split)

lemma fold_best: "fold (best_default metric) rows b = fold take_less (candidates metric rows) b"
proof (induction rows arbitrary: b)
  case (Cons row rows)
  show ?case by (subst candidates_Cons) (simp add: take_candidates Cons)
qed (simp add: candidates_def)

lemma first_least_snoc:
  "first_least cs b row \<Longrightarrow> b \<le> fst c \<Longrightarrow> first_least (cs @ [c]) b row"
  "list_all (\<lambda>c'. fst c < fst c') cs \<Longrightarrow> first_least (cs @ [c]) (fst c) (snd c)"
  unfolding first_least_def by (fastforce, intro exI [of _ cs] exI [of _ "[]"], simp)

lemma first_least_bound: "first_least cs b row \<Longrightarrow> list_all (\<lambda>c. b \<le> fst c) cs"
  unfolding first_least_def by (elim exE conjE) (auto simp: list_all_iff intro: less_imp_le)

lemma fold_least:
  assumes "fold take_less cs (best, st) = (b, s)"
  shows "(b = best \<and> s = st \<and> list_all (\<lambda>c. best \<le> fst c) cs) \<or> (\<exists>row. b < best \<and> s = recorded row \<and> first_least cs b row)"
  using assms
proof (induction cs arbitrary: b s rule: rev_induct)
  case (snoc c cs)
  obtain b1 s1 where first: "fold take_less cs (best, st) = (b1, s1)"
    by fastforce
  note IH = snoc.IH [OF first]
  have "take_less c (b1, s1) = (b, s)" using snoc.prems first by simp
  then have next_one: "(b, s) = (if b1 \<le> fst c then (b1, s1) else (fst c, recorded (snd c)))"
    by (simp add: take_less_def)
  show ?case
  proof (cases "b1 \<le> fst c")
    case True
    with next_one have "b = b1" "s = s1" by simp_all
    with IH True first_least_snoc(1) show ?thesis by fastforce
  next
    case False
    with next_one have b: "b = fst c" "s = recorded (snd c)" by simp_all
    have "list_all (\<lambda>c'. b1 \<le> fst c') cs" using IH first_least_bound by blast
    with False have "list_all (\<lambda>c'. fst c < fst c') cs" by (fastforce simp: list_all_iff)
    moreover have "fst c < best" using False IH by fastforce
    ultimately show ?thesis using b first_least_snoc(2) by blast
  qed
qed simp

text \<open>
  The default route found is the first, in the table's order, of those with the least sum of the
  route's metric and its interface's, as 32-bit words; and none is found only when the table cannot
  be read, when that one has no next hop, or when every sum is the largest word, if there is any.
\<close>

theorem Snapshot_windows_first_least:
  "case Snapshot_windows table metric of
     Inr st \<Rightarrow> (\<exists>rows tot row. table = Inr rows \<and> first_least (candidates metric rows) tot row \<and>
       st = recorded row \<and> rowNextHop row \<noteq> None)
   | Inl e \<Rightarrow> (\<exists>f. table = Inl f) \<or>
       (\<exists>rows. table = Inr rows \<and>
         (list_all (\<lambda>c. fst c = - 1) (candidates metric rows) \<or>
          (\<exists>tot row. first_least (candidates metric rows) tot row \<and> rowNextHop row = None)))"
proof (cases table)
  case (Inl f)
  then show ?thesis by (simp add: Snapshot_windows_def)
next
  case (Inr rows)
  let ?st = "\<lparr>WinInterface = 0, WinNextHop = None\<rparr>"
  obtain b s where run: "fold (best_default metric) rows (- 1, ?st) = (b, s)" by fastforce
  with fold_least [OF run [unfolded fold_best]]
  consider (none) "s = ?st" "list_all (\<lambda>c. - 1 \<le> fst c) (candidates metric rows)"
    | (some) row where "s = recorded row" "first_least (candidates metric rows) b row" by blast
  then show ?thesis
  proof cases
    case none
    then have "list_all (\<lambda>c. fst c = - 1) (candidates metric rows)"
      by (simp add: list_all_iff word_order.extremum_unique)
    with none(1) show ?thesis by (simp add: Snapshot_windows_def Inr run Let_def)
  next
    case some
    then show ?thesis
    proof (cases "rowNextHop row")
      case (Some a)
      with some have "Snapshot_windows table metric = Inr (recorded row)"
        by (simp add: Snapshot_windows_def Inr run Let_def recorded_def)
      moreover have "rowNextHop row \<noteq> None" using Some by simp
      ultimately show ?thesis using some(2) Inr by (simp only: sum.case) blast
    qed (auto simp: Snapshot_windows_def Inr run Let_def recorded_def)
  qed
qed

section \<open>Giving back\<close>

definition calls_since :: "trace \<Rightarrow> trace \<Rightarrow> call list" where
  "calls_since t t' = map fst (drop (length t) t')"

definition on_tunnel :: "Network \<Rightarrow> call \<Rightarrow> bool" where
  "on_tunnel cfg c \<longleftrightarrow> (\<exists>name args. c = adapter_call name (AdapterHandle cfg) args)"

definition route_call :: "string \<Rightarrow> Win_State \<Rightarrow> addr \<Rightarrow> call" where
  "route_call name st endpoint = adapter_call name (WinInterface st) [host_prefix endpoint, next_hop st]"

definition allowed :: "Win_State \<Rightarrow> Network \<Rightarrow> call \<Rightarrow> bool" where
  "allowed st cfg c \<longleftrightarrow>
     on_tunnel cfg c \<or> (\<exists>endpoint. ParseAddr (EndpointHost cfg) = Some endpoint \<and> c = route_call ''AddRoute'' st endpoint)"

definition since_allowed :: "trace \<Rightarrow> Win_State \<Rightarrow> Network \<Rightarrow> trace \<Rightarrow> bool" where
  "since_allowed t0 st cfg t \<longleftrightarrow> (\<exists>s. t = t0 @ s \<and> list_all (\<lambda>e. allowed st cfg (fst e)) s)"

lemma since_allowed_calls: "since_allowed t0 st cfg t \<Longrightarrow> list_all (allowed st cfg) (calls_since t0 t)"
  by (auto simp: since_allowed_def calls_since_def list_all_iff)

lemma on_adapter_allowed:
  "allowed st cfg (adapter_call name luid args) \<Longrightarrow> keeps (since_allowed t0 st cfg) (on_adapter env name luid args)"
  unfolding on_adapter_def by (intro keeps_andThen keeps_attempt keeps_ret) (auto simp: since_allowed_def)

lemma on_tunnel_allowed: "allowed st cfg (adapter_call name (AdapterHandle cfg) args)"
  by (auto simp: allowed_def on_tunnel_def)

lemma applyDNS_windows_allowed: "keeps (since_allowed t0 st cfg) (applyDNS_windows env cfg)"
  unfolding applyDNS_windows_def
  by (cases "dns_servers (NetDNS cfg)")
    (auto intro!: keeps_if keeps_ret keeps_inContext on_adapter_allowed on_tunnel_allowed)

lemma Apply_windows_allowed: "keeps (since_allowed t0 st cfg) (Apply_windows env st cfg)"
proof (cases "ParseAddr (Address cfg)"; cases "ParseAddr (EndpointHost cfg)")
  fix address endpoint
  assume a: "ParseAddr (Address cfg) = Some address" "ParseAddr (EndpointHost cfg) = Some endpoint"
  then have pin: "allowed st cfg (adapter_call ''AddRoute'' (WinInterface st) [host_prefix endpoint, next_hop st])"
    by (simp add: allowed_def route_call_def)
  show ?thesis
    unfolding Apply_windows_def setMTU_windows_def pinEndpoint_windows_def routeHalves_windows_def blockV6_windows_def
      a option.case
    by (intro pin keeps_andThen keeps_inContext keeps_if keeps_ret keeps_forEach keeps_bind on_adapter_allowed
        on_tunnel_allowed applyDNS_windows_allowed)
qed (simp_all add: Apply_windows_def keeps_ret)

text \<open>What \<^verbatim>\<open>Restore\<close> calls, whatever fails.\<close>

definition restore_windows_calls :: "Win_State \<Rightarrow> Network \<Rightarrow> call list" where
  "restore_windows_calls st cfg =
     (case ParseAddr (EndpointHost cfg) of None \<Rightarrow> [] | Some endpoint \<Rightarrow> [route_call ''DeleteRoute'' st endpoint]) @
     [adapter_call ''FlushDNS'' (AdapterHandle cfg) [''4''], adapter_call ''FlushRoutes'' (AdapterHandle cfg) [''4''],
      adapter_call ''FlushRoutes'' (AdapterHandle cfg) [''6'']]"

lemma run_on_adapter [simp]:
  "run_state (on_adapter env name luid args) t =
     (let c = adapter_call name luid args in
      ((case env t c of Done out \<Rightarrow> Inr () | Missing \<Rightarrow> Inl NotExist | _ \<Rightarrow> Inl (OsFailed c)), t @ [(c, env t c)]))"
  by (simp add: on_adapter_def run_andThen Let_def split: answer.split)

lemma Restore_windows_calls:
  "calls_since t (snd (run_state (Restore_windows env st cfg) t)) = restore_windows_calls st cfg"
  by (cases "ParseAddr (EndpointHost cfg)")
    (simp_all add: Restore_windows_def restore_windows_calls_def calls_since_def route_call_def Let_def)

text \<open>
  C7: Nothing outlives the tunnel.  Every call of \<^verbatim>\<open>Apply\<close>, wherever it fails, is about the tunnel's
  own adapter, except for the route to the server, which \<^verbatim>\<open>Restore\<close> asks to be deleted from the same
  adapter with the same next hop; and \<^verbatim>\<open>Restore\<close> makes all of its calls whatever fails.
\<close>

theorem Restore_windows_covers:
  "let t1 = snd (run_state (Apply_windows env st cfg) t); t2 = snd (run_state (Restore_windows env' st cfg) t1)
   in list_all (\<lambda>c. on_tunnel cfg c \<or>
        (\<exists>endpoint. c = route_call ''AddRoute'' st endpoint \<and>
           route_call ''DeleteRoute'' st endpoint \<in> set (calls_since t1 t2))) (calls_since t t1) \<and>
      calls_since t1 t2 = restore_windows_calls st cfg"
proof -
  let ?t1 = "snd (run_state (Apply_windows env st cfg) t)"
  have "since_allowed t st cfg ?t1"
    by (rule keepsD [OF Apply_windows_allowed]) (simp add: since_allowed_def)
  note all = since_allowed_calls [OF this]
  have "allowed st cfg c \<Longrightarrow> on_tunnel cfg c \<or>
      (\<exists>endpoint. c = route_call ''AddRoute'' st endpoint \<and>
         route_call ''DeleteRoute'' st endpoint \<in> set (restore_windows_calls st cfg))" for c
    by (auto simp: allowed_def restore_windows_calls_def)
  with all show ?thesis
    unfolding Let_def Restore_windows_calls by (auto simp: list_all_iff)
qed

lemma joinLines_from_Join:
  "joinLines_from (Suc i) out ls = out @ concat (map (\<lambda>l. newline # ''  '' @ l) ls)"
  by (induction ls arbitrary: i out) simp_all

lemma joinLines_Join: "joinLines ls = Join ls (newline # ''  '')"
proof (cases ls)
  case (Cons l rest)
  have "Join (x # rest) (newline # ''  '') = x @ concat (map (\<lambda>l. newline # ''  '' @ l) rest)" for x
    by (induction rest arbitrary: x) simp_all
  with Cons show ?thesis by (simp add: joinLines_def joinLines_from_Join)
qed (simp add: joinLines_def)

end
