(* ===== verification/Go_Json_Nested.thy ===== *)
theory Go_Json_Nested
  imports Go_Json_Codec
begin

text \<open>
  The JSON codec on values of any shape and texts of any bytes: what \<open>json_render\<close> writes is a
  document, and \<open>json_parse\<close> reads the value back from it, its texts \<open>washed\<close>: bytes that are no
  code point become U+FFFD.  Texts in ASCII come back as they were.
\<close>

section \<open>Texts of any bytes\<close>

definition written :: "string \<Rightarrow> string" where
  "written s = concat (map json_rune (runes s))"

lemma json_string_written: "json_string s = quote # written s @ [quote]"
  by (simp add: json_string_def written_def)

definition washed :: "string \<Rightarrow> string" where
  "washed s = unquote (written s)"

lemma written_ascii: "list_all ascii s \<Longrightarrow> written s = escaped s"
  using json_string_ascii [of s] by (simp add: json_string_written)

lemma washed_ascii [simp]: "list_all ascii s \<Longrightarrow> washed s = s"
  by (simp add: washed_def written_ascii unquote_escaped)

text \<open>The bytes of a code point beyond ASCII.\<close>

lemma decode_rune_high:
  assumes "decode_rune bs = (r, w)" and "0x80 \<le> r" and "bs \<noteq> []"
  shows "list_all (\<lambda>b. 0x80 \<le> b) (take w bs)"
  using assms
  by (auto simp: decode_rune_def between_def take_Cons' split: list.splits if_splits)

lemma decode_rune_width_le: "snd (decode_rune bs) \<le> 4"
  by (simp add: decode_rune_def split: list.split)

lemma runes_high:
  "(r, bs) \<in> set (runes s) \<Longrightarrow> 0x80 \<le> r \<Longrightarrow> list_all (\<lambda>c. 0x80 \<le> code c) bs"
proof (induction s rule: runes.induct)
  case (1 s)
  obtain r' w where rw: "decode_rune (map code (take 4 s)) = (r', w)" by fastforce
  have s: "s \<noteq> []" using 1(2) by auto
  then have runes: "runes s = (r', take w s) # runes (drop w s)" using rw by (simp add: runes.simps [of s])
  show ?case
  proof (cases "(r, bs) \<in> set (runes (drop w s))")
    case True
    with 1 s rw show ?thesis by simp
  next
    case False
    with 1(2) runes have eq: "r = r'" "bs = take w s" by simp_all
    have "list_all (\<lambda>b. 0x80 \<le> b) (take w (map code (take 4 s)))"
      by (rule decode_rune_high [OF rw]) (use eq s 1(3) in simp_all)
    moreover have "w \<le> 4" using decode_rune_width_le [of "map code (take 4 s)"] rw by simp
    ultimately show ?thesis using eq by (simp add: list_all_iff take_map min_def)
  qed
qed

lemma scan_high:
  "list_all (\<lambda>c. 0x80 \<le> code c) bs \<Longrightarrow>
   scan_string (bs @ t) = map_option (\<lambda>(body, rest). (bs @ body, rest)) (scan_string t)"
proof (induction bs)
  case (Cons c bs)
  then have "c \<noteq> quote" "c \<noteq> backslash" "\<not> code c < 0x20" by (auto simp: code_def)
  with Cons show ?case by (auto simp: option.map_comp comp_def split_def)
qed (cases "scan_string t"; simp)

lemma scan_chars:
  "scan_string (concat (map json_char bs) @ t) =
     map_option (\<lambda>(body, rest). (concat (map json_char bs) @ body, rest)) (scan_string t)"
proof (induction bs)
  case (Cons c bs)
  then show ?case
    using scan_json_char [of c "concat (map json_char bs) @ t"] by (auto simp: option.map_comp comp_def split_def)
qed (cases "scan_string t"; simp)

lemma scan_rune:
  assumes "(r, bs) \<in> set (runes s)"
  shows "scan_string (json_rune (r, bs) @ t) =
    map_option (\<lambda>(body, rest). (json_rune (r, bs) @ body, rest)) (scan_string t)"
proof (cases "r < 0x80")
  case True
  then show ?thesis using scan_chars [of bs t] by (simp add: json_rune_def)
next
  case False
  have digits: "list_all hex_digit ''fffd''" "list_all hex_digit ''2028''" "list_all hex_digit ''2029''"
    by code_simp+
  show ?thesis
    using False digits scan_high [OF runes_high [OF assms]] by (simp add: json_rune_def)
qed

lemma scan_written: "scan_string (written s @ quote # r) = Some (written s, r)"
proof -
  have "scan_string (concat (map json_rune rs) @ quote # r) = Some (concat (map json_rune rs), r)"
    if "set rs \<subseteq> set (runes s)" for rs
    using that
  proof (induction rs)
    case (Cons u rs)
    obtain n bs where u: "u = (n, bs)" by fastforce
    with Cons.prems have "(n, bs) \<in> set (runes s)" by simp
    from scan_rune [OF this, of "concat (map json_rune rs) @ quote # r"] Cons show ?case by (simp add: u)
  qed simp
  then show ?thesis by (simp add: written_def)
qed

section \<open>Values\<close>

fun wash :: "json \<Rightarrow> json" where
  "wash (JString s) = JString (washed s)"
| "wash (JArray vs) = JArray (map wash vs)"
| "wash (JObject ms) = JObject (map (\<lambda>(k, v). (washed k, wash v)) ms)"
| "wash v = v"

text \<open>Every number is an integer.\<close>

fun numbered :: "json \<Rightarrow> bool" where
  "numbered (JNumber t) \<longleftrightarrow> (\<exists>i. t = Itoa i)"
| "numbered (JArray vs) \<longleftrightarrow> list_all numbered vs"
| "numbered (JObject ms) \<longleftrightarrow> list_all (\<lambda>(k, v). numbered v) ms"
| "numbered v \<longleftrightarrow> True"

fun json_ok :: "json \<Rightarrow> bool" where
  "json_ok JNull \<longleftrightarrow> True"
| "json_ok (JArray vs) \<longleftrightarrow> list_all json_ok vs"
| "json_ok (JObject ms) \<longleftrightarrow> list_all (\<lambda>(k, v). list_all ascii k \<and> json_ok v) ms"
| "json_ok v \<longleftrightarrow> scalar v"

fun json_depth :: "json \<Rightarrow> nat" where
  "json_depth (JArray vs) = Suc (foldr max (map json_depth vs) 0)"
| "json_depth (JObject ms) = Suc (foldr max (map (\<lambda>(k, v). json_depth v) ms) 0)"
| "json_depth v = 0"

lemma foldr_max_le: "foldr max ns 0 \<le> (d::nat) \<longleftrightarrow> list_all (\<lambda>n. n \<le> d) ns"
  by (induction ns) auto

lemma render_first:
  assumes "numbered v"
  obtains c cs where "json_render v = c # cs" "\<not> json_space c" "c \<noteq> CHR '']''"
proof (cases v)
  case (JNumber t)
  with assms obtain n where "t = Itoa n" by auto
  moreover obtain c cs where c: "Itoa n = c # cs" "is_digit c \<or> c = CHR ''-''" by (rule Itoa_first)
  moreover have "\<not> json_space c \<and> c \<noteq> CHR '']''" using c(2) by (auto simp: json_space_def is_digit_def code_def)
  ultimately show ?thesis using JNumber that by simp
next
  case (JBool b)
  then show ?thesis using that by (cases b) (auto simp: json_space_def)
qed (use that in \<open>auto simp: json_space_def json_string_def\<close>)

lemma render_length: "numbered v \<Longrightarrow> 0 < length (json_render v)"
  by (metis render_first length_greater_0_conv list.distinct(1))

abbreviation reads :: "json \<Rightarrow> bool" where
  "reads v \<equiv> \<forall>f d r. json_depth v \<le> d \<longrightarrow> length (json_render v) < f \<longrightarrow> ends_value r \<longrightarrow>
     json_value f d (json_render v @ r) = Some (wash v, r)"

lemma ends_value_simps [simp]:
  "ends_value (CHR '','' # r)" "ends_value (CHR '']'' # r)" "ends_value (CHR ''}'' # r)" "ends_value []"
  by (simp_all add: ends_value_def)

lemma not_space_bracket [simp]: "\<not> json_space CHR '']''" "\<not> json_space CHR ''[''"
  by (simp_all add: json_space_def)

lemma read_elements:
  assumes "\<forall>v \<in> set vs. reads v" and "vs \<noteq> []" and "list_all (\<lambda>v. json_depth v \<le> d) vs" and "list_all numbered vs"
    and "length (Join (map json_render vs) '','') + 1 < f"
  shows "json_elements f d (Join (map json_render vs) '','' @ CHR '']'' # r) = Some (map wash vs, r)"
  using assms
proof (induction vs arbitrary: f)
  case (Cons v vs)
  obtain g where f: "f = Suc g" using Cons.prems(5) by (cases f) auto
  have read: "json_value g d (json_render v @ t) = Some (wash v, t)" if "ends_value t" "length (json_render v) < g" for t
    using Cons.prems(1,3) that by simp
  show ?case
  proof (cases vs)
    case Nil
    with Cons.prems(5) have "length (json_render v) < g" by (simp add: f)
    then show ?thesis by (simp add: f Nil read del: json_value.simps)
  next
    case (Cons v' vs')
    let ?tail = "Join (map json_render vs) '','' @ CHR '']'' # r"
    have len: "length (json_render v) < g" "length (Join (map json_render vs) '','') + 1 < g"
      using Cons.prems(5) render_length [of v] Cons.prems(4) by (simp_all add: f Cons)
    have "json_elements g d ?tail = Some (map wash vs, r)"
      by (rule Cons.IH) (use Cons.prems(1,3,4) Cons len(2) in auto)
    then show ?thesis using len(1) by (simp add: f Cons read del: json_value.simps)
  qed
qed simp

abbreviation member :: "string \<times> json \<Rightarrow> string" where
  "member kv \<equiv> (case kv of (k, v) \<Rightarrow> json_string k @ '':'' @ json_render v)"

lemma read_nested_members:
  assumes "\<forall>(k, v) \<in> set ms. reads v" and "ms \<noteq> []" and "list_all (\<lambda>(k, v). json_depth v \<le> d) ms"
    and "list_all (\<lambda>(k, v). numbered v) ms"
    and "length (Join (map member ms) '','') + 1 < f"
  shows "json_members f d (Join (map member ms) '','' @ CHR ''}'' # r) =
    Some (map (\<lambda>(k, v). (washed k, wash v)) ms, r)"
  using assms
proof (induction ms arbitrary: f)
  case (Cons m ms)
  obtain k v where m: "m = (k, v)" by fastforce
  obtain g where f: "f = Suc g" using Cons.prems(5) by (cases f) auto
  let ?key = "\<lambda>t. quote # written k @ quote # CHR '':'' # json_render v @ t"
  have read: "json_members f d (?key t) =
      (case skip t of
         [] \<Rightarrow> None
       | c # u \<Rightarrow>
           if c = CHR '','' then map_option (\<lambda>(ms, w). ((unquote (written k), wash v) # ms, w)) (json_members g d u)
           else if c = CHR ''}'' then Some ([(unquote (written k), wash v)], u) else None)"
    if "ends_value t" "length (json_render v) < g" for t
  proof -
    have "json_value g d (json_render v @ t) = Some (wash v, t)" using Cons.prems(1,3) that by (simp add: m)
    then show ?thesis
      using scan_written [of k "CHR '':'' # json_render v @ t"]
      by (simp add: f HasPrefix_Cons del: json_value.simps)
  qed
  show ?case
  proof (cases ms)
    case Nil
    with Cons.prems(5) have "length (json_render v) < g" by (simp add: f m)
    with read [of "CHR ''}'' # r"] show ?thesis
      by (simp add: Nil m json_string_written washed_def del: json_members.simps)
  next
    case (Cons m' ms')
    let ?tail = "Join (map member ms) '','' @ CHR ''}'' # r"
    have len: "length (json_render v) < g" "length (Join (map member ms) '','') + 1 < g"
      using Cons.prems(5) by (simp_all add: f m Cons json_string_def)
    have "json_members g d ?tail = Some (map (\<lambda>(k, v). (washed k, wash v)) ms, r)"
      by (rule Cons.IH) (use Cons.prems(1,3,4) Cons len(2) in auto)
    then have "json_members f d (?key (CHR '','' # ?tail)) = Some (map (\<lambda>(k, v). (washed k, wash v)) (m # ms), r)"
      using read [of "CHR '','' # ?tail"] len(1) by (simp add: m washed_def del: json_members.simps)
    then show ?thesis by (simp add: Cons m json_string_written del: json_members.simps)
  qed
qed simp

lemma read_json: "numbered v \<Longrightarrow> reads v"
proof (induction v)
  case JNull
  show ?case
  proof (intro allI impI)
    fix f d :: nat and r :: string
    assume "length (json_render JNull) < f"
    then show "json_value f d (json_render JNull @ r) = Some (wash JNull, r)"
      by (cases f) (simp_all add: HasPrefix_Cons json_space_def)
  qed
next
  case (JArray vs)
  show ?case
  proof (intro allI impI)
    fix f d :: nat and r
    assume a: "json_depth (JArray vs) \<le> d" "length (json_render (JArray vs)) < f" "ends_value r"
    then obtain g e where g: "f = Suc g" "d = Suc e" by (cases f; cases d) auto
    show "json_value f d (json_render (JArray vs) @ r) = Some (wash (JArray vs), r)"
    proof (cases vs)
      case Nil
      then show ?thesis by (simp add: g HasPrefix_Cons)
    next
      case (Cons v vs')
      let ?body = "Join (map json_render vs) '','' @ CHR '']'' # r"
      obtain c cs where c: "json_render v = c # cs" "\<not> json_space c" "c \<noteq> CHR '']''"
        using render_first [of v] JArray.prems Cons by auto
      then have first: "\<not> HasPrefix (skip ?body) '']''" by (cases vs') (simp_all add: Cons HasPrefix_Cons)
      have "json_elements g e ?body = Some (map wash vs, r)"
        using JArray a(1,2) by (intro read_elements) (auto simp: g Cons foldr_max_le list_all_iff)
      with first show ?thesis by (simp add: g del: json_elements.simps)
    qed
  qed
next
  case (JObject ms)
  show ?case
  proof (intro allI impI)
    fix f d :: nat and r
    assume a: "json_depth (JObject ms) \<le> d" "length (json_render (JObject ms)) < f" "ends_value r"
    then obtain g e where g: "f = Suc g" "d = Suc e" by (cases f; cases d) auto
    show "json_value f d (json_render (JObject ms) @ r) = Some (wash (JObject ms), r)"
    proof (cases ms)
      case Nil
      then show ?thesis by (simp add: g HasPrefix_Cons)
    next
      case (Cons m ms')
      let ?body = "Join (map member ms) '','' @ CHR ''}'' # r"
      have first: "\<not> HasPrefix (skip ?body) ''}''"
        by (cases m; cases ms') (simp_all add: Cons HasPrefix_Cons json_string_def)
      have sub: "reads v" if "(k, v) \<in> set ms" for k v
        using JObject.IH [OF that, of v] JObject.prems that by (auto simp: list_all_iff)
      have "json_members g e ?body = Some (map (\<lambda>(k, v). (washed k, wash v)) ms, r)"
      proof (rule read_nested_members)
        show "\<forall>(k, v) \<in> set ms. reads v" using sub by blast
        show "list_all (\<lambda>(k, v). json_depth v \<le> e) ms" using a(1) by (auto simp: g foldr_max_le list_all_iff)
        show "length (Join (map member ms) '','') + 1 < g" using a(2) by (simp add: g)
      qed (use JObject.prems Cons in simp_all)
      with first show ?thesis by (simp add: g del: json_members.simps)
    qed
  qed
next
  case (JString s)
  show ?case
  proof (intro allI impI)
    fix f d :: nat and r :: string
    assume "length (json_render (JString s)) < f"
    then show "json_value f d (json_render (JString s) @ r) = Some (wash (JString s), r)"
      using scan_written [of s r] by (cases f) (simp_all add: json_string_written washed_def)
  qed
next
  case (JBool b)
  have "scalar (JBool b)" by (simp add: scalar_def)
  then show ?case using read_scalar by (intro allI impI; case_tac f; simp del: json_value.simps json_render.simps)
next
  case (JNumber t)
  then have "scalar (JNumber t)" by (simp add: scalar_def)
  then show ?case using read_scalar by (intro allI impI; case_tac f; simp del: json_value.simps json_render.simps)
qed

text \<open>What is rendered is read back, with white space after it or none.\<close>

lemma json_reads:
  assumes "numbered v" and "json_depth v \<le> maxNestingDepth" and "list_all json_space ws"
  shows "json_parse (json_render v @ ws) = Some (wash v)"
proof -
  have "ends_value ws" using assms(3) by (cases ws) (simp_all add: ends_value_def)
  then have "json_value (2 * length (json_render v @ ws) + 2) maxNestingDepth (json_render v @ ws) = Some (wash v, ws)"
    by (intro read_json [OF assms(1), rule_format, OF assms(2)]) (simp_all del: json_value.simps)
  moreover have "skip ws = []" using assms(3) by (simp add: list_all_iff)
  ultimately show ?thesis by (simp add: json_parse_def del: json_value.simps)
qed

lemma json_ok_clean: "json_ok v \<Longrightarrow> numbered v \<and> wash v = v"
proof (induction v)
  case (JArray vs)
  then show ?case by (auto simp: list_all_iff intro: map_idI)
next
  case (JObject ms)
  then show ?case by (fastforce simp: list_all_iff intro: map_idI)
qed (simp_all add: scalar_def)

lemma json_read_back:
  "json_ok v \<Longrightarrow> json_depth v \<le> maxNestingDepth \<Longrightarrow> list_all json_space ws \<Longrightarrow>
   json_parse (json_render v @ ws) = Some v"
  using json_reads json_ok_clean by metis

text \<open>The interface of a codec, for documents no deeper than the reader goes.\<close>

definition plain_document :: "json \<Rightarrow> bool" where
  "plain_document v \<longleftrightarrow> json_ok v \<and> json_depth v \<le> maxNestingDepth"

interpretation documents: codec plain_document json_render json_parse
  by unfold_locales (use json_read_back [where ws = "[]"] in \<open>simp add: plain_document_def\<close>)

end
