(* ===== verification/Subscription.thy ===== *)
theory Subscription
  imports Awg_Endpoint Go_Json_Nested "HOL-Library.List_Lexorder" "HOL-Library.Char_ord"
begin

text \<open>
  \<^verbatim>\<open>examples/subscription-server/main.go\<close>: the example that serves subscriptions.  The file it is
  driven by, the clock, the hash and the order in which a Go map is ranged over are arguments; a
  \<^verbatim>\<open>json.RawMessage\<close> is the value it spells.  A slice that is nil is told from an empty one where
  the two are written differently.
\<close>

section \<open>Times\<close>

text \<open>\<^verbatim>\<open>time.Time\<close> in JSON: RFC 3339, read to nanoseconds since 1970; the zero time is the first
  instant of the year 1.\<close>

definition zero_time :: instant where
  "zero_time = - 62135596800 * seconds"

definition digits_at :: "nat \<Rightarrow> nat \<Rightarrow> string \<Rightarrow> int option" where
  "digits_at i n s =
     (let ds = take n (drop i s) in
      if length ds = n \<and> list_all is_digit ds then Some (int (nat_of_digits 0 ds)) else None)"

definition leap_year :: "int \<Rightarrow> bool" where
  "leap_year y \<longleftrightarrow> y mod 4 = 0 \<and> (y mod 100 \<noteq> 0 \<or> y mod 400 = 0)"

definition month_days :: "int \<Rightarrow> int list" where
  "month_days y = [31, if leap_year y then 29 else 28, 31, 30, 31, 30, 31, 31, 30, 31, 30, 31]"

text \<open>Days from the first of January of the year 1.\<close>

definition day_number :: "int \<Rightarrow> nat \<Rightarrow> int \<Rightarrow> int" where
  "day_number y m d =
     365 * (y - 1) + (y - 1) div 4 - (y - 1) div 100 + (y - 1) div 400 + sum_list (take (m - 1) (month_days y)) + d - 1"

definition between_int :: "int \<Rightarrow> int \<Rightarrow> int option \<Rightarrow> bool" where
  "between_int lo hi v = (case v of None \<Rightarrow> False | Some i \<Rightarrow> lo \<le> i \<and> i \<le> hi)"

text \<open>The fraction, of which nine digits count, and the zone, in seconds.\<close>

definition fraction :: "string \<Rightarrow> int \<times> string" where
  "fraction s =
     (if HasPrefix s ''.'' \<and> tl s \<noteq> [] \<and> is_digit (hd (tl s)) then
        (let ds = take 9 (takeWhile is_digit (tl s)) in
         (int (nat_of_digits 0 ds * 10 ^ (9 - length ds)), dropWhile is_digit (tl s)))
      else (0, s))"

definition zone :: "string \<Rightarrow> int option" where
  "zone s =
     (if s = ''Z'' then Some 0
      else if length s = 6 \<and> (hd s = CHR ''+'' \<or> hd s = CHR ''-'') \<and> s ! 3 = CHR '':''
          \<and> between_int 0 23 (digits_at 1 2 s) \<and> between_int 0 59 (digits_at 4 2 s)
      then (let off = 3600 * the (digits_at 1 2 s) + 60 * the (digits_at 4 2 s)
            in Some (if hd s = CHR ''-'' then - off else off))
      else None)"

definition parseRFC3339 :: "string \<Rightarrow> instant option" where
  "parseRFC3339 s =
     (let year = digits_at 0 4 s; month = digits_at 5 2 s; day = digits_at 8 2 s;
          hour = digits_at 11 2 s; minute = digits_at 14 2 s; second = digits_at 17 2 s in
      if 19 \<le> length s \<and> between_int 0 9999 year \<and> between_int 1 12 month
         \<and> between_int 1 (month_days (the year) ! (nat (the month) - 1)) day
         \<and> between_int 0 23 hour \<and> between_int 0 59 minute \<and> between_int 0 59 second
         \<and> s ! 4 = CHR ''-'' \<and> s ! 7 = CHR ''-'' \<and> s ! 10 = CHR ''T'' \<and> s ! 13 = CHR '':'' \<and> s ! 16 = CHR '':''
      then (case fraction (drop 19 s) of (nanos, s') \<Rightarrow>
        (case zone s' of
           None \<Rightarrow> None
         | Some off \<Rightarrow> Some ((86400 * day_number (the year) (nat (the month)) (the day)
             + 3600 * the hour + 60 * the minute + the second - off) * seconds + nanos + zero_time)))
      else None)"

definition into_time :: "json \<Rightarrow> instant \<Rightarrow> instant option" where
  "into_time j old = (case j of JNull \<Rightarrow> Some old | JString s \<Rightarrow> parseRFC3339 s | _ \<Rightarrow> None)"

section \<open>Data\<close>

definition endpointType :: string where "endpointType = ''amneziawg''"

definition caeloDocumentType :: string where
  "caeloDocumentType = ''application/vnd.caelo.subscription+json''"

record sub_peer =
  spAddress :: string
  spPort :: int
  spPublicKey :: string
  spPreSharedKey :: string
  spAllowedIPs :: "string list"
  spKeepalive :: int

text \<open>The raw fields of an endpoint, by their names.\<close>

definition rawNames :: "string list" where
  "rawNames =
     [''jc'', ''jmin'', ''jmax'', ''s1'', ''s2'', ''s3'', ''s4'', ''h1'', ''h2'', ''h3'', ''h4'',
      ''i1'', ''i2'', ''i3'', ''i4'', ''i5'']"

record sub_endpoint =
  seType :: string
  seTag :: string
  seAddress :: "string list option"
  sePrivateKey :: string
  seMTU :: int
  seDNS :: "string list"
  sePeers :: "sub_peer list option"
  seRaw :: "(string, json) fmap"

record sub_meta =
  Country :: string
  Description :: string
  Maintenance :: bool

record subscriber =
  Expires :: instant
  QuotaBytes :: int
  UsedBytes :: int
  SubNodes :: "string list"

record sub_config =
  UpdateIntervalHours :: int
  Subscribers :: "(string, subscriber) fmap"
  Nodes :: "(string, sub_endpoint) fmap"
  Meta :: "(string, sub_meta) fmap"

definition zero_sub_peer :: sub_peer where
  "zero_sub_peer =
     \<lparr>spAddress = [], spPort = 0, spPublicKey = [], spPreSharedKey = [], spAllowedIPs = [], spKeepalive = 0\<rparr>"

definition zero_sub_endpoint :: sub_endpoint where
  "zero_sub_endpoint =
     \<lparr>seType = [], seTag = [], seAddress = None, sePrivateKey = [], seMTU = 0, seDNS = [], sePeers = None,
      seRaw = fmempty\<rparr>"

definition zero_sub_meta :: sub_meta where
  "zero_sub_meta = \<lparr>Country = [], Description = [], Maintenance = False\<rparr>"

definition zero_subscriber :: subscriber where
  "zero_subscriber = \<lparr>Expires = zero_time, QuotaBytes = 0, UsedBytes = 0, SubNodes = []\<rparr>"

definition zero_sub_config :: sub_config where
  "zero_sub_config = \<lparr>UpdateIntervalHours = 0, Subscribers = fmempty, Nodes = fmempty, Meta = fmempty\<rparr>"

section \<open>Reading the file\<close>

text \<open>\<^verbatim>\<open>DisallowUnknownFields\<close>: a member that names no field is an error.\<close>

definition into_strict ::
  "string list \<Rightarrow> (string \<Rightarrow> json \<Rightarrow> 'r \<Rightarrow> 'r option) \<Rightarrow> json \<Rightarrow> 'r \<Rightarrow> 'r option" where
  "into_strict names set_field j old =
     (case j of
        JNull \<Rightarrow> Some old
      | JObject ms \<Rightarrow>
          fold (\<lambda>(key, v) r. Option.bind r (\<lambda>x.
            (case field_named names key of None \<Rightarrow> None | Some n \<Rightarrow> set_field n v x))) ms (Some old)
      | _ \<Rightarrow> None)"

definition into_bool :: "json \<Rightarrow> bool \<Rightarrow> bool option" where
  "into_bool j old = (case j of JNull \<Rightarrow> Some old | JBool b \<Rightarrow> Some b | _ \<Rightarrow> None)"

definition into_slice :: "(json \<Rightarrow> 'a \<Rightarrow> 'a option) \<Rightarrow> 'a \<Rightarrow> json \<Rightarrow> 'a list option \<Rightarrow> 'a list option option" where
  "into_slice dec zero j old =
     (case j of
        JNull \<Rightarrow> Some None
      | JArray js \<Rightarrow> map_option Some (into_elements dec zero js (case old of None \<Rightarrow> [] | Some xs \<Rightarrow> xs))
      | _ \<Rightarrow> None)"

text \<open>A map: every member is decoded over the zero value, under its key.\<close>

definition into_map ::
  "(json \<Rightarrow> 'a \<Rightarrow> 'a option) \<Rightarrow> 'a \<Rightarrow> json \<Rightarrow> (string, 'a) fmap \<Rightarrow> (string, 'a) fmap option" where
  "into_map dec zero j old =
     (case j of
        JNull \<Rightarrow> Some fmempty
      | JObject ms \<Rightarrow>
          fold (\<lambda>(key, v) r. Option.bind r (\<lambda>m. map_option (\<lambda>x. fmupd key x m) (dec v zero))) ms (Some old)
      | _ \<Rightarrow> None)"

definition set_sub_peer :: "string \<Rightarrow> json \<Rightarrow> sub_peer \<Rightarrow> sub_peer option" where
  "set_sub_peer name j p =
     (if name = ''address'' then map_option (\<lambda>v. p\<lparr>spAddress := v\<rparr>) (into_string j (spAddress p))
      else if name = ''port'' then map_option (\<lambda>v. p\<lparr>spPort := v\<rparr>) (into_int j (spPort p))
      else if name = ''public_key'' then map_option (\<lambda>v. p\<lparr>spPublicKey := v\<rparr>) (into_string j (spPublicKey p))
      else if name = ''pre_shared_key'' then map_option (\<lambda>v. p\<lparr>spPreSharedKey := v\<rparr>) (into_string j (spPreSharedKey p))
      else if name = ''allowed_ips'' then
        map_option (\<lambda>v. p\<lparr>spAllowedIPs := v\<rparr>) (into_list into_string [] j (spAllowedIPs p))
      else map_option (\<lambda>v. p\<lparr>spKeepalive := v\<rparr>) (into_int j (spKeepalive p)))"

definition sub_endpoint_names :: "string list" where
  "sub_endpoint_names = [''type'', ''tag'', ''address'', ''private_key'', ''mtu'', ''dns'', ''peers''] @ rawNames"

definition set_sub_endpoint :: "string \<Rightarrow> json \<Rightarrow> sub_endpoint \<Rightarrow> sub_endpoint option" where
  "set_sub_endpoint name j e =
     (if name = ''type'' then map_option (\<lambda>v. e\<lparr>seType := v\<rparr>) (into_string j (seType e))
      else if name = ''tag'' then map_option (\<lambda>v. e\<lparr>seTag := v\<rparr>) (into_string j (seTag e))
      else if name = ''address'' then
        map_option (\<lambda>v. e\<lparr>seAddress := v\<rparr>) (into_slice into_string [] j (seAddress e))
      else if name = ''private_key'' then map_option (\<lambda>v. e\<lparr>sePrivateKey := v\<rparr>) (into_string j (sePrivateKey e))
      else if name = ''mtu'' then map_option (\<lambda>v. e\<lparr>seMTU := v\<rparr>) (into_int j (seMTU e))
      else if name = ''dns'' then map_option (\<lambda>v. e\<lparr>seDNS := v\<rparr>) (into_list into_string [] j (seDNS e))
      else if name = ''peers'' then
        map_option (\<lambda>v. e\<lparr>sePeers := v\<rparr>)
          (into_slice (into_strict peerNames set_sub_peer) zero_sub_peer j (sePeers e))
      else Some (e\<lparr>seRaw := fmupd name j (seRaw e)\<rparr>))"

definition set_sub_meta :: "string \<Rightarrow> json \<Rightarrow> sub_meta \<Rightarrow> sub_meta option" where
  "set_sub_meta name j m =
     (if name = ''country'' then map_option (\<lambda>v. m\<lparr>Country := v\<rparr>) (into_string j (Country m))
      else if name = ''description'' then map_option (\<lambda>v. m\<lparr>Description := v\<rparr>) (into_string j (Description m))
      else map_option (\<lambda>v. m\<lparr>Maintenance := v\<rparr>) (into_bool j (Maintenance m)))"

definition set_subscriber :: "string \<Rightarrow> json \<Rightarrow> subscriber \<Rightarrow> subscriber option" where
  "set_subscriber name j who =
     (if name = ''expires'' then map_option (\<lambda>v. who\<lparr>Expires := v\<rparr>) (into_time j (Expires who))
      else if name = ''quota_bytes'' then map_option (\<lambda>v. who\<lparr>QuotaBytes := v\<rparr>) (into_int j (QuotaBytes who))
      else if name = ''used_bytes'' then map_option (\<lambda>v. who\<lparr>UsedBytes := v\<rparr>) (into_int j (UsedBytes who))
      else map_option (\<lambda>v. who\<lparr>SubNodes := v\<rparr>) (into_list into_string [] j (SubNodes who)))"

definition set_sub_config :: "string \<Rightarrow> json \<Rightarrow> sub_config \<Rightarrow> sub_config option" where
  "set_sub_config name j c =
     (if name = ''update_interval_hours'' then
        map_option (\<lambda>v. c\<lparr>UpdateIntervalHours := v\<rparr>) (into_int j (UpdateIntervalHours c))
      else if name = ''subscribers'' then
        map_option (\<lambda>v. c\<lparr>Subscribers := v\<rparr>)
          (into_map (into_strict [''expires'', ''quota_bytes'', ''used_bytes'', ''nodes''] set_subscriber)
             zero_subscriber j (Subscribers c))
      else if name = ''nodes'' then
        map_option (\<lambda>v. c\<lparr>Nodes := v\<rparr>)
          (into_map (into_strict sub_endpoint_names set_sub_endpoint) zero_sub_endpoint j (Nodes c))
      else map_option (\<lambda>v. c\<lparr>Meta := v\<rparr>)
        (into_map (into_strict [''country'', ''description'', ''maintenance''] set_sub_meta)
           zero_sub_meta j (Meta c)))"

text \<open>\<^verbatim>\<open>Decoder.Decode\<close> reads the first value of the file and leaves the rest.\<close>

definition decode_config :: "string \<Rightarrow> sub_config option" where
  "decode_config raw =
     (case json_value (2 * length raw + 2) maxNestingDepth raw of
        None \<Rightarrow> None
      | Some (v, rest) \<Rightarrow>
          into_strict [''update_interval_hours'', ''subscribers'', ''nodes'', ''meta''] set_sub_config v zero_sub_config)"

datatype reload_error = CannotRead | BadFile | UndefinedNode string | ShortToken nat

fun named_nodes :: "(string, sub_endpoint) fmap \<Rightarrow> string list \<Rightarrow> reload_error + unit" where
  "named_nodes nodes [] = Inr ()"
| "named_nodes nodes (name # names) =
     (if fmlookup nodes name = None then Inl (UndefinedNode name) else named_nodes nodes names)"

fun check_subscribers ::
  "(string, sub_endpoint) fmap \<Rightarrow> (string \<times> subscriber) list \<Rightarrow> reload_error + unit" where
  "check_subscribers nodes [] = Inr ()"
| "check_subscribers nodes ((token, who) # rest) =
     bindE (named_nodes nodes (SubNodes who)) (\<lambda>_.
       if length token < 24 then Inl (ShortToken (length token)) else check_subscribers nodes rest)"

text \<open>
  \<^verbatim>\<open>reload\<close>: the file's contents, \<open>None\<close> when it cannot be read, the order in which the
  subscribers are visited, and the configuration that was loaded before.
\<close>

definition reload ::
  "string option \<Rightarrow> (sub_config \<Rightarrow> (string \<times> subscriber) list) \<Rightarrow> sub_config \<Rightarrow> (reload_error + unit) \<times> sub_config" where
  "reload contents visited loaded =
     (case contents of
        None \<Rightarrow> (Inl CannotRead, loaded)
      | Some raw \<Rightarrow>
          (case decode_config raw of
             None \<Rightarrow> (Inl BadFile, loaded)
           | Some c \<Rightarrow>
               (case check_subscribers (Nodes c) (visited c) of
                  Inl e \<Rightarrow> (Inl e, loaded)
                | Inr _ \<Rightarrow> (Inr (), c))))"

definition count_subscribers :: "sub_config \<Rightarrow> nat" where
  "count_subscribers loaded = map_len (Subscribers loaded)"

section \<open>Writing documents\<close>

text \<open>\<^verbatim>\<open>omitempty\<close>.\<close>

definition unless_empty :: "string \<Rightarrow> string \<Rightarrow> (string \<times> json) list" where
  "unless_empty name v = (if v = [] then [] else [(name, JString v)])"

definition unless_zero :: "string \<Rightarrow> int \<Rightarrow> (string \<times> json) list" where
  "unless_zero name v = (if v = 0 then [] else [(name, JNumber (Itoa v))])"

definition unless_no :: "string \<Rightarrow> string list \<Rightarrow> (string \<times> json) list" where
  "unless_no name vs = (if vs = [] then [] else [(name, JArray (map JString vs))])"

definition json_slice :: "('a \<Rightarrow> json) \<Rightarrow> 'a list option \<Rightarrow> json" where
  "json_slice f xs = (case xs of None \<Rightarrow> JNull | Some ys \<Rightarrow> JArray (map f ys))"

definition peer_json :: "sub_peer \<Rightarrow> json" where
  "peer_json p = JObject
     ([(''address'', JString (spAddress p)), (''port'', JNumber (Itoa (spPort p))),
       (''public_key'', JString (spPublicKey p))]
      @ unless_empty ''pre_shared_key'' (spPreSharedKey p) @ unless_no ''allowed_ips'' (spAllowedIPs p)
      @ unless_zero ''persistent_keepalive_interval'' (spKeepalive p))"

definition raw_members :: "sub_endpoint \<Rightarrow> (string \<times> json) list" where
  "raw_members e =
     concat (map (\<lambda>name. (case fmlookup (seRaw e) name of None \<Rightarrow> [] | Some v \<Rightarrow> [(name, v)])) rawNames)"

definition endpoint_json :: "sub_endpoint \<Rightarrow> json" where
  "endpoint_json e = JObject
     ([(''type'', JString (seType e))] @ unless_empty ''tag'' (seTag e)
      @ [(''address'', json_slice JString (seAddress e)), (''private_key'', JString (sePrivateKey e))]
      @ unless_zero ''mtu'' (seMTU e) @ unless_no ''dns'' (seDNS e)
      @ [(''peers'', json_slice peer_json (sePeers e))] @ raw_members e)"

text \<open>A node by its name, the zero value when there is none, and with its type.\<close>

definition node_named :: "sub_config \<Rightarrow> string \<Rightarrow> sub_endpoint" where
  "node_named c name = (case fmlookup (Nodes c) name of None \<Rightarrow> zero_sub_endpoint | Some e \<Rightarrow> e)"

definition meta_named :: "sub_config \<Rightarrow> string \<Rightarrow> sub_meta" where
  "meta_named c name = (case fmlookup (Meta c) name of None \<Rightarrow> zero_sub_meta | Some m \<Rightarrow> m)"

definition served_node :: "sub_config \<Rightarrow> string \<Rightarrow> sub_endpoint" where
  "served_node c name = (node_named c name)\<lparr>seType := endpointType\<rparr>"

definition appended :: "json list \<Rightarrow> json" where
  "appended vs = (if vs = [] then JNull else JArray vs)"

definition plainAnswer :: "sub_config \<Rightarrow> subscriber \<Rightarrow> json" where
  "plainAnswer c who =
     JObject [(''endpoints'', appended (map (\<lambda>name. endpoint_json (served_node c name)) (SubNodes who)))]"

definition caelo_node :: "sub_config \<Rightarrow> string \<Rightarrow> json" where
  "caelo_node c name =
     (let about = meta_named c name in JObject
       ([(''id'', JString name)] @ unless_empty ''country'' (Country about)
        @ unless_empty ''description'' (Description about)
        @ (if Maintenance about then [(''maintenance'', JBool True)] else [])
        @ [(''endpoint'', endpoint_json (served_node c name))]))"

definition caeloAnswer :: "sub_config \<Rightarrow> subscriber \<Rightarrow> json" where
  "caeloAnswer c who =
     JObject [(''version'', JNumber ''1''), (''nodes'', appended (map (caelo_node c) (SubNodes who)))]"

definition userinfo :: "subscriber \<Rightarrow> string" where
  "userinfo who =
     ''upload=0; download='' @ Itoa (UsedBytes who) @ ''; total='' @ Itoa (QuotaBytes who) @ ''; expire='' @
     Itoa (if Expires who = zero_time then 0 else Expires who div seconds)"

section \<open>Answering\<close>

text \<open>A request: its method, its path and the two headers that are looked at.\<close>

record http_request =
  Method :: string
  Path :: string
  Accept :: string
  Device :: string

record http_answer =
  StatusCode :: int
  Headers :: "(string \<times> string) list"
  Body :: string

definition http_error :: "(string \<times> string) list \<Rightarrow> string \<Rightarrow> int \<Rightarrow> http_answer" where
  "http_error hs message sts =
     \<lparr>StatusCode = sts,
      Headers = hs @ [(''Content-Type'', ''text/plain; charset=utf-8''), (''X-Content-Type-Options'', ''nosniff'')],
      Body = message @ [newline]\<rparr>"

definition methodNotAllowed :: http_answer where
  "methodNotAllowed = http_error [(''Allow'', ''GET'')] [] 405"

definition notFound :: http_answer where
  "notFound = http_error [] ''404 page not found'' 404"

definition TrimPrefix :: "string \<Rightarrow> string \<Rightarrow> string" where
  "TrimPrefix s p = (if HasPrefix s p then drop (length p) s else s)"

definition CutSuffix :: "string \<Rightarrow> string \<Rightarrow> string option" where
  "CutSuffix s p = (if HasSuffix s p then Some (take (length s - length p) s) else None)"

definition expired :: "instant \<Rightarrow> subscriber \<Rightarrow> bool" where
  "expired now who \<longleftrightarrow> Expires who \<noteq> zero_time \<and> Expires who < now"

definition serve_document :: "sub_config \<Rightarrow> subscriber \<Rightarrow> string \<Rightarrow> http_answer" where
  "serve_document c who accept =
     (let hs = [(''Cache-Control'', ''no-store''), (''subscription-userinfo'', userinfo who)]
        @ (if 0 < UpdateIntervalHours c then [(''profile-update-interval'', Itoa (UpdateIntervalHours c))] else [])
      in if Contains accept caeloDocumentType then
           \<lparr>StatusCode = 200, Headers = hs @ [(''Content-Type'', caeloDocumentType)],
            Body = json_render (caeloAnswer c who) @ [newline]\<rparr>
         else
           \<lparr>StatusCode = 200, Headers = hs @ [(''Content-Type'', ''application/json'')],
            Body = json_render (plainAnswer c who) @ [newline]\<rparr>)"

definition serve_sub :: "instant \<Rightarrow> sub_config \<Rightarrow> http_request \<Rightarrow> http_answer" where
  "serve_sub now c r =
     (if Method r \<noteq> ''GET'' then methodNotAllowed
      else (case fmlookup (Subscribers c) (TrimPrefix (Path r) ''/sub/'') of
              None \<Rightarrow> notFound
            | Some who \<Rightarrow> if expired now who then notFound else serve_document c who (Accept r)))"

text \<open>The state: a version of every node, and one of them all that does not depend on their order.\<close>

definition node_version :: "(string \<Rightarrow> bytes) \<Rightarrow> string \<Rightarrow> sub_endpoint \<Rightarrow> string" where
  "node_version sha256 device e = hex_encode (take 8 (sha256 (device @ json_render (endpoint_json e))))"

definition state_parts :: "(string \<Rightarrow> bytes) \<Rightarrow> string \<Rightarrow> sub_config \<Rightarrow> subscriber \<Rightarrow> string list" where
  "state_parts sha256 device c who =
     map (\<lambda>name. name @ '':'' @ node_version sha256 device (node_named c name)) (SubNodes who)"

definition whole_version :: "(string \<Rightarrow> bytes) \<Rightarrow> string \<Rightarrow> sub_config \<Rightarrow> subscriber \<Rightarrow> string" where
  "whole_version sha256 device c who =
     hex_encode (take 8 (sha256 (Join (sort (state_parts sha256 device c who)) [newline])))"

definition state_json :: "(string \<Rightarrow> bytes) \<Rightarrow> string \<Rightarrow> sub_config \<Rightarrow> subscriber \<Rightarrow> json" where
  "state_json sha256 device c who = JObject
     [(''nodes'', JArray (map (\<lambda>name. JObject
         [(''id'', JString name), (''version'', JString (node_version sha256 device (node_named c name))),
          (''server'', JString (seTag (node_named c name)))]) (SubNodes who))),
      (''version'', JString (whole_version sha256 device c who))]"

definition serveState :: "(string \<Rightarrow> bytes) \<Rightarrow> instant \<Rightarrow> sub_config \<Rightarrow> http_request \<Rightarrow> string \<Rightarrow> http_answer" where
  "serveState sha256 now c r token =
     (if Method r \<noteq> ''GET'' then methodNotAllowed
      else (case fmlookup (Subscribers c) token of
              None \<Rightarrow> notFound
            | Some who \<Rightarrow>
                if expired now who then notFound
                else \<lparr>StatusCode = 200,
                   Headers = [(''Cache-Control'', ''no-store''), (''Content-Type'', ''application/json'')],
                   Body = json_render (state_json sha256 (Device r) c who) @ [newline]\<rparr>))"

definition route :: "(string \<Rightarrow> bytes) \<Rightarrow> instant \<Rightarrow> sub_config \<Rightarrow> http_request \<Rightarrow> http_answer" where
  "route sha256 now c r =
     (case CutSuffix (TrimPrefix (Path r) ''/sub/'') ''/state'' of
        Some token \<Rightarrow> serveState sha256 now c r token
      | None \<Rightarrow> serve_sub now c r)"

end
