(* ===== verification/Subscription_Properties.thy ===== *)
theory Subscription_Properties
  imports Subscription "HOL-Library.Multiset"
begin

text \<open>
  The properties of the subscription server: what it accepts, who is answered what, that what it
  serves is read by the client's core, and what its versions cover.
\<close>

section \<open>Who is answered\<close>

lemma without_subscribers [simp]:
  "node_named (c\<lparr>Subscribers := s\<rparr>) = node_named c" "meta_named (c\<lparr>Subscribers := s\<rparr>) = meta_named c"
  by (simp_all add: node_named_def [abs_def] meta_named_def [abs_def])

lemma documents_without_subscribers [simp]:
  "serve_document (c\<lparr>Subscribers := s\<rparr>) who accept = serve_document c who accept"
  "state_json sha256 device (c\<lparr>Subscribers := s\<rparr>) who = state_json sha256 device c who"
  by (simp_all add: serve_document_def plainAnswer_def caeloAnswer_def caelo_node_def [abs_def] served_node_def
      state_json_def whole_version_def state_parts_def Let_def)

text \<open>
  C26: An expired subscription is an unknown one.  Whatever the request, the answer is the one that
  would be given if the subscriber were not in the file at all.
\<close>

theorem expired_is_unknown:
  assumes "fmlookup (Subscribers c) token = Some who" and "expired now who"
  shows "route sha256 now c r = route sha256 now (c\<lparr>Subscribers := fmdrop token (Subscribers c)\<rparr>) r"
  using assms by (auto simp: route_def serveState_def serve_sub_def split: option.split)

text \<open>The token a request is about, and what of the file its answer may be made of.\<close>

definition token_of :: "http_request \<Rightarrow> string" where
  "token_of r =
     (let rest = TrimPrefix (Path r) ''/sub/'' in (case CutSuffix rest ''/state'' of Some token \<Rightarrow> token | None \<Rightarrow> rest))"

definition own_part :: "sub_config \<Rightarrow> string \<Rightarrow> (subscriber \<times> (string \<times> sub_endpoint \<times> sub_meta) list) option" where
  "own_part c token =
     map_option (\<lambda>who. (who, map (\<lambda>name. (name, node_named c name, meta_named c name)) (SubNodes who)))
       (fmlookup (Subscribers c) token)"

lemma own_nodes:
  assumes "map (\<lambda>name. (name, node_named c name, meta_named c name)) names =
      map (\<lambda>name. (name, node_named c' name, meta_named c' name)) names" and "name \<in> set names"
  shows "node_named c name = node_named c' name" and "meta_named c name = meta_named c' name"
  using assms by simp_all

lemma own_documents:
  assumes "map (\<lambda>name. (name, node_named c name, meta_named c name)) (SubNodes who) =
      map (\<lambda>name. (name, node_named c' name, meta_named c' name)) (SubNodes who)"
    and "UpdateIntervalHours c = UpdateIntervalHours c'"
  shows "serve_document c who accept = serve_document c' who accept"
    and "state_json sha256 device c who = state_json sha256 device c' who"
proof -
  have nodes: "map (\<lambda>name. endpoint_json (served_node c name)) (SubNodes who) =
      map (\<lambda>name. endpoint_json (served_node c' name)) (SubNodes who)"
    "map (caelo_node c) (SubNodes who) = map (caelo_node c') (SubNodes who)"
    using own_nodes [OF assms(1)] by (simp_all add: served_node_def caelo_node_def)
  then have "plainAnswer c who = plainAnswer c' who" "caeloAnswer c who = caeloAnswer c' who"
    by (simp_all only: plainAnswer_def caeloAnswer_def)
  then show "serve_document c who accept = serve_document c' who accept"
    using assms(2) by (simp add: serve_document_def Let_def)
  have parts: "state_parts sha256 device c who = state_parts sha256 device c' who"
    using own_nodes [OF assms(1)] by (simp add: state_parts_def)
  then show "state_json sha256 device c who = state_json sha256 device c' who"
    using own_nodes [OF assms(1)] by (simp add: state_json_def whole_version_def)
qed

text \<open>
  C25: Nobody is answered from another's part of the file.  Two configurations that agree on the
  subscriber the token names, on the nodes that subscriber names and on the interval give the same
  answer, whatever else they hold.
\<close>

theorem answers_own_part:
  assumes "own_part c (token_of r) = own_part c' (token_of r)" and "UpdateIntervalHours c = UpdateIntervalHours c'"
  shows "route sha256 now c r = route sha256 now c' r"
proof (cases "fmlookup (Subscribers c) (token_of r)")
  case None
  then have "fmlookup (Subscribers c') (token_of r) = None"
    using assms(1) by (simp add: own_part_def)
  with None show ?thesis
    by (auto simp: route_def serveState_def serve_sub_def token_of_def Let_def split: option.split)
next
  case (Some who)
  then have same: "fmlookup (Subscribers c') (token_of r) = Some who"
    "map (\<lambda>name. (name, node_named c name, meta_named c name)) (SubNodes who) =
      map (\<lambda>name. (name, node_named c' name, meta_named c' name)) (SubNodes who)"
    using assms(1) by (cases "fmlookup (Subscribers c') (token_of r)"; auto simp: own_part_def)+
  note docs = own_documents [OF same(2) assms(2)]
  show ?thesis
    using Some same(1) docs
    by (auto simp: route_def serveState_def serve_sub_def token_of_def Let_def split: option.splits)
qed

section \<open>The file\<close>

definition sub_config_ok :: "sub_config \<Rightarrow> bool" where
  "sub_config_ok c \<longleftrightarrow>
     (\<forall>token who. fmlookup (Subscribers c) token = Some who \<longrightarrow>
        24 \<le> length token \<and> (\<forall>name \<in> set (SubNodes who). fmlookup (Nodes c) name \<noteq> None))"

lemma named_nodes_Inr: "named_nodes nodes names = Inr u \<longleftrightarrow> (\<forall>name \<in> set names. fmlookup nodes name \<noteq> None)"
  by (induction names) auto

lemma check_subscribers_Inr:
  "check_subscribers nodes ps = Inr u \<longleftrightarrow>
     (\<forall>(token, who) \<in> set ps. 24 \<le> length token \<and> (\<forall>name \<in> set (SubNodes who). fmlookup nodes name \<noteq> None))"
proof (induction ps)
  case (Cons p ps)
  obtain token who where p: "p = (token, who)" by fastforce
  note names = named_nodes_Inr [of nodes "SubNodes who" "()"]
  show ?case
  proof (cases "named_nodes nodes (SubNodes who)")
    case (Inl e)
    with names have "\<not> (\<forall>name \<in> set (SubNodes who). fmlookup nodes name \<noteq> None)" by simp
    with Inl show ?thesis by (auto simp: p)
  next
    case (Inr v)
    with names have "\<forall>name \<in> set (SubNodes who). fmlookup nodes name \<noteq> None" by simp
    with Inr Cons show ?thesis by (simp add: p not_less)
  qed
qed simp

text \<open>
  C27: A file is taken whole or not at all.  In whatever order the subscribers are visited, it is
  accepted exactly when it can be read, every token has at least 24 bytes and every node a subscriber
  names is defined; otherwise what was loaded before stays.
\<close>

theorem reload_whole_or_not:
  assumes "\<And>c. set (visited c) = {(token, who). fmlookup (Subscribers c) token = Some who}"
  shows "reload contents visited old =
    (case Option.bind contents decode_config of
       None \<Rightarrow> (Inl (if contents = None then CannotRead else BadFile), old)
     | Some c \<Rightarrow> if sub_config_ok c then (Inr (), c) else (Inl (projl (check_subscribers (Nodes c) (visited c))), old))"
proof -
  have ok: "check_subscribers (Nodes c) (visited c) = Inr u \<longleftrightarrow> sub_config_ok c" for c u
    unfolding check_subscribers_Inr sub_config_ok_def assms by auto
  show ?thesis
  proof (cases "Option.bind contents decode_config")
    case None
    then show ?thesis by (cases contents) (auto simp: reload_def)
  next
    case (Some c)
    then obtain raw where c: "contents = Some raw" "decode_config raw = Some c" by (cases contents) auto
    show ?thesis
      by (cases "check_subscribers (Nodes c) (visited c)") (use ok [of c] c in \<open>auto simp: reload_def\<close>)
  qed
qed

section \<open>What the client reads\<close>

text \<open>The node of the client's core that an endpoint of the server describes.\<close>

definition client_peer :: "sub_peer \<Rightarrow> EndpointPeer" where
  "client_peer p =
     \<lparr>PeerAddress = spAddress p, PeerPort = spPort p, PeerPublicKey = spPublicKey p, PreSharedKey = spPreSharedKey p,
      PeerAllowedIPs = spAllowedIPs p, PersistentKeepaliveInterval = spKeepalive p\<rparr>"

definition scalar_text :: "json \<Rightarrow> string" where
  "scalar_text j = (case j of JString v \<Rightarrow> v | JNumber t \<Rightarrow> t | _ \<Rightarrow> [])"

definition listed :: "'a list option \<Rightarrow> 'a list" where
  "listed xs = (case xs of None \<Rightarrow> [] | Some ys \<Rightarrow> ys)"

definition client_node :: "sub_endpoint \<Rightarrow> Node" where
  "client_node e =
     \<lparr>NodeType = seType e, NodeTag = seTag e, NodeAddress = listed (seAddress e), NodePrivateKey = sePrivateKey e,
      NodeMTU = seMTU e, NodeDNS = seDNS e, NodePeers = map client_peer (listed (sePeers e)),
      NodeScalars = fmmap scalar_text (seRaw e)\<rparr>"

text \<open>Texts in ASCII, integers of 64 bits, and parameters that are texts or integers.\<close>

definition plain_peer :: "sub_peer \<Rightarrow> bool" where
  "plain_peer p \<longleftrightarrow>
     list_all (list_all ascii) ([spAddress p, spPublicKey p, spPreSharedKey p] @ spAllowedIPs p) \<and>
     in_int64 (spPort p) \<and> in_int64 (spKeepalive p)"

definition plain_raw :: "json \<Rightarrow> bool" where
  "plain_raw v \<longleftrightarrow>
     (case v of JString s \<Rightarrow> list_all ascii s | JNumber t \<Rightarrow> (\<exists>i. t = Itoa i) \<and> float_in_range t | _ \<Rightarrow> False)"

definition plain_endpoint :: "sub_endpoint \<Rightarrow> bool" where
  "plain_endpoint e \<longleftrightarrow>
     list_all (list_all ascii) ([seType e, seTag e, sePrivateKey e] @ listed (seAddress e) @ seDNS e) \<and>
     in_int64 (seMTU e) \<and> list_all plain_peer (listed (sePeers e)) \<and>
     fmdom' (seRaw e) \<subseteq> set rawNames \<and> (\<forall>name v. fmlookup (seRaw e) name = Some v \<longrightarrow> plain_raw v)"

text \<open>What is written is JSON.\<close>

lemma scalar_ok: "scalar v \<Longrightarrow> json_ok v"
  by (cases v) (simp_all add: scalar_def)

lemma leaf_ok [simp]: "json_ok (JNumber (Itoa i))" "json_ok (JString s) \<longleftrightarrow> list_all ascii s"
  by (auto simp: scalar_def)

lemma written_ok [simp]:
  "list_all (\<lambda>(k, v). list_all ascii k \<and> json_ok v) (unless_empty k v) \<longleftrightarrow> v = [] \<or> list_all ascii k \<and> list_all ascii v"
  "list_all (\<lambda>(k, v). list_all ascii k \<and> json_ok v) (unless_zero k i) \<longleftrightarrow> i = 0 \<or> list_all ascii k"
  "list_all (\<lambda>(k, v). list_all ascii k \<and> json_ok v) (unless_no k vs) \<longleftrightarrow>
     vs = [] \<or> list_all ascii k \<and> list_all (list_all ascii) vs"
  by (auto simp: unless_empty_def unless_zero_def unless_no_def scalar_def list.pred_map comp_def)

lemma written_depth [simp]:
  "foldr max (map (\<lambda>(k, v). json_depth v) (unless_empty k s)) n = n"
  "foldr max (map (\<lambda>(k, v). json_depth v) (unless_zero k i)) n = n"
  by (simp_all add: unless_empty_def unless_zero_def)

lemma peer_ok: "plain_peer p \<Longrightarrow> json_ok (peer_json p)"
  by (simp add: plain_peer_def peer_json_def ascii_def code_def del: json_ok.simps(4-6))

lemma plain_raw_scalar: "plain_raw v \<Longrightarrow> scalar v"
  by (auto simp: plain_raw_def scalar_def split: json.splits)

lemma raw_names_ascii: "list_all (list_all ascii) rawNames"
  by code_simp

abbreviation raw_of :: "sub_endpoint \<Rightarrow> string list \<Rightarrow> (string \<times> json) list" where
  "raw_of e names \<equiv> concat (map (\<lambda>name. (case fmlookup (seRaw e) name of None \<Rightarrow> [] | Some v \<Rightarrow> [(name, v)])) names)"

lemma raw_members_ok:
  assumes "plain_endpoint e"
  shows "list_all (\<lambda>(k, v). list_all ascii k \<and> json_ok v) (raw_members e)"
proof -
  have "list_all (list_all ascii) names \<Longrightarrow> list_all (\<lambda>(k, v). list_all ascii k \<and> json_ok v) (raw_of e names)" for names
    using assms by (induction names) (auto simp: plain_endpoint_def plain_raw_scalar scalar_ok split: option.split)
  then show ?thesis using raw_names_ascii by (simp add: raw_members_def)
qed

lemma raw_members_depth:
  assumes "plain_endpoint e"
  shows "foldr max (map (\<lambda>(k, v). json_depth v) (raw_members e)) 0 = 0"
proof -
  have zero: "scalar v \<Longrightarrow> json_depth v = 0" for v by (cases v) (simp_all add: scalar_def)
  have "foldr max (map (\<lambda>(k, v). json_depth v) (raw_of e names)) 0 = 0" for names
    using assms by (induction names) (auto simp: plain_endpoint_def plain_raw_scalar zero split: option.split)
  then show ?thesis by (simp add: raw_members_def)
qed

lemma slice_ok: "list_all (\<lambda>x. json_ok (f x)) (listed xs) \<Longrightarrow> json_ok (json_slice f xs)"
  by (cases xs) (simp_all add: json_slice_def listed_def list.pred_map comp_def)

lemma endpoint_ok:
  assumes "plain_endpoint e"
  shows "json_ok (endpoint_json e)"
proof -
  have e: "list_all ascii (seType e)" "list_all ascii (seTag e)" "list_all ascii (sePrivateKey e)"
    "list_all (list_all ascii) (listed (seAddress e))" "list_all (list_all ascii) (seDNS e)"
    "list_all plain_peer (listed (sePeers e))"
    using assms by (simp_all add: plain_endpoint_def)
  have "json_ok (json_slice JString (seAddress e))"
    using e(4) by (intro slice_ok) (simp add: scalar_def)
  moreover have "json_ok (json_slice peer_json (sePeers e))"
    using e(6) peer_ok by (intro slice_ok) (auto simp: list_all_iff)
  ultimately show ?thesis
    using raw_members_ok [OF assms] e
    by (simp add: endpoint_json_def ascii_def code_def del: json_ok.simps(4-6))
qed

lemma depth_le:
  "json_depth (JArray vs) \<le> Suc n \<longleftrightarrow> list_all (\<lambda>v. json_depth v \<le> n) vs"
  "json_depth (JObject ms) \<le> Suc n \<longleftrightarrow> list_all (\<lambda>(k, v). json_depth v \<le> n) ms"
  by (auto simp: foldr_max_le list_all_iff)

lemma member_depth [simp]:
  "list_all (\<lambda>(k, v). json_depth v \<le> n) (unless_empty k s)"
  "list_all (\<lambda>(k, v). json_depth v \<le> n) (unless_zero k i)"
  "list_all (\<lambda>(k, v). json_depth v \<le> Suc n) (unless_no k ss)"
  by (simp_all add: unless_empty_def unless_zero_def unless_no_def depth_le list.pred_map comp_def list_all_iff
      del: json_depth.simps(1,2))

lemma peer_depth: "json_depth (peer_json p) \<le> 2"
  unfolding numeral_2_eq_2 peer_json_def depth_le by simp

lemma endpoint_depth:
  assumes "plain_endpoint e"
  shows "json_depth (endpoint_json e) \<le> 4"
proof -
  have arrays: "json_depth (JArray (map JString ss)) \<le> Suc 0" "json_depth (JArray (map peer_json ps)) \<le> Suc 2" for ss ps
    unfolding depth_le using peer_depth by (simp_all add: list_all_iff)
  have "json_depth (json_slice JString (seAddress e)) \<le> Suc 0" "json_depth (json_slice peer_json (sePeers e)) \<le> Suc 2"
    using arrays by (cases "seAddress e"; cases "sePeers e"; simp add: json_slice_def del: json_depth.simps(1))+
  moreover have "list_all (\<lambda>(k, v). json_depth v \<le> 0) (raw_members e)"
    using raw_members_depth [OF assms] foldr_max_le [of "map (\<lambda>(k, v). json_depth v) (raw_members e)" 0]
    by (auto simp: list_all_iff)
  then have "list_all (\<lambda>(k, v). json_depth v \<le> 3) (raw_members e)"
    by (auto simp: list_all_iff)
  ultimately have "json_depth (endpoint_json e) \<le> Suc 3"
    unfolding endpoint_json_def depth_le by (simp add: numeral_3_eq_3)
  then show ?thesis by simp
qed

text \<open>What is read.\<close>

lemma strings_read: "into_elements into_string [] (map JString vs) [] = Some vs"
  by (induction vs) (simp_all add: into_string_def)

abbreviation peer_step :: "string \<times> json \<Rightarrow> EndpointPeer option \<Rightarrow> EndpointPeer option" where
  "peer_step \<equiv> (\<lambda>(key, v) r. Option.bind r (\<lambda>x.
      (case field_named peerNames key of None \<Rightarrow> Some x | Some n \<Rightarrow> set_peer_field n v x)))"

lemma peer_fields:
  "peer_step (''address'', JString s) (Some x) = Some (x\<lparr>PeerAddress := s\<rparr>)"
  "peer_step (''public_key'', JString s) (Some x) = Some (x\<lparr>PeerPublicKey := s\<rparr>)"
  "fold peer_step (unless_empty ''pre_shared_key'' s) (Some x) = Some (x\<lparr>PreSharedKey := if s = [] then PreSharedKey x else s\<rparr>)"
  by (simp_all add: field_named_def peerNames_def set_peer_field_def into_string_def unless_empty_def)

lemma peer_numbers:
  assumes "in_int64 i"
  shows "peer_step (''port'', JNumber (Itoa i)) (Some x) = Some (x\<lparr>PeerPort := i\<rparr>)"
    and "fold peer_step (unless_zero ''persistent_keepalive_interval'' i) (Some x) =
      Some (x\<lparr>PersistentKeepaliveInterval := if i = 0 then PersistentKeepaliveInterval x else i\<rparr>)"
  by (simp_all add: field_named_def peerNames_def set_peer_field_def into_int_def unless_zero_def ParseInt64_Itoa [OF assms])

lemma peer_ips:
  "PeerAllowedIPs x = [] \<Longrightarrow>
   fold peer_step (unless_no ''allowed_ips'' vs) (Some x) = Some (x\<lparr>PeerAllowedIPs := vs\<rparr>)"
  by (simp add: field_named_def peerNames_def set_peer_field_def into_list_def unless_no_def strings_read)

lemma peer_read:
  assumes "plain_peer p"
  shows "into_struct peerNames set_peer_field (peer_json p) zero_EndpointPeer = Some (client_peer p)"
proof -
  have i: "in_int64 (spPort p)" "in_int64 (spKeepalive p)" using assms by (simp_all add: plain_peer_def)
  show ?thesis
    unfolding into_struct_def peer_json_def json.case append_Cons append_Nil fold.simps fold_append o_apply
      peer_fields peer_numbers [OF i(1)]
    by (simp add: peer_ips zero_EndpointPeer_def peer_fields(3) peer_numbers(2) [OF i(2)] client_peer_def)
qed

lemma peers_read:
  "list_all plain_peer ps \<Longrightarrow>
   into_elements (into_struct peerNames set_peer_field) zero_EndpointPeer (map peer_json ps) [] = Some (map client_peer ps)"
  by (induction ps) (simp_all add: peer_read)

definition node_step :: "string \<times> json \<Rightarrow> Node option \<Rightarrow> Node option" where
  "node_step kv r = Option.bind r (\<lambda>x.
      (case field_named nodeNames (fst kv) of None \<Rightarrow> Some x | Some n \<Rightarrow> set_node_field n (snd kv) x))"

lemma into_node: "into_struct nodeNames set_node_field (JObject ms) x = fold node_step ms (Some x)"
  by (simp add: into_struct_def node_step_def [abs_def] split_beta')

lemma node_texts:
  "node_step (''type'', JString s) (Some x) = Some (x\<lparr>NodeType := s\<rparr>)"
  "node_step (''private_key'', JString s) (Some x) = Some (x\<lparr>NodePrivateKey := s\<rparr>)"
  "fold node_step (unless_empty ''tag'' s) (Some x) = Some (x\<lparr>NodeTag := if s = [] then NodeTag x else s\<rparr>)"
  by (simp_all add: node_step_def field_named_def nodeNames_def set_node_field_def into_string_def unless_empty_def)

lemma node_number:
  "in_int64 i \<Longrightarrow> fold node_step (unless_zero ''mtu'' i) (Some x) = Some (x\<lparr>NodeMTU := if i = 0 then NodeMTU x else i\<rparr>)"
  by (simp add: node_step_def field_named_def nodeNames_def set_node_field_def into_int_def unless_zero_def
      ParseInt64_Itoa)

lemma node_lists:
  "NodeDNS x = [] \<Longrightarrow> fold node_step (unless_no ''dns'' vs) (Some x) = Some (x\<lparr>NodeDNS := vs\<rparr>)"
  "NodeAddress x = [] \<Longrightarrow>
     node_step (''address'', json_slice JString ss) (Some x) = Some (x\<lparr>NodeAddress := listed ss\<rparr>)"
  by (auto simp: node_step_def field_named_def nodeNames_def set_node_field_def into_list_def unless_no_def strings_read
      json_slice_def listed_def split: option.split)

lemma node_peers:
  "NodePeers x = [] \<Longrightarrow> list_all plain_peer (listed ps) \<Longrightarrow>
     node_step (''peers'', json_slice peer_json ps) (Some x) = Some (x\<lparr>NodePeers := map client_peer (listed ps)\<rparr>)"
  by (auto simp: node_step_def field_named_def nodeNames_def set_node_field_def into_list_def peers_read json_slice_def listed_def
      split: option.splits)

lemma scalar_read:
  assumes "name \<in> set rawNames" and "plain_raw v"
  shows "node_step (name, v) (Some x) = Some (x\<lparr>NodeScalars := fmupd name (scalar_text v) (NodeScalars x)\<rparr>)"
proof -
  have "list_all (\<lambda>n. n \<in> set nodeNames \<and>
      n \<notin> {''type'', ''tag'', ''address'', ''private_key'', ''mtu'', ''dns'', ''peers''}) rawNames"
    by code_simp
  with assms(1) have n: "name \<in> set nodeNames"
    "name \<notin> {''type'', ''tag'', ''address'', ''private_key'', ''mtu'', ''dns'', ''peers''}"
    by (auto simp: list_all_iff)
  have "UnmarshalScalar v old = Some (scalar_text v)" for old
    using assms(2) by (auto simp: plain_raw_def UnmarshalScalar_def scalar_text_def split: json.splits)
  with n show ?thesis by (simp add: node_step_def field_named_def set_node_field_def)
qed

lemma scalars_read:
  assumes "set names \<subseteq> set rawNames" and "\<forall>name v. fmlookup (seRaw e) name = Some v \<longrightarrow> plain_raw v"
  shows "fold node_step (raw_of e names) (Some x) =
    Some (x\<lparr>NodeScalars := fold (\<lambda>name m. case fmlookup (seRaw e) name of None \<Rightarrow> m
      | Some v \<Rightarrow> fmupd name (scalar_text v) m) names (NodeScalars x)\<rparr>)"
  using assms
proof (induction names arbitrary: x)
  case (Cons name names)
  then show ?case
    by (cases "fmlookup (seRaw e) name") (simp_all add: scalar_read)
qed simp

lemma fold_lookup:
  "fmlookup (fold (\<lambda>name m. case fmlookup raw name of None \<Rightarrow> m | Some v \<Rightarrow> fmupd name (f v) m) names m) n =
     (if n \<in> set names \<and> fmlookup raw n \<noteq> None then map_option f (fmlookup raw n) else fmlookup m n)"
  by (induction names arbitrary: m) (auto split: option.split)

lemma all_scalars:
  assumes "fmdom' raw \<subseteq> set names"
  shows "fold (\<lambda>name m. case fmlookup raw name of None \<Rightarrow> m | Some v \<Rightarrow> fmupd name (f v) m) names fmempty = fmmap f raw"
proof (rule fmap_ext)
  show "fmlookup (fold (\<lambda>name m. case fmlookup raw name of None \<Rightarrow> m | Some v \<Rightarrow> fmupd name (f v) m) names fmempty) n =
      fmlookup (fmmap f raw) n" for n
    using assms fmdom'I [of raw n] by (auto simp: fold_lookup)
qed

lemma endpoint_read:
  assumes "plain_endpoint e"
  shows "into_struct nodeNames set_node_field (endpoint_json e) zero_Node = Some (client_node e)"
proof -
  have e: "in_int64 (seMTU e)" "list_all plain_peer (listed (sePeers e))" "fmdom' (seRaw e) \<subseteq> set rawNames"
    "\<forall>name v. fmlookup (seRaw e) name = Some v \<longrightarrow> plain_raw v"
    using assms by (simp_all add: plain_endpoint_def)
  show ?thesis
    unfolding endpoint_json_def into_node raw_members_def append_Cons append_Nil fold.simps fold_append o_apply
    by (simp add: node_lists node_peers [OF _ e(2)] node_texts node_number [OF e(1)] scalars_read [OF subset_refl e(4)]
        zero_Node_def all_scalars [OF e(3)] client_node_def)
qed


section \<open>What the versions cover\<close>

lemma sort_mset: "mset xs = mset ys \<Longrightarrow> sort xs = (sort ys :: string list)"
  by (metis mset_sort properties_for_sort sorted_sort)

text \<open>
  The version of the state says nothing of the order of the nodes, which is the priority the
  client obeys, nor of what is said about them: when only those change, the version a client compares
  stays what it was, though the documents differ.
\<close>

theorem version_misses_order:
  assumes "mset (SubNodes who) = mset (SubNodes who')"
  shows "whole_version sha256 device (c\<lparr>Meta := about\<rparr>) who = whole_version sha256 device c who'"
proof -
  have nodes: "node_named (c\<lparr>Meta := about\<rparr>) = node_named c" by (simp add: node_named_def [abs_def])
  have "mset (state_parts sha256 device c who) = mset (state_parts sha256 device c who')"
    using assms by (simp add: state_parts_def)
  from sort_mset [OF this] show ?thesis
    by (simp add: whole_version_def state_parts_def nodes)
qed

section \<open>A file\<close>

definition sample_token :: string where "sample_token = ''put-a-long-random-token-here''"

definition sample_subscriber :: "string list \<Rightarrow> subscriber" where
  "sample_subscriber names = \<lparr>Expires = 1, QuotaBytes = 0, UsedBytes = 0, SubNodes = names\<rparr>"

definition sample_endpoint :: "string \<Rightarrow> sub_endpoint" where
  "sample_endpoint tag = zero_sub_endpoint
     \<lparr>seTag := tag, seAddress := Some [''10.8.1.23/32''],
      sePeers := Some [zero_sub_peer\<lparr>spAddress := ''203.0.113.10'', spPort := 45330\<rparr>],
      seRaw := fmupd ''jc'' (JString ''6'') fmempty\<rparr>"

definition sample_sub_config :: sub_config where
  "sample_sub_config =
     \<lparr>UpdateIntervalHours = 0, Subscribers = fmupd sample_token (sample_subscriber [''a'', ''b'']) fmempty,
      Nodes = fmupd ''a'' (sample_endpoint ''A'') (fmupd ''b'' (sample_endpoint ''B'') fmempty), Meta = fmempty\<rparr>"

definition sample_request :: http_request where
  "sample_request = \<lparr>Method = ''GET'', Path = ''/sub/'' @ sample_token, Accept = [], Device = []\<rparr>"

lemma sample_subscribers: "fmlookup (Subscribers sample_sub_config) sample_token = Some (sample_subscriber [''a'', ''b''])"
  by (simp add: sample_sub_config_def)

theorem expired_is_unknown_witness:
  "\<forall>sha256. route sha256 2 sample_sub_config sample_request =
     route sha256 2 (sample_sub_config\<lparr>Subscribers := fmempty\<rparr>) sample_request"
proof
  fix sha256
  have "expired 2 (sample_subscriber [''a'', ''b''])"
    by (simp add: expired_def sample_subscriber_def zero_time_def seconds_def)
  moreover have "fmdrop sample_token (Subscribers sample_sub_config) = fmempty"
    by (rule fmap_ext) (simp add: sample_sub_config_def)
  ultimately show "route sha256 2 sample_sub_config sample_request =
     route sha256 2 (sample_sub_config\<lparr>Subscribers := fmempty\<rparr>) sample_request"
    using expired_is_unknown [OF sample_subscribers, of 2 sha256 sample_request] by simp
qed

theorem answers_own_part_witness:
  "\<forall>sha256. route sha256 0 sample_sub_config sample_request =
     route sha256 0 (sample_sub_config\<lparr>Nodes := fmupd ''c'' (sample_endpoint ''C'') (Nodes sample_sub_config)\<rparr>) sample_request"
proof
  fix sha256
  let ?c = "sample_sub_config\<lparr>Nodes := fmupd ''c'' (sample_endpoint ''C'') (Nodes sample_sub_config)\<rparr>"
  have "own_part sample_sub_config (token_of sample_request) = own_part ?c (token_of sample_request)"
    by (simp add: own_part_def node_named_def meta_named_def sample_sub_config_def sample_subscriber_def)
  from answers_own_part [OF this] show "route sha256 0 sample_sub_config sample_request = route sha256 0 ?c sample_request"
    by simp
qed

definition by_token :: "sub_config \<Rightarrow> (string \<times> subscriber) list" where
  "by_token c = map (\<lambda>token. (token, the (fmlookup (Subscribers c) token))) (sorted_list_of_fset (fmdom (Subscribers c)))"

lemma by_token_all: "set (by_token c) = {(token, who). fmlookup (Subscribers c) token = Some who}"
  by (auto simp: by_token_def image_iff fmlookup_dom_iff)

theorem reload_whole_or_not_witness:
  "reload (Some ''{\"subscribers\":{\"too-short\":{}}}'') by_token sample_sub_config = (Inl (ShortToken 9), sample_sub_config)"
proof -
  let ?c = "zero_sub_config\<lparr>Subscribers := fmupd ''too-short'' zero_subscriber fmempty\<rparr>"
  have doc: "json_value (2 * length ''{\"subscribers\":{\"too-short\":{}}}'' + 2) maxNestingDepth ''{\"subscribers\":{\"too-short\":{}}}''
      = Some (JObject [(''subscribers'', JObject [(''too-short'', JObject [])])], [])"
    by code_simp
  have "decode_config ''{\"subscribers\":{\"too-short\":{}}}'' = Some ?c"
    unfolding decode_config_def doc
    by (simp add: into_strict_def field_named_def set_sub_config_def into_map_def zero_sub_config_def)
  moreover have "\<not> sub_config_ok ?c" by (auto simp: sub_config_ok_def)
  moreover have "check_subscribers (Nodes ?c) (by_token ?c) = Inl (ShortToken 9)"
    by (simp add: by_token_def zero_subscriber_def zero_sub_config_def sorted_list_of_fset.rep_eq)
  ultimately show ?thesis
    using reload_whole_or_not [OF by_token_all, of "Some ''{\"subscribers\":{\"too-short\":{}}}''" sample_sub_config] by simp
qed

lemma sample_plain: "plain_endpoint (sample_endpoint ''A'')" "plain_endpoint (sample_endpoint ''B'')"
proof -
  have "plain_raw (JString ''6'')" by (simp add: plain_raw_def ascii_def code_def)
  then have raw: "fmlookup (seRaw (sample_endpoint tag)) name = Some v \<Longrightarrow> plain_raw v"
    "fmdom' (seRaw (sample_endpoint tag)) \<subseteq> set rawNames" for tag name v
    by (auto simp: sample_endpoint_def rawNames_def zero_sub_endpoint_def split: if_splits)
  have texts: "list_all (list_all ascii) [''A'', ''B'', ''10.8.1.23/32'', ''203.0.113.10'']" by code_simp
  have "in_int64 45330 \<and> in_int64 0" by code_simp
  with raw texts show "plain_endpoint (sample_endpoint ''A'')" "plain_endpoint (sample_endpoint ''B'')"
    by (simp_all only: plain_endpoint_def) (simp_all add: sample_endpoint_def zero_sub_endpoint_def listed_def
      plain_peer_def zero_sub_peer_def)
qed


theorem version_misses_order_witness:
  "(\<forall>sha256 device. whole_version sha256 device sample_sub_config (sample_subscriber [''a'', ''b'']) =
      whole_version sha256 device sample_sub_config (sample_subscriber [''b'', ''a''])) \<and>
   plainAnswer sample_sub_config (sample_subscriber [''a'', ''b'']) \<noteq>
      plainAnswer sample_sub_config (sample_subscriber [''b'', ''a''])"
proof
  have "mset (SubNodes (sample_subscriber [''a'', ''b''])) = mset (SubNodes (sample_subscriber [''b'', ''a'']))"
    by (simp add: sample_subscriber_def)
  from version_misses_order [OF this, of _ _ fmempty sample_sub_config]
  show "\<forall>sha256 device. whole_version sha256 device sample_sub_config (sample_subscriber [''a'', ''b'']) =
      whole_version sha256 device sample_sub_config (sample_subscriber [''b'', ''a''])"
    by (simp add: sample_sub_config_def)
  show "plainAnswer sample_sub_config (sample_subscriber [''a'', ''b'']) \<noteq>
      plainAnswer sample_sub_config (sample_subscriber [''b'', ''a''])"
    by (simp add: plainAnswer_def sample_subscriber_def appended_def endpoint_json_def served_node_def node_named_def
        sample_sub_config_def sample_endpoint_def zero_sub_endpoint_def unless_empty_def)
qed

end
