(* ===== verification/Tools.thy ===== *)
theory Tools
  imports Systunnel_Properties Probe
begin

text \<open>
  The command line tools, \<^verbatim>\<open>core/cmd/caelo-tun\<close> and \<^verbatim>\<open>core/cmd/caelo-probe\<close>, and
  \<^verbatim>\<open>core/internal/version\<close>.  What they print, the signals they ask for and the waiting are calls
  of the environment; the flags, the user and the version of the build are arguments, and so is the
  text of an error.
\<close>

section \<open>The version\<close>

text \<open>The build information, where there is any, as its dependencies: path and version.\<close>

definition AmneziaWG :: "(string \<times> string) list option \<Rightarrow> string" where
  "AmneziaWG info =
     (case info of
        None \<Rightarrow> ''unknown''
      | Some deps \<Rightarrow>
          (case List.find (\<lambda>(path, _). path = ''github.com/amnezia-vpn/amneziawg-go/v3'') deps of
             None \<Rightarrow> ''unknown''
           | Some (_, v) \<Rightarrow> v))"

section \<open>Durations as text\<close>

text \<open>\<^verbatim>\<open>Duration.String\<close>: the fraction without its last zeros, and the largest units that fit.\<close>

fun pad_left :: "nat \<Rightarrow> string \<Rightarrow> string" where
  "pad_left n s = replicate (n - length s) CHR ''0'' @ s"

definition fraction :: "nat \<Rightarrow> nat \<Rightarrow> string" where
  "fraction v prec =
     (let ds = rev (dropWhile (\<lambda>c. c = CHR ''0'') (rev (pad_left prec (nat_digits (v mod 10 ^ prec)))))
      in if ds = [] then [] else CHR ''.'' # ds)"

definition with_fraction :: "nat \<Rightarrow> nat \<Rightarrow> string" where
  "with_fraction v prec = nat_digits (v div 10 ^ prec) @ fraction v prec"

definition micro :: string where "micro = [CHR 0xC2, CHR 0xB5]"

definition Duration_String :: "duration \<Rightarrow> string" where
  "Duration_String d =
     (let u = nat \<bar>d\<bar>; s = u div 10 ^ 9 in
      (if d < 0 then ''-'' else []) @
      (if u = 0 then ''0s''
       else if u < 10 ^ 3 then nat_digits u @ ''ns''
       else if u < 10 ^ 6 then with_fraction u 3 @ micro @ ''s''
       else if u < 10 ^ 9 then with_fraction u 6 @ ''ms''
       else (if s < 60 then []
             else (if s < 3600 then [] else nat_digits (s div 3600) @ ''h'') @ nat_digits (s div 60 mod 60) @ ''m'')
            @ nat_digits (s mod 60) @ fraction u 9 @ ''s''))"

text \<open>\<^verbatim>\<open>Duration.Round\<close> for a positive unit, where it cannot leave the range: halves away from
  zero.\<close>

definition Duration_Round :: "duration \<Rightarrow> duration \<Rightarrow> duration" where
  "Duration_Round d unit =
     (let r = \<bar>d\<bar> mod unit in sgn d * (if r + r < unit then \<bar>d\<bar> - r else \<bar>d\<bar> + (unit - r)))"

section \<open>caelo-tun\<close>

text \<open>The bytes of two characters of the messages.\<close>

definition em_dash :: string where "em_dash = [CHR 0xE2, CHR 0x80, CHR 0x94]"

definition arrow :: string where "arrow = [CHR 0xE2, CHR 0x86, CHR 0x92]"

definition print :: "environment \<Rightarrow> string \<Rightarrow> unit io" where
  "print env line = do { _ \<leftarrow> ask env (Os ''stdout'' [line]); ret () }"

definition complain :: "environment \<Rightarrow> string \<Rightarrow> unit io" where
  "complain env line = do { _ \<leftarrow> ask env (Os ''stderr'' [line]); ret () }"

text \<open>From \<^verbatim>\<open>signal.Notify\<close> on the two signals go into a channel; before it they end the
  process.\<close>

definition Notify :: call where
  "Notify = Os ''signal.Notify'' [''interrupt'', ''terminated'']"

definition waitForStop :: "environment \<Rightarrow> duration \<Rightarrow> unit io" where
  "waitForStop env d = do {
     _ \<leftarrow> ask env Notify;
     (if d \<le> 0 then do { _ \<leftarrow> ask env (Os ''receive'' [''stop'']); ret () }
      else do {
        _ \<leftarrow> print env (''will stop on its own in '' @ Duration_String d);
        _ \<leftarrow> ask env (Os ''select'' [''stop'', Itoa d]);
        ret ()
      })
   }"

text \<open>The deferred stop.\<close>

definition restoring :: "environment \<Rightarrow> (failure \<Rightarrow> string) \<Rightarrow> Controller \<Rightarrow> unit io" where
  "restoring env message c = do {
     _ \<leftarrow> print env (newline # ''restoring the machine's routing'');
     (r, c') \<leftarrow> Stop env c;
     (case r of
        Inl e \<Rightarrow> complain env (''caelo-tun: '' @ message e)
      | Inr _ \<Rightarrow> print env ''restored'')
   }"

datatype tool_error =
    NotRead failure
  | NotUnderstood string awg_error
  | TunnelFailed tunnel_error

definition announce :: "environment \<Rightarrow> string \<Rightarrow> string \<Rightarrow> Status \<Rightarrow> unit io" where
  "announce env core amnezia st = do {
     _ \<leftarrow> print env (''core        '' @ core @ '' (amneziawg-go '' @ amnezia @ '')'');
     _ \<leftarrow> print env (''interface   '' @ StInterface st);
     _ \<leftarrow> print env (''endpoint    '' @ StEndpoint st);
     _ \<leftarrow> print env (''protocol    '' @ StProtocol st);
     print env (newline # ''the whole machine is going through the tunnel '' @ em_dash @ '' press Ctrl-C to stop'')
   }"

definition tun_run ::
  "environment \<Rightarrow> nat \<Rightarrow> (failure \<Rightarrow> string) \<Rightarrow> string \<Rightarrow> string \<Rightarrow> string \<Rightarrow> duration \<Rightarrow> (tool_error + unit) io" where
  "tun_run env fuel message core amnezia configPath d = do {
     raw \<leftarrow> attempt env (ReadFile configPath);
     (case raw of
        Inl e \<Rightarrow> ret (Inl (NotRead e))
      | Inr cf \<Rightarrow> do {
          (r, c) \<leftarrow> Start env fuel cf NewController;
          out \<leftarrow> (case r of
              Inl e \<Rightarrow> ret (Inl (TunnelFailed e))
            | Inr st \<Rightarrow> do {
                _ \<leftarrow> announce env core amnezia st;
                _ \<leftarrow> waitForStop env d;
                ret (Inr ())
              });
          _ \<leftarrow> restoring env message c;
          ret out
        })
   }"

text \<open>The exit code.\<close>

definition tun_main ::
  "environment \<Rightarrow> nat \<Rightarrow> (failure \<Rightarrow> string) \<Rightarrow> (tool_error \<Rightarrow> string) \<Rightarrow> string \<Rightarrow> string \<Rightarrow> string \<Rightarrow> duration \<Rightarrow> int io" where
  "tun_main env fuel message what core amnezia configPath d =
     (if configPath = [] then do {
        _ \<leftarrow> complain env ''caelo-tun: -config is required'';
        _ \<leftarrow> complain env ''usage'';
        ret 2
      }
      else do {
        euid \<leftarrow> ask env (Os ''Geteuid'' []);
        (if euid \<noteq> Handle 0 then do {
           _ \<leftarrow> complain env (''caelo-tun: must run as root '' @ em_dash @ '' creating a utun interface and changing routes needs it'');
           ret 1
         }
         else do {
           r \<leftarrow> tun_run env fuel message core amnezia configPath d;
           (case r of
              Inl e \<Rightarrow> do { _ \<leftarrow> complain env (''caelo-tun: '' @ what e); ret 1 }
            | Inr _ \<Rightarrow> ret 0)
         })
      })"

section \<open>caelo-probe\<close>

definition shown_in :: "(string, string) fmap \<Rightarrow> string list \<Rightarrow> string" where
  "shown_in obf keys =
     concat (List.map_filter (\<lambda>k. map_option (\<lambda>v. k @ ''='' @ v @ '' '') (fmlookup obf k)) keys)"

definition describe_lines :: "Config \<Rightarrow> string list" where
  "describe_lines cfg =
     [''endpoint    '' @ Endpoint (peer cfg),
      ''address     ['' @ Join (map Addr_String (Addresses cfg)) '' '' @ '']'',
      ''mtu         '' @ Itoa (MTU cfg)] @
     (if Obfuscation cfg = fmempty then [''obfuscation none '' @ em_dash @ '' plain WireGuard'']
      else
        [''obfuscation '' @ shown_in (Obfuscation cfg) [''jc'', ''jmin'', ''jmax'', ''s1'', ''s2'', ''s3'', ''s4'']] @
        (let header = shown_in (Obfuscation cfg) [''h1'', ''h2'', ''h3'', ''h4''] in
         if header = [] then [] else [''header      '' @ header]) @
        List.map_filter (\<lambda>k. map_option
            (\<lambda>v. ''signature   '' @ k @ '' ('' @ Itoa (int (length v)) @ '' bytes of chain)'') (fmlookup (Obfuscation cfg) k))
          [''i1'', ''i2'', ''i3'', ''i4'', ''i5''])"

definition print_all :: "environment \<Rightarrow> string list \<Rightarrow> unit io" where
  "print_all env ls = foldIO (\<lambda>l _. print env l) ls ()"

definition probe_tool ::
  "environment \<Rightarrow> Traffic \<Rightarrow> string \<Rightarrow> string \<Rightarrow> string \<Rightarrow> string \<Rightarrow> duration \<Rightarrow> bool \<Rightarrow> bool \<Rightarrow> Log \<Rightarrow>
   ((tool_error + unit) \<times> Log) io" where
  "probe_tool env traffic core amnezia configPath target timeout verbosely check l = do {
     raw \<leftarrow> attempt env (ReadFile configPath);
     (case raw of
        Inl e \<Rightarrow> ret (Inl (NotRead e), l)
      | Inr cf \<Rightarrow>
          (case Awg_Endpoint.Parse cf of
             Inl e \<Rightarrow> ret (Inl (NotUnderstood configPath e), l)
           | Inr cfg \<Rightarrow> do {
               _ \<leftarrow> print_all env (describe_lines cfg);
               (if check then ret (Inr (), l)
                else do {
                  (r, l') \<leftarrow> Run env traffic cf
                    \<lparr>OptURL = target, OptTimeout = timeout, OptVerbose = verbosely,
                     OptMeasureLatency = False, OptLatencyTarget = []\<rparr> l;
                  (case r of
                     Inl e \<Rightarrow> ret (Inl (TunnelFailed e), l')
                   | Inr res \<Rightarrow> do {
                       _ \<leftarrow> print_all env
                         [newline # ''core        '' @ core @ '' (amneziawg-go '' @ amnezia @ '')'',
                          target @ '' '' @ arrow @ '' '' @ ResStatus res @ '' in ''
                            @ Duration_String (Duration_Round (ResElapsed res) milliseconds),
                          ResBody res];
                       ret (Inr (), l')
                     })
                })
             }))
   }"

text \<open>The exit code, and the log of the process.\<close>

definition probe_main ::
  "environment \<Rightarrow> Traffic \<Rightarrow> (tool_error \<Rightarrow> string) \<Rightarrow> string \<Rightarrow> string \<Rightarrow> string \<Rightarrow> string \<Rightarrow> duration \<Rightarrow> bool \<Rightarrow> bool \<Rightarrow> Log \<Rightarrow>
   (int \<times> Log) io" where
  "probe_main env traffic what core amnezia configPath target timeout verbosely check l =
     (if configPath = [] then do {
        _ \<leftarrow> complain env ''caelo-probe: -config is required'';
        _ \<leftarrow> complain env ''usage'';
        ret (2, l)
      }
      else do {
        (r, l') \<leftarrow> probe_tool env traffic core amnezia configPath target timeout verbosely check l;
        (case r of
           Inl e \<Rightarrow> do { _ \<leftarrow> complain env (''caelo-probe: '' @ what e); ret (1, l') }
         | Inr _ \<Rightarrow> ret (0, l'))
      })"

end
