(* ===== verification/Tools_Properties.thy ===== *)
theory Tools_Properties
  imports Tools
begin

text \<open>
  The properties of the command line tools: the machine when \<^verbatim>\<open>caelo-tun\<close> is done, and when a signal
  ends it before it has asked for signals; what \<^verbatim>\<open>caelo-probe -check\<close> does not say.
\<close>

section \<open>caelo-tun gives the machine back\<close>

definition steady :: "machine \<Rightarrow> Controller \<Rightarrow> trace \<Rightarrow> bool" where
  "steady m0 c t \<longleftrightarrow> up m0 c t \<or> down m0 c t"

text \<open>What the tool says and waits for adds calls of the system that are no command.\<close>

definition said :: "trace \<Rightarrow> bool" where
  "said s \<longleftrightarrow> (\<forall>e \<in> set s. \<exists>f xs. fst e = Os f xs)"

lemma said_simps [simp]:
  "said []" "said ((Os f xs, a) # s) \<longleftrightarrow> said s" "said (s @ s') \<longleftrightarrow> said s \<and> said s'"
  by (auto simp: said_def)

lemma said_quiet:
  assumes "said s"
  shows "up m0 c t \<Longrightarrow> up m0 c (t @ s)" "down m0 c t \<Longrightarrow> down m0 c (t @ s)"
proof -
  have "(up m0 c t \<longrightarrow> up m0 c (t @ s)) \<and> (down m0 c t \<longrightarrow> down m0 c (t @ s))"
    using assms
  proof (induction s rule: rev_induct)
    case (snoc e s)
    then obtain f xs a where e: "e = (Os f xs, a)" by (cases e) (auto simp: said_def)
    have "up m0 c ((t @ s) @ [e])" if "up m0 c (t @ s)" unfolding e by (rule up_quiet [OF that]) simp_all
    moreover have "down m0 c ((t @ s) @ [e])" if "down m0 c (t @ s)" unfolding e by (rule down_quiet [OF that]) simp_all
    ultimately show ?case using snoc by simp
  qed simp
  then show "up m0 c t \<Longrightarrow> up m0 c (t @ s)" "down m0 c t \<Longrightarrow> down m0 c (t @ s)" by simp_all
qed

lemma down_nothing: "down m0 NewController []"
  by (simp add: down_def NewController_def calm_def)

lemma said_calm: "said s \<Longrightarrow> machine_after m0 s = m0 \<and> opened s = nothing_open"
  using said_quiet(2) [OF _ down_nothing, of s m0] by (simp add: down_def calm_def)

lemma print_run [simp]: "run_state (print env l) t = ((), t @ [(Os ''stdout'' [l], env t (Os ''stdout'' [l]))])"
  by (simp add: print_def)

lemma complain_run [simp]: "run_state (complain env l) t = ((), t @ [(Os ''stderr'' [l], env t (Os ''stderr'' [l]))])"
  by (simp add: complain_def)

lemma announce_said: "\<exists>s. run_state (announce env core amnezia st) t = ((), t @ s) \<and> said s"
  by (simp add: announce_def)

lemma waitForStop_said:
  "\<exists>a s. run_state (waitForStop env d) t = ((), t @ (Notify, a) # s) \<and> said ((Notify, a) # s)"
  by (simp add: waitForStop_def Notify_def)

lemma restoring_down:
  assumes "cooperative m0 env" and "steady m0 c t"
  shows "\<exists>c' s t'. run_state (restoring env message c) t = ((), t') \<and> down m0 c' t' \<and> t' = t @ s"
proof -
  let ?l = "newline # ''restoring the machine's routing''"
  let ?t1 = "t @ [(Os ''stdout'' [?l], env t (Os ''stdout'' [?l]))]"
  have t1: "steady m0 c ?t1"
    using assms(2) said_quiet [of "[(Os ''stdout'' [?l], env t (Os ''stdout'' [?l]))]"] by (auto simp: steady_def)
  obtain r c' t2 where stop: "run_state (Stop env c) ?t1 = ((r, c'), t2)" by (metis prod.exhaust)
  have d: "down m0 c' t2"
    using tripleD [OF stopLocked_down [OF assms(1)], of c ?t1] t1 stop by (fastforce simp: Stop_def steady_def)
  have "extends t t2"
    using keepsD [OF stopLocked_extends, of t ?t1 env c] stop by (simp add: Stop_def)
  then obtain s where s: "t2 = t @ s" by (auto simp: extends_def)
  have "\<exists>e. run_state (restoring env message c) t = ((), t2 @ [e]) \<and> said [e]"
    using stop by (cases r) (auto simp: restoring_def)
  with said_quiet(2) [OF _ d] s show ?thesis by fastforce
qed

lemma tun_run_post:
  assumes "cooperative m0 env" and "down m0 NewController t"
    and "run_state (tun_run env fuel message core amnezia configPath d) t = (r, t')"
  shows "machine_after m0 t' = m0 \<and> opened t' = nothing_open \<and>
    (r = Inr () \<longrightarrow> (\<exists>t1 a s c. t' = t1 @ (Notify, a) # s \<and> up m0 c t1))"
proof -
  obtain raw where raw: "run_state (attempt env (ReadFile configPath)) t =
      (raw, t @ [(ReadFile configPath, env t (ReadFile configPath))])" by simp
  let ?t1 = "t @ [(ReadFile configPath, env t (ReadFile configPath))]"
  have t1: "down m0 NewController ?t1" by (rule down_quiet [OF assms(2)]) simp_all
  show ?thesis
  proof (cases raw)
    case (Inl e)
    with assms(3) raw t1 show ?thesis
      by (auto simp: tun_run_def down_def calm_def simp del: run_attempt)
  next
    case (Inr cf)
    obtain r1 c t2 where start: "run_state (Start env fuel cf NewController) ?t1 = ((r1, c), t2)"
      by (metis prod.exhaust)
    note post = Start_post [OF assms(1) disjI2 [OF t1] start]
    show ?thesis
    proof (cases r1)
      case (Inl e)
      then have "steady m0 c t2" using post by (simp add: steady_def)
      from restoring_down [OF assms(1) this, of message] obtain c' t3 where
        "run_state (restoring env message c) t2 = ((), t3)" "down m0 c' t3" by blast
      with assms(3) raw Inr start Inl show ?thesis
        by (auto simp: tun_run_def down_def calm_def simp del: run_attempt)
    next
      case (Inr st)
      then have "up m0 c t2" using post started_up [of m0 ?t1 cf c t2] by simp
      moreover obtain s1 where s1: "run_state (announce env core amnezia st) t2 = ((), t2 @ s1)" "said s1"
        using announce_said by blast
      ultimately have up: "up m0 c (t2 @ s1)" using said_quiet(1) by blast
      obtain a s2 where s2: "run_state (waitForStop env d) (t2 @ s1) = ((), (t2 @ s1) @ (Notify, a) # s2)"
          "said ((Notify, a) # s2)"
        using waitForStop_said by blast
      have "steady m0 c ((t2 @ s1) @ (Notify, a) # s2)"
        unfolding steady_def by (rule disjI1, rule said_quiet(1) [OF s2(2) up])
      from restoring_down [OF assms(1) this, of message] obtain c' s3 t3 where
        s3: "run_state (restoring env message c) ((t2 @ s1) @ (Notify, a) # s2) = ((), t3)" "down m0 c' t3"
          "t3 = ((t2 @ s1) @ (Notify, a) # s2) @ s3" by blast
      have "run_state (tun_run env fuel message core amnezia configPath d) t = (Inr (), t3)"
        using raw \<open>raw = Inr cf\<close> start Inr s1 s2 s3(1) by (simp add: tun_run_def del: run_attempt)
      then have t': "r = Inr ()" "t' = t3" using assms(3) by simp_all
      have "t3 = (t2 @ s1) @ (Notify, a) # (s2 @ s3)" using s3(3) by simp
      with up have "\<exists>t1 a s c. t3 = t1 @ (Notify, a) # s \<and> up m0 c t1" by blast
      with s3(2) show ?thesis unfolding t' by (simp add: down_def calm_def)
    qed
  qed
qed

text \<open>
  C10: When \<^verbatim>\<open>caelo-tun\<close> is done, whatever its flags and its user and whatever failed on the way,
  the machine is exactly what it was and nothing is open; its exit code is 0 only if the tunnel was
  complete, with everything routed through it, at the moment it began to wait.
\<close>

theorem tun_main_restores:
  assumes "cooperative m0 env"
    and "run_state (tun_main env fuel message what core amnezia configPath d) [] = (ec, t)"
  shows "machine_after m0 t = m0 \<and> opened t = (False, False) \<and>
    (ec = 0 \<longrightarrow> (\<exists>t1 a s c. t = t1 @ (Notify, a) # s \<and> up m0 c t1))"
proof (cases "configPath = []")
  case True
  with assms(2) have "said t" "ec = 2" by (auto simp: tun_main_def)
  with said_calm show ?thesis by simp
next
  case False
  let ?t0 = "[(Os ''Geteuid'' [], env [] (Os ''Geteuid'' []))]"
  show ?thesis
  proof (cases "env [] (Os ''Geteuid'' []) = Handle 0")
    case False
    with assms(2) \<open>configPath \<noteq> []\<close> have "said t" "ec = 1" by (auto simp: tun_main_def)
    with said_calm show ?thesis by simp
  next
    case True
    from said_quiet(2) [OF _ down_nothing, of ?t0] have d0: "down m0 NewController ?t0" by simp
    obtain r t' where run: "run_state (tun_run env fuel message core amnezia configPath d) ?t0 = (r, t')" by fastforce
    note post = tun_run_post [OF assms(1) d0 run]
    show ?thesis
      using assms(2) False True run post by (cases r) (auto simp: tun_main_def)
  qed
qed

section \<open>Interrupted too early\<close>

text \<open>
  How the process may end: by itself, or by a signal at any point before it has asked for signals,
  after any of its calls.
\<close>

inductive tun_ends ::
  "environment \<Rightarrow> nat \<Rightarrow> (failure \<Rightarrow> string) \<Rightarrow> (tool_error \<Rightarrow> string) \<Rightarrow> string \<Rightarrow> string \<Rightarrow> string \<Rightarrow> duration \<Rightarrow> trace \<Rightarrow> bool"
  for env fuel message what core amnezia configPath d where
  by_itself: "run_state (tun_main env fuel message what core amnezia configPath d) [] = (ec, t) \<Longrightarrow>
    tun_ends env fuel message what core amnezia configPath d t"
| interrupted: "run_state (tun_main env fuel message what core amnezia configPath d) [] = (ec, t @ u) \<Longrightarrow>
    Notify \<notin> fst ` set t \<Longrightarrow> tun_ends env fuel message what core amnezia configPath d t"

text \<open>A machine that cooperates, with a configuration in a file, for root.\<close>

definition tool_environment :: environment where
  "tool_environment t c =
     (if c = Os ''Geteuid'' [] then Handle 0
      else if c = ReadFile ''t.conf'' then Done sample_text
      else served_environment t c)"

lemma tool_cooperative: "cooperative sample_machine tool_environment"
proof -
  have path: "resolvConf \<noteq> ''t.conf''" by code_simp
  have same: "tool_environment t (Exec p xs) = served_environment t (Exec p xs)"
    "tool_environment t (RemoveFile f) = served_environment t (RemoveFile f)"
    "tool_environment t (WriteFile f x) = served_environment t (WriteFile f x)"
    "tool_environment t (Symlink l f) = served_environment t (Symlink l f)"
    "tool_environment t (Readlink f) = served_environment t (Readlink f)"
    "tool_environment t (ReadFile resolvConf) = served_environment t (ReadFile resolvConf)" for t p xs f x l
    using path by (simp_all add: tool_environment_def)
  show ?thesis
    using served_cooperative unfolding cooperative_def honest_def obliging_def Let_def same .
qed

definition tool_trace :: trace where
  "tool_trace = snd (run_state (do {
     _ \<leftarrow> ask tool_environment (Os ''Geteuid'' []);
     attempt tool_environment (ReadFile ''t.conf'')
   }) [])"

lemma tool_starts:
  "\<not> isl (fst (run_state (startFresh tool_environment 52 sample_text) tool_trace))"
  unfolding sample_fresh tool_trace_def by code_simp

lemma tool_start:
  obtains st c t where
    "run_state (Start tool_environment 52 sample_text NewController) tool_trace = ((Inr st, c), t)"
    "up sample_machine c t"
proof -
  obtain r c t where run: "run_state (Start tool_environment 52 sample_text NewController) tool_trace = ((r, c), t)"
    by (metis prod.exhaust)
  obtain st where r: "r = Inr st"
    using run tool_starts by (auto simp: Start_def NewController_def split: prod.splits sum.splits)
  let ?e = "(Os ''Geteuid'' [], Handle 0)"
  have "tool_trace = [?e] @ [(ReadFile ''t.conf'', Done sample_text)]"
    by (simp add: tool_trace_def tool_environment_def)
  moreover have "down sample_machine NewController [?e]"
    using said_quiet(2) [OF _ down_nothing, of "[?e]"] by simp
  moreover have "down sample_machine NewController ([?e] @ [(ReadFile ''t.conf'', Done sample_text)])"
    by (rule down_quiet [OF calculation(2)]) simp_all
  ultimately have "down sample_machine NewController tool_trace" by simp
  from Start_post [OF tool_cooperative disjI2 [OF this] run] have "up sample_machine c t"
    using started_up [of sample_machine tool_trace sample_text c t] by (simp add: r)
  with run r that show thesis by blast
qed

lemma tun_traces:
  assumes "run_state (attempt env (ReadFile configPath)) [(Os ''Geteuid'' [], Handle 0)] = (Inr cf, t0)"
    and "env [] (Os ''Geteuid'' []) = Handle 0" and "configPath \<noteq> []"
    and "run_state (Start env fuel cf NewController) t0 = ((Inr st, c), t)"
  shows "\<exists>ec u. run_state (tun_main env fuel message what core amnezia configPath d) [] = (ec, t @ u)"
proof -
  obtain s1 where s1: "run_state (announce env core amnezia st) t = ((), t @ s1)" "said s1"
    using announce_said by blast
  obtain a s2 where s2: "run_state (waitForStop env d) (t @ s1) = ((), (t @ s1) @ (Notify, a) # s2)"
    using waitForStop_said by blast
  obtain s3 t3 where s3: "run_state (restoring env message c) ((t @ s1) @ (Notify, a) # s2) = ((), t3)"
    by (metis old.unit.exhaust prod.exhaust)
  have "keeps (extends t) (restoring env message c)"
    unfolding restoring_def print_def complain_def Stop_def
    by (auto intro!: keeps_bind keeps_ask keeps_ret stopLocked_extends split: sum.split)
  then have "extends t t3"
    using keepsD [of "extends t" _ "(t @ s1) @ (Notify, a) # s2"] s3 by (fastforce simp: extends_def)
  moreover have "run_state (tun_main env fuel message what core amnezia configPath d) [] = (0, t3)"
    using assms s1 s2 s3 by (simp add: tun_main_def tun_run_def del: run_attempt)
  ultimately show ?thesis by (auto simp: extends_def)
qed

text \<open>None of the calls of \<^verbatim>\<open>Start\<close> is the one for signals.\<close>

lemma tool_unnotified:
  assumes "run_state (Start tool_environment 52 sample_text NewController) tool_trace = ((Inr st, c), t)"
  shows "Notify \<notin> fst ` set t"
proof -
  have "list_all (\<lambda>e. fst e \<noteq> Notify) (snd (run_state (startFresh tool_environment 52 sample_text) tool_trace))"
    unfolding sample_fresh tool_trace_def by code_simp
  moreover have "t = snd (run_state (startFresh tool_environment 52 sample_text) tool_trace)"
    using assms by (auto simp: Start_def NewController_def split: prod.splits sum.splits)
  ultimately show ?thesis by (auto simp: list_all_iff)
qed

text \<open>
  C36: A signal that comes before the tunnel is announced is not put back.  The tool is said to
  restore the machine on Ctrl-C, but it asks for signals only after \<^verbatim>\<open>Start\<close>, which may wait ten
  seconds for the server: on a machine that answers every command, interrupted when \<^verbatim>\<open>Start\<close> has
  done its work, the process is gone with everything routed through its tunnel and a route to the
  server left that does not go away with the interface.
\<close>

theorem tun_interrupted:
  "\<exists>t (c :: Controller) st h. tun_ends tool_environment 52 message what core amnezia ''t.conf'' d t \<and>
     opened t = (True, True) \<and> saved c = Some st \<and>
     our_routes st (network c) \<subseteq> routes (machine_after sample_machine t) \<and>
     (h @ ''/32'', DefaultInterface st) \<in> routes (machine_after sample_machine t) - routes sample_machine"
proof -
  obtain st c t where run: "run_state (Start tool_environment 52 sample_text NewController) tool_trace = ((Inr st, c), t)"
      and up: "up sample_machine c t" by (rule tool_start)
  have "run_state (attempt tool_environment (ReadFile ''t.conf'')) [(Os ''Geteuid'' [], Handle 0)] =
      (Inr sample_text, tool_trace)"
    by (simp add: tool_trace_def tool_environment_def)
  then obtain ec u where whole:
    "run_state (tun_main tool_environment 52 message what core amnezia ''t.conf'' d) [] = (ec, t @ u)"
    using tun_traces [OF _ _ _ run, of "''t.conf''" message what core amnezia d] by (auto simp: tool_environment_def)
  have ends: "tun_ends tool_environment 52 message what core amnezia ''t.conf'' d t"
    by (rule interrupted [OF whole tool_unnotified [OF run]])
  obtain sn where sn: "saved c = Some sn" "opened t = all_open"
      "our_routes sn (network c) \<subseteq> routes (machine_after sample_machine t)"
    using up by (auto simp: up_def held_def complete_def)
  then have "(EndpointHost (network c) @ ''/32'', DefaultInterface sn) \<in>
      routes (machine_after sample_machine t) - routes sample_machine"
    using sample_pristine by (auto simp: our_routes_def pristine_def)
  with ends sn show ?thesis
    by (intro exI [of _ t] exI [of _ c] exI [of _ sn] exI [of _ "EndpointHost (network c)"] conjI)
qed

theorem tun_main_restores_witness:
  "\<exists>ec t. run_state (tun_main tool_environment 52 (\<lambda>_. ''e'') (\<lambda>_. ''e'') ''dev'' ''v3'' ''t.conf'' 0) [] = (ec, t) \<and>
     machine_after sample_machine t = sample_machine \<and> opened t = (False, False)"
proof -
  obtain ec t where run:
    "run_state (tun_main tool_environment 52 (\<lambda>_. ''e'') (\<lambda>_. ''e'') ''dev'' ''v3'' ''t.conf'' 0) [] = (ec, t)"
    by fastforce
  show ?thesis using tun_main_restores [OF tool_cooperative run] run by blast
qed

section \<open>What a description leaves out\<close>

text \<open>Every parameter of the configuration has a name in the description.\<close>

definition described_keys :: "string list" where
  "described_keys =
     [''jc'', ''jmin'', ''jmax'', ''s1'', ''s2'', ''s3'', ''s4'', ''h1'', ''h2'', ''h3'', ''h4'',
      ''i1'', ''i2'', ''i3'', ''i4'', ''i5'']"

lemma map_filter_same:
  "(\<And>k. k \<in> set ks \<Longrightarrow> f k = g k) \<Longrightarrow> List.map_filter f ks = List.map_filter g ks"
  by (induction ks) (simp_all add: List.map_filter_simps split: option.split)

lemma shown_in_same:
  "(\<And>k. k \<in> set ks \<Longrightarrow> fmlookup o1 k = fmlookup o2 k) \<Longrightarrow> shown_in o1 ks = shown_in o2 ks"
  unfolding shown_in_def by (rule arg_cong [where f = concat], rule map_filter_same) simp

lemma describe_ignores:
  assumes "k \<notin> set described_keys" and "Obfuscation cfg \<noteq> fmempty"
  shows "describe_lines (cfg\<lparr>Obfuscation := fmupd k v (Obfuscation cfg)\<rparr>) = describe_lines cfg"
proof -
  let ?o = "fmupd k v (Obfuscation cfg)"
  have ne: "?o \<noteq> fmempty" by (metis fmdom'_empty fmdom'_fmupd insert_not_empty)
  have same: "fmlookup ?o k' = fmlookup (Obfuscation cfg) k'" if "k' \<in> set described_keys" for k'
    using assms(1) that by auto
  have shown: "shown_in ?o ks = shown_in (Obfuscation cfg) ks" if "set ks \<subseteq> set described_keys" for ks
    using that same by (intro shown_in_same) blast
  have sig: "List.map_filter (\<lambda>k. map_option (f k) (fmlookup ?o k)) ks =
      List.map_filter (\<lambda>k. map_option (f k) (fmlookup (Obfuscation cfg) k)) ks"
    if "set ks \<subseteq> set described_keys" for ks and f :: "string \<Rightarrow> string \<Rightarrow> string"
    using that by (intro map_filter_same) (auto simp: same simp del: fmupd_lookup)
  have sel: "Obfuscation (cfg\<lparr>Obfuscation := ?o\<rparr>) = ?o" "peer (cfg\<lparr>Obfuscation := ?o\<rparr>) = peer cfg"
    "Addresses (cfg\<lparr>Obfuscation := ?o\<rparr>) = Addresses cfg" "MTU (cfg\<lparr>Obfuscation := ?o\<rparr>) = MTU cfg"
    by simp_all
  have subs: "set [''jc'', ''jmin'', ''jmax'', ''s1'', ''s2'', ''s3'', ''s4''] \<subseteq> set described_keys"
    "set [''h1'', ''h2'', ''h3'', ''h4''] \<subseteq> set described_keys"
    "set [''i1'', ''i2'', ''i3'', ''i4'', ''i5''] \<subseteq> set described_keys"
    by (simp_all add: described_keys_def)
  show ?thesis
    using assms(2) ne shown [OF subs(1)] shown [OF subs(2)] sig [OF subs(3)]
    unfolding describe_lines_def sel by (simp only: if_False)
qed

end
