(* ===== verification/Libcaelo.thy ===== *)
theory Libcaelo
  imports Tunnel Fdtun Release Go_Json_Nested "HOL-Library.List_Lexorder" "HOL-Library.Char_ord"
begin

text \<open>
  \<^verbatim>\<open>core/libcaelo\<close>: the library the applications load.  It keeps one tunnel of each kind and the
  log, and every call answers with one JSON object in a C string.  The text of an error, what the
  device carries while a probe runs and the rounds of a wait are arguments, as below.
\<close>

section \<open>Answers\<close>

text \<open>A C string ends at its first zero.\<close>

definition GoString :: "string \<Rightarrow> string" where
  "GoString s = takeWhile (\<lambda>c. c \<noteq> CHR 0x00) s"

text \<open>\<^verbatim>\<open>json.Marshal\<close> of a map writes its keys in order.\<close>

definition marshal :: "(string \<times> json) list \<Rightarrow> string" where
  "marshal members = json_render (JObject (sort_key fst members))"

definition failure_answer :: "string \<Rightarrow> string" where
  "failure_answer message = marshal [(''ok'', JBool False), (''error'', JString message)]"

text \<open>
  \<^verbatim>\<open>success\<close> writes the value, reads it into a map and writes that: bytes of a text that are no
  code point become U+FFFD on the way, and a number goes through a
  \<^verbatim>\<open>float64\<close>, which holds integers of up to 53 bits as they are, and the shortest digits that name
  the float are written, with zeros after them.
\<close>

fun bit_length :: "nat \<Rightarrow> nat" where
  "bit_length n = (if n = 0 then 0 else Suc (bit_length (n div 2)))"

declare bit_length.simps [simp del]

definition nearest :: "nat \<Rightarrow> nat \<Rightarrow> nat" where
  "nearest unit n =
     (let q = n div unit; r = n mod unit in
      unit * (if 2 * r > unit \<or> 2 * r = unit \<and> odd q then Suc q else q))"

definition float_of_nat :: "nat \<Rightarrow> nat" where
  "float_of_nat n = (if bit_length n \<le> 53 then n else nearest (2 ^ (bit_length n - 53)) n)"

fun shortest :: "nat \<Rightarrow> nat \<Rightarrow> nat" where
  "shortest v 0 = v"
| "shortest v (Suc j) =
     (if float_of_nat (nearest (10 ^ Suc j) v) = v then nearest (10 ^ Suc j) v else shortest v j)"

definition float_int :: "int \<Rightarrow> int" where
  "float_int i =
     (let v = float_of_nat (nat \<bar>i\<bar>) in
      sgn i * int (if bit_length (nat \<bar>i\<bar>) \<le> 53 then v else shortest v 18))"

definition number_member :: "string \<Rightarrow> int \<Rightarrow> string \<times> json" where
  "number_member name i = (name, JNumber (Itoa (float_int i)))"

definition success_answer :: "(string \<times> json) list \<Rightarrow> string" where
  "success_answer members = marshal (map (\<lambda>(k, v). (k, wash v)) members @ [(''ok'', JBool True)])"

definition info_members :: "Info \<Rightarrow> (string \<times> json) list" where
  "info_members info =
     [(''endpoint'', JString (InfoEndpoint info)), number_member ''mtu'' (InfoMTU info),
      (''obfuscated'', JBool (InfoObfuscated info)), (''protocol'', JString (InfoProtocol info))]"

definition reachability_members :: "Reachability \<Rightarrow> (string \<times> json) list" where
  "reachability_members r =
     [(''address'', JString (ReachAddress r)), (''status'', JString (ReachStatus r)),
      number_member ''elapsed_ms'' (ReachElapsedMs r)]"

definition result_members :: "Result \<Rightarrow> (string \<times> json) list" where
  "result_members r =
     [(''endpoint'', JString (ResEndpoint r)), number_member ''mtu'' (ResMTU r),
      (''obfuscated'', JBool (ResObfuscated r)), (''status'', JString (ResStatus r)), (''body'', JString (ResBody r)),
      number_member ''elapsed_ms'' (ResElapsedMs r)]
     @ (case ResLatencyMs r of None \<Rightarrow> [] | Some ms \<Rightarrow> [number_member ''latency_ms'' ms])"

definition text_unless_empty :: "string \<Rightarrow> string \<Rightarrow> (string \<times> json) list" where
  "text_unless_empty name v = (if v = [] then [] else [(name, JString v)])"

definition number_unless_zero :: "string \<Rightarrow> int \<Rightarrow> (string \<times> json) list" where
  "number_unless_zero name i = (if i = 0 then [] else [number_member name i])"

definition fd_status_members :: "FdStatus \<Rightarrow> (string \<times> json) list" where
  "fd_status_members st =
     [(''up'', JBool (FdUp st))] @ text_unless_empty ''endpoint'' (FdEndpoint st)
     @ text_unless_empty ''protocol'' (FdProtocol st) @ (if FdObfuscated st then [(''obfuscated'', JBool True)] else [])
     @ number_unless_zero ''since_unix'' (FdSinceUnix st) @ number_unless_zero ''handshake_unix'' (FdHandshakeUnix st)
     @ number_unless_zero ''latency_ms'' (FdLatencyMs st)"

section \<open>The library\<close>

record Library =
  libSession :: Session
  libHosted :: FdSession
  libLog :: Log

definition NewLibrary :: Library where
  "NewLibrary = \<lparr>libSession = NewSession, libHosted = NewFdSession, libLog = empty_Log\<rparr>"

definition answer_of :: "('e \<Rightarrow> string) \<Rightarrow> ('a \<Rightarrow> (string \<times> json) list) \<Rightarrow> 'e + 'a \<Rightarrow> string" where
  "answer_of message members r = (case r of Inl e \<Rightarrow> failure_answer (message e) | Inr a \<Rightarrow> success_answer (members a))"

definition ms_of :: "int \<Rightarrow> duration" where
  "ms_of timeoutMs = timeoutMs * milliseconds"

definition caelo_version :: "string \<Rightarrow> string \<Rightarrow> string" where
  "caelo_version core amneziawg = marshal [(''core'', JString core), (''amneziawg'', JString amneziawg)]"

definition caelo_connect ::
  "environment \<Rightarrow> (tunnel_error \<Rightarrow> string) \<Rightarrow> string \<Rightarrow> Library \<Rightarrow> (string \<times> Library) io" where
  "caelo_connect env message configText lib = do {
     (r, s) \<leftarrow> Session_Connect env (GoString configText) (libSession lib);
     ret (answer_of message info_members r, lib\<lparr>libSession := s\<rparr>)
   }"

definition caelo_check ::
  "environment \<Rightarrow> (check_error \<Rightarrow> string) \<Rightarrow> string \<Rightarrow> int \<Rightarrow> Library \<Rightarrow> (string \<times> Library) io" where
  "caelo_check env message url timeoutMs lib = do {
     r \<leftarrow> Session_Check env (GoString url) (ms_of timeoutMs) (libSession lib);
     ret (answer_of message reachability_members r, lib)
   }"

definition run_probe ::
  "environment \<Rightarrow> (tunnel_error \<Rightarrow> string) \<Rightarrow> Traffic \<Rightarrow> bool \<Rightarrow> string \<Rightarrow> string \<Rightarrow> int \<Rightarrow> Library \<Rightarrow> (string \<times> Library) io" where
  "run_probe env message traffic measured configText url timeoutMs lib = do {
     (r, l) \<leftarrow> Run env traffic (GoString configText)
       \<lparr>OptURL = GoString url, OptTimeout = ms_of timeoutMs, OptVerbose = Verbose (libLog lib),
        OptMeasureLatency = measured, OptLatencyTarget = []\<rparr> (libLog lib);
     ret (answer_of message result_members r, lib\<lparr>libLog := l\<rparr>)
   }"

definition caelo_probe ::
  "environment \<Rightarrow> (tunnel_error \<Rightarrow> string) \<Rightarrow> Traffic \<Rightarrow> string \<Rightarrow> string \<Rightarrow> int \<Rightarrow> Library \<Rightarrow> (string \<times> Library) io" where
  "caelo_probe env message traffic = run_probe env message traffic False"

definition caelo_measure_latency ::
  "environment \<Rightarrow> (tunnel_error \<Rightarrow> string) \<Rightarrow> Traffic \<Rightarrow> string \<Rightarrow> string \<Rightarrow> int \<Rightarrow> Library \<Rightarrow> (string \<times> Library) io" where
  "caelo_measure_latency env message traffic = run_probe env message traffic True"

definition caelo_disconnect :: "environment \<Rightarrow> Library \<Rightarrow> (string \<times> Library) io" where
  "caelo_disconnect env lib = do {
     s \<leftarrow> Session_Disconnect env (libSession lib);
     ret (marshal [(''ok'', JBool True)], lib\<lparr>libSession := s\<rparr>)
   }"

definition caelo_status :: "Library \<Rightarrow> string" where
  "caelo_status lib =
     (let (up, endpoint) = Session_Up (libSession lib)
      in marshal [(''ok'', JBool True), (''up'', JBool up), (''endpoint'', JString endpoint)])"

definition caelo_describe :: "(tunnel_error \<Rightarrow> string) \<Rightarrow> string \<Rightarrow> string" where
  "caelo_describe message configText =
     (case Awg_Endpoint.Parse (GoString configText) of
        Inl e \<Rightarrow> failure_answer (message (BadConfiguration e))
      | Inr cfg \<Rightarrow> marshal
          [(''ok'', JBool True), (''addresses'', JArray (map (JString \<circ> Addr_String) (Addresses cfg))),
           (''mtu'', JNumber (Itoa (MTU cfg))), (''dns'', JArray (map JString (resolvers cfg))),
           (''allowed_ips'', if AllowedIPs (peer cfg) = [] then JNull else JArray (map JString (AllowedIPs (peer cfg)))),
           (''endpoint'', JString (Endpoint (peer cfg))), (''obfuscated'', JBool (Obfuscation cfg \<noteq> fmempty))])"

definition caelo_log :: "Library \<Rightarrow> string" where
  "caelo_log lib =
     marshal [(''ok'', JBool True), (''verbose'', JBool (Verbose (libLog lib))),
       (''lines'', if Lines (libLog lib) = [] then JNull else JArray (map JString (Lines (libLog lib))))]"

definition caelo_set_verbose :: "environment \<Rightarrow> int \<Rightarrow> Library \<Rightarrow> (string \<times> Library) io" where
  "caelo_set_verbose env on lib = do {
     now \<leftarrow> askNow env;
     let l = SetVerbose now (on \<noteq> 0) (libLog lib);
     ret (marshal [(''ok'', JBool True), (''verbose'', JBool (Verbose l))], lib\<lparr>libLog := l\<rparr>)
   }"

definition caelo_clear_log :: "Library \<Rightarrow> string \<times> Library" where
  "caelo_clear_log lib = (marshal [(''ok'', JBool True)], lib\<lparr>libLog := Clear (libLog lib)\<rparr>)"

text \<open>The keys are a JSON array of strings; a panic would be \<open>None\<close>.\<close>

datatype release_error = BadKeyList | BadKeys key_error | NotVerified verify_error

definition caelo_verify_release ::
  "(bytes \<Rightarrow> bytes \<Rightarrow> bytes \<Rightarrow> bool) \<Rightarrow> (string \<Rightarrow> bytes option option) \<Rightarrow> (release_error \<Rightarrow> string) \<Rightarrow>
   string \<Rightarrow> string \<Rightarrow> string \<Rightarrow> string option" where
  "caelo_verify_release signs files message path signature keysJSON =
     (case Option.bind (json_parse (GoString keysJSON)) (\<lambda>j. into_list into_string [] j []) of
        None \<Rightarrow> Some (failure_answer (message BadKeyList))
      | Some encoded \<Rightarrow>
          (case ParseTrusted encoded of
             Inl e \<Rightarrow> Some (failure_answer (message (BadKeys e)))
           | Inr keys \<Rightarrow> map_option
               (\<lambda>r. case r of Inl e \<Rightarrow> failure_answer (message (NotVerified e)) | Inr _ \<Rightarrow> marshal [(''ok'', JBool True)])
               (VerifyFile signs files (GoString path) (GoString signature) keys)))"

section \<open>The tunnel over a descriptor\<close>

definition caelo_connect_fd ::
  "environment \<Rightarrow> (tunnel_error \<Rightarrow> string) \<Rightarrow> bool \<Rightarrow> int \<Rightarrow> string \<Rightarrow> Library \<Rightarrow> (string \<times> Library) io" where
  "caelo_connect_fd env message darwin tunFd configText lib = do {
     (r, s, l) \<leftarrow> Fd_Start env darwin tunFd (GoString configText) (libHosted lib) (libLog lib);
     ret (answer_of message fd_status_members r, lib\<lparr>libHosted := s, libLog := l\<rparr>)
   }"

definition caelo_wait_handshake_fd ::
  "(nat \<Rightarrow> FdSession) \<Rightarrow> (nat \<Rightarrow> string option) \<Rightarrow> (nat \<Rightarrow> instant) \<Rightarrow> instant \<Rightarrow> int \<Rightarrow> string option" where
  "caelo_wait_handshake_fd sessions dump clock start timeoutMs =
     map_option (\<lambda>ok. marshal [(''ok'', JBool True), (''handshake'', JBool ok)])
       (Fd_WaitForHandshake sessions dump clock start (ms_of timeoutMs))"

definition caelo_socket_fds :: "environment \<Rightarrow> Library \<Rightarrow> string io" where
  "caelo_socket_fds env lib = do {
     (v4, v6) \<leftarrow> Fd_SocketFds env (libHosted lib);
     ret (marshal [(''ok'', JBool True), (''v4'', JNumber (Itoa v4)), (''v6'', JNumber (Itoa v6))])
   }"

definition caelo_disconnect_fd :: "environment \<Rightarrow> Library \<Rightarrow> (string \<times> Library) io" where
  "caelo_disconnect_fd env lib = do {
     s \<leftarrow> Fd_Stop env (libHosted lib);
     ret (marshal [(''ok'', JBool True)], lib\<lparr>libHosted := s\<rparr>)
   }"

definition caelo_status_fd :: "environment \<Rightarrow> Library \<Rightarrow> (string \<times> Library) io" where
  "caelo_status_fd env lib = do {
     (st, s) \<leftarrow> Fd_Status env (libHosted lib);
     ret (success_answer (fd_status_members st), lib\<lparr>libHosted := s\<rparr>)
   }"

end
