(* ===== verification/Libcaelo_Properties.thy ===== *)
theory Libcaelo_Properties
  imports Libcaelo Probe_Properties Fdtun_Properties
begin

text \<open>
  The properties of the library as the application sees it: calls in any sequence, the devices they
  leave open, and that every answer is a document the application can read.
\<close>

section \<open>Calls\<close>

text \<open>What the build and the host bring: versions, texts of errors, signatures and files.\<close>

record Host =
  coreVersion :: string
  awgVersion :: string
  tunnelText :: "tunnel_error \<Rightarrow> string"
  checkText :: "check_error \<Rightarrow> string"
  releaseText :: "release_error \<Rightarrow> string"
  signed :: "bytes \<Rightarrow> bytes \<Rightarrow> bytes \<Rightarrow> bool"
  fileOf :: "string \<Rightarrow> bytes option option"
  onDarwin :: bool

datatype api =
    ApiVersion
  | ApiConnect string
  | ApiCheck string int
  | ApiProbe Traffic string string int
  | ApiMeasureLatency Traffic string string int
  | ApiDisconnect
  | ApiStatus
  | ApiDescribe string
  | ApiLog
  | ApiSetVerbose int
  | ApiClearLog
  | ApiVerifyRelease string string string
  | ApiConnectFd int string
  | ApiSocketFds
  | ApiDisconnectFd
  | ApiStatusFd

text \<open>A call and its answer; \<open>None\<close> would be a panic.\<close>

definition answers :: "(string \<times> Library) io \<Rightarrow> (string option \<times> Library) io" where
  "answers m = do { (a, lib) \<leftarrow> m; ret (Some a, lib) }"

fun call_api :: "environment \<Rightarrow> Host \<Rightarrow> api \<Rightarrow> Library \<Rightarrow> (string option \<times> Library) io" where
  "call_api env h ApiVersion lib = ret (Some (caelo_version (coreVersion h) (awgVersion h)), lib)"
| "call_api env h (ApiConnect cf) lib = answers (caelo_connect env (tunnelText h) cf lib)"
| "call_api env h (ApiCheck url ms) lib = answers (caelo_check env (checkText h) url ms lib)"
| "call_api env h (ApiProbe traffic cf url ms) lib =
     answers (caelo_probe env (tunnelText h) traffic cf url ms lib)"
| "call_api env h (ApiMeasureLatency traffic cf url ms) lib =
     answers (caelo_measure_latency env (tunnelText h) traffic cf url ms lib)"
| "call_api env h ApiDisconnect lib = answers (caelo_disconnect env lib)"
| "call_api env h ApiStatus lib = ret (Some (caelo_status lib), lib)"
| "call_api env h (ApiDescribe cf) lib = ret (Some (caelo_describe (tunnelText h) cf), lib)"
| "call_api env h ApiLog lib = ret (Some (caelo_log lib), lib)"
| "call_api env h (ApiSetVerbose on) lib = answers (caelo_set_verbose env on lib)"
| "call_api env h ApiClearLog lib = (case caelo_clear_log lib of (a, lib') \<Rightarrow> ret (Some a, lib'))"
| "call_api env h (ApiVerifyRelease path signature keys) lib =
     ret (caelo_verify_release (signed h) (fileOf h) (releaseText h) path signature keys, lib)"
| "call_api env h (ApiConnectFd fd cf) lib = answers (caelo_connect_fd env (tunnelText h) (onDarwin h) fd cf lib)"
| "call_api env h ApiSocketFds lib = do { a \<leftarrow> caelo_socket_fds env lib; ret (Some a, lib) }"
| "call_api env h ApiDisconnectFd lib = answers (caelo_disconnect_fd env lib)"
| "call_api env h ApiStatusFd lib = answers (caelo_status_fd env lib)"

text \<open>
  A process that has loaded the library: calls one after the other, and in between packets through
  the hosted tunnel and lines the device logs.
\<close>

inductive library :: "environment \<Rightarrow> Host \<Rightarrow> Library \<Rightarrow> trace \<Rightarrow> bool" for env h where
  loaded: "library env h NewLibrary []"
| called: "library env h lib t \<Longrightarrow> run_state (call_api env h c lib) t = ((a, lib'), t') \<Longrightarrow> library env h lib' t'"
| carried: "library env h lib t \<Longrightarrow> fdMeter (libHosted lib) = Some m \<Longrightarrow> meter_step e m = Some m' \<Longrightarrow>
    library env h (lib\<lparr>libHosted := (libHosted lib)\<lparr>fdMeter := Some m'\<rparr>\<rparr>) t"
| logs: "library env h lib t \<Longrightarrow> library env h (lib\<lparr>libLog := Logf now message (libLog lib)\<rparr>) t"

section \<open>Devices\<close>

definition session_ok :: "Session \<Rightarrow> bool" where
  "session_ok s \<longleftrightarrow> sessNet s = sessDevice s \<and> (sessDevice s = None \<longrightarrow> sessEndpoint s = [])"

definition library_ok :: "Library \<Rightarrow> trace \<Rightarrow> bool" where
  "library_ok lib t \<longleftrightarrow> session_ok (libSession lib) \<and> fd_ok (opt_mset (sessDevice (libSession lib))) (libHosted lib) t"

text \<open>A connect and a disconnect by themselves.\<close>

lemma connect_devices:
  assumes "run_state (Session_Connect env cf s) t = ((r, s'), t')" and "session_ok s"
    and "devices t = opt_mset (sessDevice s) + others"
  shows "session_ok s' \<and> devices t' = opt_mset (sessDevice s') + others"
proof -
  obtain p t1 where prep: "run_state (prepare env cf) t = (p, t1)" by fastforce
  note d = prepare_devices [OF prep]
  show ?thesis
  proof (cases p)
    case (Inl e)
    with assms prep d show ?thesis by (auto simp: Session_Connect_def)
  next
    case (Inr q)
    obtain cfg dv where q: "q = (cfg, dv)" by fastforce
    with assms prep d Inr show ?thesis
      by (auto simp: Session_Connect_def swapIn_run closePrevious_def closeDevice_def devices_append session_ok_def
          split: option.splits)
  qed
qed

lemma disconnect_devices:
  assumes "run_state (Session_Disconnect env s) t = (s', t')" and "devices t = opt_mset (sessDevice s) + others"
  shows "session_ok s' \<and> sessDevice s' = None \<and> devices t' = others"
  using assms
  by (auto simp: Session_Disconnect_def takeOut_def closePrevious_def closeDevice_def session_ok_def
      split: option.splits)

lemma fd_ok_devices: "fd_ok others s t \<Longrightarrow> devices t = others + opt_mset (fdDevice s)"
  by (simp add: fd_ok_def)

lemma fd_ok_move: "fd_ok others s t \<Longrightarrow> devices t' = others' + opt_mset (fdDevice s) \<Longrightarrow> fd_ok others' s t'"
  by (simp add: fd_ok_def)

lemma Fd_Status_ok:
  assumes "fd_ok others s t" and "run_state (Fd_Status env s) t = ((st, s'), t')"
  shows "fd_ok others s' t'"
proof -
  have t': "devices t' = devices t"
    using same_devicesD [of "Fd_Status env s" t] Fd_Status_same assms(2) by simp
  show ?thesis
  proof (cases "fdDevice s")
    case None
    then have "s = NewFdSession" using assms(1) by (simp add: fd_ok_def)
    then have "s' = s" using assms(2) by (auto simp: Fd_Status_def NewFdSession_def zero_FdStatus_def)
    with assms(1) t' show ?thesis by (simp add: fd_ok_def)
  next
    case (Some d)
    with Fd_Status_session [OF assms(2)] fd_ok_meter [OF assms(1)] assms(1) t' show ?thesis
      by (auto simp: fd_ok_def)
  qed
qed

lemma api_ok:
  assumes "library_ok lib t" and "run_state (call_api env h c lib) t = ((a, lib'), t')"
  shows "library_ok lib' t'"
proof -
  have s: "session_ok (libSession lib)" and fd: "fd_ok (opt_mset (sessDevice (libSession lib))) (libHosted lib) t"
    using assms(1) by (simp_all add: library_ok_def)
  note d = fd_ok_devices [OF fd]
  show ?thesis
  proof (cases c)
    case (ApiConnect cf)
    obtain r s' where run: "run_state (Session_Connect env (GoString cf) (libSession lib)) t = ((r, s'), t')"
        "lib' = lib\<lparr>libSession := s'\<rparr>"
      using assms(2) by (auto simp: ApiConnect answers_def caelo_connect_def split: prod.splits)
    from connect_devices [OF run(1) s d] show ?thesis
      using run(2) fd_ok_move [OF fd] by (simp add: library_ok_def)
  next
    case ApiDisconnect
    obtain s' where run: "run_state (Session_Disconnect env (libSession lib)) t = (s', t')"
        "lib' = lib\<lparr>libSession := s'\<rparr>"
      using assms(2) by (auto simp: ApiDisconnect answers_def caelo_disconnect_def split: prod.splits)
    from disconnect_devices [OF run(1) d] show ?thesis
      using run(2) fd_ok_move [OF fd] by (simp add: library_ok_def)
  next
    case (ApiConnectFd fd0 cf)
    obtain r s' l' where run: "run_state (Fd_Start env (onDarwin h) fd0 (GoString cf) (libHosted lib) (libLog lib)) t =
        ((r, s', l'), t')" "lib' = lib\<lparr>libHosted := s', libLog := l'\<rparr>"
      using assms(2) by (auto simp: ApiConnectFd answers_def caelo_connect_fd_def split: prod.splits)
    from Fd_Start_post [OF fd run(1)] show ?thesis using s run(2) by (simp add: library_ok_def)
  next
    case ApiDisconnectFd
    obtain s' where run: "run_state (fd_stopLocked env (libHosted lib)) t = (s', t')" "lib' = lib\<lparr>libHosted := s'\<rparr>"
      using assms(2) by (auto simp: ApiDisconnectFd answers_def caelo_disconnect_fd_def Fd_Stop_def split: prod.splits)
    from stop_ok [OF fd run(1)] show ?thesis
      using s run(2) by (simp add: library_ok_def fd_ok_def NewFdSession_def)
  next
    case ApiStatusFd
    obtain st s' where run: "run_state (Fd_Status env (libHosted lib)) t = ((st, s'), t')" "lib' = lib\<lparr>libHosted := s'\<rparr>"
      using assms(2) by (auto simp: ApiStatusFd answers_def caelo_status_fd_def split: prod.splits)
    from Fd_Status_ok [OF fd run(1)] show ?thesis using s run(2) by (simp add: library_ok_def)
  next
    case (ApiCheck url ms)
    obtain r where "run_state (Session_Check env (GoString url) (ms_of ms) (libSession lib)) t = (r, t')" "lib' = lib"
      using assms(2) by (auto simp: ApiCheck answers_def caelo_check_def split: prod.splits)
    then show ?thesis
      using s fd_ok_move [OF fd] d same_devicesD [of "Session_Check env (GoString url) (ms_of ms) (libSession lib)" t]
        Check_same by (simp add: library_ok_def)
  next
    case (ApiProbe traffic cf url ms)
    then obtain r l o' where "run_state (Run env traffic (GoString cf) o' (libLog lib)) t = ((r, l), t')"
        "lib' = lib\<lparr>libLog := l\<rparr>"
      using assms(2) by (auto simp: answers_def caelo_probe_def run_probe_def split: prod.splits)
    then show ?thesis using s fd_ok_move [OF fd] d Run_devices by (simp add: library_ok_def)
  next
    case (ApiMeasureLatency traffic cf url ms)
    then obtain r l o' where "run_state (Run env traffic (GoString cf) o' (libLog lib)) t = ((r, l), t')"
        "lib' = lib\<lparr>libLog := l\<rparr>"
      using assms(2) by (auto simp: answers_def caelo_measure_latency_def run_probe_def split: prod.splits)
    then show ?thesis using s fd_ok_move [OF fd] d Run_devices by (simp add: library_ok_def)
  next
    case ApiSocketFds
    then obtain v where "run_state (Fd_SocketFds env (libHosted lib)) t = (v, t')" "lib' = lib"
      using assms(2) by (auto simp: caelo_socket_fds_def split: prod.splits)
    then show ?thesis
      using s fd_ok_move [OF fd] d same_devicesD [of "Fd_SocketFds env (libHosted lib)" t] SocketFds_same
      by (simp add: library_ok_def)
  next
    case (ApiSetVerbose on)
    then obtain l where "lib' = lib\<lparr>libLog := l\<rparr>" "devices t' = devices t"
      using assms(2) by (auto simp: answers_def caelo_set_verbose_def askNow_def Let_def)
    then show ?thesis using s fd_ok_move [OF fd] d by (simp add: library_ok_def)
  qed (use assms s fd in \<open>auto simp: library_ok_def caelo_clear_log_def\<close>)
qed

lemma library_okay: "library env h lib t \<Longrightarrow> library_ok lib t"
proof (induction rule: library.induct)
  case loaded
  show ?case by (simp add: library_ok_def NewLibrary_def session_ok_def NewSession_def fd_ok_def NewFdSession_def)
next
  case (called lib t c a lib' t')
  then show ?case using api_ok by blast
next
  case (carried lib t m e m')
  then show ?case by (simp add: library_ok_def fd_ok_meter)
next
  case (logs lib t now message)
  then show ?case by (simp add: library_ok_def)
qed

section \<open>Answers\<close>

definition fine :: "string \<times> json \<Rightarrow> bool" where
  "fine kv \<longleftrightarrow> list_all ascii (fst kv) \<and> numbered (snd kv) \<and> json_depth (snd kv) \<le> 1"

text \<open>The values a document gives a key.\<close>

definition given :: "string \<Rightarrow> (string \<times> json) list \<Rightarrow> json set" where
  "given key ms = {v. (key, v) \<in> set ms}"

lemma marshal_reads:
  assumes "list_all fine ms"
  shows "\<exists>ms'. json_parse (marshal ms) = Some (JObject ms') \<and> (\<forall>key. given key ms' = wash ` given key ms)"
proof -
  let ?s = "sort_key fst ms"
  have fine: "fine kv" if "kv \<in> set ?s" for kv using assms that by (simp add: list_all_iff)
  have "numbered (JObject ?s)" using fine by (auto simp: list_all_iff fine_def)
  moreover have "list_all (\<lambda>n. n \<le> 1) (map (\<lambda>(k, v). json_depth v) ?s)"
    using fine by (auto simp: list_all_iff fine_def simp del: set_sort)
  then have "json_depth (JObject ?s) \<le> maxNestingDepth"
    using foldr_max_le [of "map (\<lambda>(k, v). json_depth v) ?s" 1] by (simp add: maxNestingDepth_def)
  ultimately have "json_parse (marshal ms) = Some (wash (JObject ?s))"
    using json_reads [of "JObject ?s" "[]"] by (simp add: marshal_def)
  moreover have "given key (map (\<lambda>(k, v). (washed k, wash v)) ?s) = wash ` given key ms" for key
  proof -
    have "map (\<lambda>(k, v). (washed k, wash v)) ?s = map (\<lambda>(k, v). (k, wash v)) ?s"
      using fine by (auto simp: fine_def)
    then show ?thesis by (force simp: given_def)
  qed
  ultimately show ?thesis by (metis wash.simps(3))
qed

text \<open>An answer: whether it is good, and if not, why.\<close>

definition proper :: "bool \<Rightarrow> string \<Rightarrow> bool" where
  "proper b a \<longleftrightarrow>
     (\<exists>ms. a = marshal ms \<and> list_all fine ms \<and> given ''ok'' ms = {JBool b} \<and>
        (\<not> b \<longrightarrow> (\<exists>e. given ''error'' ms = {JString e})))"

lemma fine_simps [simp]:
  "fine (k, JBool b) \<longleftrightarrow> list_all ascii k" "fine (k, JString v) \<longleftrightarrow> list_all ascii k"
  "fine (k, JNumber (Itoa i)) \<longleftrightarrow> list_all ascii k" "fine (k, JNull) \<longleftrightarrow> list_all ascii k"
  "fine (k, JArray (map JString vs)) \<longleftrightarrow> list_all ascii k"
  "fine (k, JArray (map (JString \<circ> f) ws)) \<longleftrightarrow> list_all ascii k"
  "fine (number_member k i) \<longleftrightarrow> list_all ascii k"
  by (auto simp: fine_def number_member_def list_all_iff foldr_max_le [of _ 0, simplified])

lemma given_simps [simp]:
  "given key [] = {}"
  "given key ((k, v) # ms) = (if k = key then insert v (given key ms) else given key ms)"
  "given key (number_member k i # ms) = (if k = key then insert (JNumber (Itoa (float_int i))) (given key ms) else given key ms)"
  "given key (ms @ ms') = given key ms \<union> given key ms'"
  by (auto simp: given_def number_member_def)

lemma proper_failure: "proper False (failure_answer e)"
  unfolding proper_def failure_answer_def
  by (rule exI [of _ "[(''ok'', JBool False), (''error'', JString e)]"]) (simp add: ascii_def code_def)

lemma proper_marshal:
  "list_all fine ms \<Longrightarrow> given ''ok'' ms = {} \<Longrightarrow> proper True (marshal ((''ok'', JBool True) # ms))"
  unfolding proper_def
  by (rule exI [of _ "(''ok'', JBool True) # ms"]) (simp add: ascii_def code_def)

lemma proper_ok: "proper True (marshal [(''ok'', JBool True)])"
  by (rule proper_marshal) simp_all

lemma wash_shape: "numbered (wash v) = numbered v" "json_depth (wash v) = json_depth v"
proof -
  have "numbered (wash v) = numbered v \<and> json_depth (wash v) = json_depth v"
  proof (induction v)
    case (JArray vs)
    then have "foldr max (map (json_depth \<circ> wash) vs) 0 = foldr max (map json_depth vs) 0"
      by (intro arg_cong [where f = "\<lambda>ns. foldr max ns 0"]) simp
    with JArray show ?case by (simp add: list_all_iff)
  next
    case (JObject ms)
    then have "foldr max (map ((\<lambda>(k, v). json_depth v) \<circ> (\<lambda>(k, v). (washed k, wash v))) ms) 0 =
        foldr max (map (\<lambda>(k, v). json_depth v) ms) 0"
      by (intro arg_cong [where f = "\<lambda>ns. foldr max ns 0"]) fastforce
    with JObject show ?case by (fastforce simp: list_all_iff)
  qed simp_all
  then show "numbered (wash v) = numbered v" "json_depth (wash v) = json_depth v" by simp_all
qed

lemma proper_success:
  assumes "list_all fine ms" and "given ''ok'' ms = {}"
  shows "proper True (success_answer ms)"
proof -
  let ?ms = "map (\<lambda>(k, v). (k, wash v)) ms"
  have "list_all fine ?ms"
    using assms(1) by (auto simp: list_all_iff fine_def wash_shape)
  moreover have "given ''ok'' ?ms = {}" using assms(2) by (auto simp: given_def)
  ultimately show ?thesis
    unfolding proper_def success_answer_def
    by (intro exI [of _ "?ms @ [(''ok'', JBool True)]"]) (simp add: ascii_def code_def)
qed

lemma proper_members:
  "proper True (success_answer (info_members i))" "proper True (success_answer (reachability_members r))"
  "proper True (success_answer (result_members res))" "proper True (success_answer (fd_status_members st))"
  by (rule proper_success; simp add: info_members_def reachability_members_def result_members_def
      fd_status_members_def text_unless_empty_def number_unless_zero_def ascii_def code_def number_member_def
      split: option.split)+

lemma proper_answer_of:
  "(\<And>a. proper True (success_answer (ms a))) \<Longrightarrow> \<exists>b. proper b (answer_of message ms r)"
  using proper_failure by (cases r) (auto simp: answer_of_def)

lemma proper_describe: "\<exists>b. proper b (caelo_describe message cf)"
proof (cases "Awg_Endpoint.Parse (GoString cf)")
  case (Inl e)
  then show ?thesis using proper_failure by (auto simp: caelo_describe_def)
next
  case (Inr cfg)
  let ?ms = "[(''addresses'', JArray (map (JString \<circ> Addr_String) (Addresses cfg))),
           (''mtu'', JNumber (Itoa (MTU cfg))), (''dns'', JArray (map JString (resolvers cfg))),
           (''allowed_ips'', if AllowedIPs (peer cfg) = [] then JNull else JArray (map JString (AllowedIPs (peer cfg)))),
           (''endpoint'', JString (Endpoint (peer cfg))), (''obfuscated'', JBool (Obfuscation cfg \<noteq> fmempty))]"
  have "proper True (marshal ((''ok'', JBool True) # ?ms))"
    by (rule proper_marshal; simp del: map_map; simp add: ascii_def code_def)
  with Inr show ?thesis by (auto simp: caelo_describe_def)
qed

lemma proper_flags:
  "\<exists>b. proper b (caelo_status lib)" "\<exists>b. proper b (caelo_log lib)"
  "proper True (marshal [(''ok'', JBool True), (''verbose'', JBool v)])"
  "proper True (marshal [(''ok'', JBool True), (''v4'', JNumber (Itoa i)), (''v6'', JNumber (Itoa j))])"
proof -
  have "proper True (marshal ((''ok'', JBool True) # [(''up'', JBool up), (''endpoint'', JString ep)]))"
    "proper True (marshal ((''ok'', JBool True) # [(''verbose'', JBool up), (''lines'',
       if ls = [] then JNull else JArray (map JString ls))]))" for up ep ls
    by (rule proper_marshal; simp add: ascii_def code_def)+
  then have "proper True (caelo_status lib)" "proper True (caelo_log lib)"
    unfolding caelo_status_def caelo_log_def by (simp_all split: prod.split del: if_split)
  then show "\<exists>b. proper b (caelo_status lib)" "\<exists>b. proper b (caelo_log lib)" by blast+
  show "proper True (marshal [(''ok'', JBool True), (''verbose'', JBool v)])"
    "proper True (marshal [(''ok'', JBool True), (''v4'', JNumber (Itoa i)), (''v6'', JNumber (Itoa j))])"
    by (rule proper_marshal; simp add: ascii_def code_def)+
qed

lemma proper_verify: "\<exists>a b. caelo_verify_release signs files message path signature keys = Some a \<and> proper b a"
proof (cases "Option.bind (json_parse (GoString keys)) (\<lambda>j. into_list into_string [] j [])")
  case None
  then show ?thesis using proper_failure by (auto simp: caelo_verify_release_def)
next
  case (Some encoded)
  show ?thesis
  proof (cases "ParseTrusted encoded")
    case (Inl e)
    then show ?thesis using Some proper_failure by (auto simp: caelo_verify_release_def)
  next
    case (Inr ks)
    then have "VerifyFile signs files (GoString path) (GoString signature) ks \<noteq> None"
      by (auto simp: VerifyFile_def ParseTrusted_iff Verify_well_sized split: option.split)
    then obtain r where "VerifyFile signs files (GoString path) (GoString signature) ks = Some r" by blast
    with Some Inr proper_failure proper_ok show ?thesis
      by (cases r) (auto simp: caelo_verify_release_def)
  qed
qed

lemma answers_proper:
  assumes "run_state (call_api env h c lib) t = ((a, lib'), t')" and "c \<noteq> ApiVersion"
  shows "\<exists>ans b. a = Some ans \<and> proper b ans"
proof -
  have some: "\<exists>b. proper b a" if "proper True a" for a using that by blast
  note facts = proper_ok proper_describe proper_flags(1,2) proper_verify some [OF proper_flags(3)]
    some [OF proper_flags(4)] some [OF proper_members(4)]
  note of = proper_answer_of [OF proper_members(1)] proper_answer_of [OF proper_members(2)]
    proper_answer_of [OF proper_members(3)] proper_answer_of [OF proper_members(4)]
  show ?thesis
    using assms facts of
    by (cases c)
      (auto simp: answers_def caelo_connect_def caelo_check_def caelo_probe_def caelo_measure_latency_def run_probe_def
        caelo_disconnect_def caelo_set_verbose_def caelo_clear_log_def caelo_connect_fd_def caelo_socket_fds_def
        caelo_disconnect_fd_def caelo_status_fd_def Let_def split: prod.splits)
qed

section \<open>Numbers\<close>

text \<open>An integer of up to 53 bits is written as it is.\<close>

lemma bit_length_small: "n < 2 ^ k \<Longrightarrow> bit_length n \<le> k"
  by (induction k arbitrary: n) (subst bit_length.simps, auto)+

lemma number_exact:
  assumes "\<bar>i\<bar> < 2 ^ 53"
  shows "number_member k i = (k, JNumber (Itoa i))"
proof -
  have "nat \<bar>i\<bar> < 2 ^ 53" using assms by (simp add: nat_less_iff)
  then have "bit_length (nat \<bar>i\<bar>) \<le> 53" by (rule bit_length_small)
  then show ?thesis by (simp add: number_member_def float_int_def float_of_nat_def sgn_mult_abs)
qed

section \<open>Properties\<close>

text \<open>
  C18: The library has the devices its two tunnels have, and no others.  After any calls in any order,
  whatever of them failed, with packets and log lines in between, the open devices are the
  userspace tunnel's and the hosted one's, each once; \<^verbatim>\<open>caelo_status\<close> says whether there is the first,
  and the hosted tunnel's status is up exactly when there is the second; \<^verbatim>\<open>caelo_disconnect\<close> closes
  the first and leaves the second alone.
\<close>

theorem library_devices:
  assumes "library env h lib t" and "run_state (call_api env h ApiDisconnect lib) t = ((a, lib'), t')"
  shows "devices t = opt_mset (sessDevice (libSession lib)) + opt_mset (fdDevice (libHosted lib)) \<and>
    (\<exists>ms. json_parse (caelo_status lib) = Some (JObject ms) \<and>
       given ''up'' ms = {JBool (sessDevice (libSession lib) \<noteq> None)}) \<and>
    (fdDevice (libHosted lib) = None \<longleftrightarrow> \<not> FdUp (fdStatus (libHosted lib))) \<and>
    libHosted lib' = libHosted lib \<and> devices t' = opt_mset (fdDevice (libHosted lib))"
proof -
  have ok: "library_ok lib t" by (rule library_okay [OF assms(1)])
  then have d: "devices t = opt_mset (sessDevice (libSession lib)) + opt_mset (fdDevice (libHosted lib))"
    by (simp add: library_ok_def fd_ok_def)
  let ?ms = "[(''ok'', JBool True), (''up'', JBool (sessDevice (libSession lib) \<noteq> None)),
      (''endpoint'', JString (sessEndpoint (libSession lib)))]"
  have "caelo_status lib = marshal ?ms" by (simp add: caelo_status_def Session_Up_def)
  moreover have "list_all fine ?ms" by (simp add: ascii_def code_def)
  ultimately obtain ms where ms: "json_parse (caelo_status lib) = Some (JObject ms)"
      "given ''up'' ms = wash ` given ''up'' ?ms"
    using marshal_reads by metis
  obtain s' where run: "run_state (Session_Disconnect env (libSession lib)) t = (s', t')" "lib' = lib\<lparr>libSession := s'\<rparr>"
    using assms(2) by (auto simp: answers_def caelo_disconnect_def split: prod.splits)
  have hosted: "fdDevice (libHosted lib) = None \<longleftrightarrow> \<not> FdUp (fdStatus (libHosted lib))"
    using ok by (auto simp: library_ok_def fd_ok_def NewFdSession_def zero_FdStatus_def split: option.splits)
  show ?thesis
    using d ms hosted run(2) disconnect_devices [OF run(1) d] by simp
qed


section \<open>A run\<close>

definition sample_host :: Host where
  "sample_host = \<lparr>coreVersion = ''dev'', awgVersion = ''v3'', tunnelText = (\<lambda>_. ''failed''), checkText = (\<lambda>_. ''failed''),
     releaseText = (\<lambda>_. ''failed''), signed = (\<lambda>_ _ _. False), fileOf = (\<lambda>_. None), onDarwin = False\<rparr>"

lemma sample_connected:
  obtains a lib t d where "run_state (call_api served_environment sample_host (ApiConnect sample_text) NewLibrary) [] =
     ((a, lib), t)" "sessDevice (libSession lib) = Some d" "fdDevice (libHosted lib) = None"
proof -
  have plain: "GoString sample_text = sample_text" by code_simp
  obtain d t where prep: "run_state (prepare served_environment sample_text) [] = (Inr (sample_config, d), t)"
    using sample_prepares by blast
  obtain a lib t' where run: "run_state (call_api served_environment sample_host (ApiConnect sample_text) NewLibrary) [] =
     ((a, lib), t')" by (metis prod.exhaust)
  then show thesis
    using prep plain that
    by (auto simp: answers_def caelo_connect_def Session_Connect_def swapIn_run closePrevious_def NewLibrary_def
        NewSession_def NewFdSession_def)
qed

theorem library_devices_witness:
  "\<exists>lib t d. library served_environment sample_host lib t \<and> devices t = {#d#} \<and> sessDevice (libSession lib) = Some d"
proof -
  obtain a lib t d where run: "run_state (call_api served_environment sample_host (ApiConnect sample_text) NewLibrary) [] =
     ((a, lib), t)" "sessDevice (libSession lib) = Some d" "fdDevice (libHosted lib) = None"
    by (rule sample_connected)
  have lib: "library served_environment sample_host lib t" by (rule called [OF loaded run(1)])
  obtain a' lib' t' where "run_state (call_api served_environment sample_host ApiDisconnect lib) t = ((a', lib'), t')"
    by (metis prod.exhaust)
  from library_devices [OF lib this] run(2,3) lib show ?thesis by auto
qed


end
