(* ===== verification/Libcaelo_Refinement.thy ===== *)
theory Libcaelo_Refinement
  imports Libcaelo_Properties
begin

text \<open>
  What the library promises the application, as a specification of two tunnels that are down or up
  to an endpoint, and that the library refines it: the answers are all the application needs to know
  which tunnels there are.
\<close>

section \<open>The specification\<close>

type_synonym view = "string option \<times> string option"

text \<open>The endpoints of the userspace tunnel and of the hosted one.\<close>

definition view_of :: "Library \<Rightarrow> view" where
  "view_of lib =
     (map_option (\<lambda>_. sessEndpoint (libSession lib)) (sessDevice (libSession lib)),
      map_option (\<lambda>_. FdEndpoint (fdStatus (libHosted lib))) (fdDevice (libHosted lib)))"

definition endpoint_of :: "string \<Rightarrow> string option" where
  "endpoint_of cf = (case Awg_Endpoint.Parse (GoString cf) of Inl _ \<Rightarrow> None | Inr cfg \<Rightarrow> Some (Endpoint (peer cfg)))"

text \<open>
  A call and whether its answer is good.  A connect that fails keeps the userspace tunnel there was;
  one over a descriptor has taken the hosted tunnel down before it fails.
\<close>

fun seen :: "api \<Rightarrow> bool \<Rightarrow> view \<Rightarrow> view" where
  "seen (ApiConnect cf) good (s, f) = (if good then endpoint_of cf else s, f)"
| "seen ApiDisconnect good (s, f) = (None, f)"
| "seen (ApiConnectFd fd cf) good (s, f) = (s, if good then endpoint_of cf else None)"
| "seen ApiDisconnectFd good (s, f) = (s, None)"
| "seen _ good v = v"

section \<open>The operations\<close>

lemma connect_view:
  assumes "run_state (Session_Connect env cf s) t = ((r, s'), t')"
  shows "case r of Inl e \<Rightarrow> s' = s
    | Inr i \<Rightarrow> \<exists>cfg d. Awg_Endpoint.Parse cf = Inr cfg \<and> sessDevice s' = Some d \<and> sessEndpoint s' = Endpoint (peer cfg)"
proof -
  obtain p t1 where prep: "run_state (prepare env cf) t = (p, t1)" by fastforce
  show ?thesis
  proof (cases p)
    case (Inl e)
    with assms prep show ?thesis by (auto simp: Session_Connect_def)
  next
    case (Inr q)
    then obtain cfg d where q: "p = Inr (cfg, d)" by (cases q) simp
    have "Awg_Endpoint.Parse cf = Inr cfg"
      using prep q by (auto simp: prepare_def newDevice_def split: sum.splits prod.splits)
    with assms prep q show ?thesis by (auto simp: Session_Connect_def swapIn_run split: prod.splits)
  qed
qed

lemma proper_answer: "(\<And>a. proper True (success_answer (ms a))) \<Longrightarrow> proper (\<not> isl r) (answer_of message ms r)"
  using proper_failure by (cases r) (auto simp: answer_of_def)

lemma view_keeps:
  "libSession lib' = libSession lib \<Longrightarrow> fdDevice (libHosted lib') = fdDevice (libHosted lib) \<Longrightarrow>
   fdStatus (libHosted lib') = fdStatus (libHosted lib) \<Longrightarrow> view_of lib' = view_of lib"
  by (simp add: view_of_def)

lemma api_view:
  assumes "library_ok lib t" and "run_state (call_api env h c lib) t = ((a, lib'), t')" and "c \<noteq> ApiVersion"
  shows "\<exists>ans b. a = Some ans \<and> proper b ans \<and> view_of lib' = seen c b (view_of lib)"
proof -
  have fd: "fd_ok (opt_mset (sessDevice (libSession lib))) (libHosted lib) t"
    using assms(1) by (simp add: library_ok_def)
  obtain ans b where p: "a = Some ans" "proper b ans" using answers_proper [OF assms(2,3)] by blast
  have same: ?thesis if "view_of lib' = view_of lib" "seen c b (view_of lib) = view_of lib"
    using that p by (intro exI [of _ ans] exI [of _ b]) simp
  show ?thesis
  proof (cases c)
    case (ApiConnect cf)
    obtain r s' where run: "run_state (Session_Connect env (GoString cf) (libSession lib)) t = ((r, s'), t')"
        "lib' = lib\<lparr>libSession := s'\<rparr>" "a = Some (answer_of (tunnelText h) info_members r)"
      using assms(2) by (auto simp: ApiConnect answers_def caelo_connect_def split: prod.splits)
    have "view_of lib' = seen c (\<not> isl r) (view_of lib)"
      using connect_view [OF run(1)] run(2)
      by (cases r) (auto simp: ApiConnect view_of_def endpoint_of_def)
    then show ?thesis
      using run(3) proper_answer [of info_members r "tunnelText h", OF proper_members(1)]
      by (intro exI [of _ "answer_of (tunnelText h) info_members r"] exI [of _ "\<not> isl r"]) simp
  next
    case ApiDisconnect
    obtain s' where run: "run_state (Session_Disconnect env (libSession lib)) t = (s', t')"
        "lib' = lib\<lparr>libSession := s'\<rparr>" "a = Some (marshal [(''ok'', JBool True)])"
      using assms(2) by (auto simp: ApiDisconnect answers_def caelo_disconnect_def split: prod.splits)
    have "sessDevice s' = None"
      using run(1) by (auto simp: Session_Disconnect_def takeOut_def split: prod.splits)
    then have "view_of lib' = seen c b (view_of lib)" using run(2) by (simp add: ApiDisconnect view_of_def)
    with p show ?thesis by (intro exI [of _ ans] exI [of _ b]) simp
  next
    case (ApiConnectFd fd0 cf)
    obtain r s' l' where run: "run_state (Fd_Start env (onDarwin h) fd0 (GoString cf) (libHosted lib) (libLog lib)) t =
        ((r, s', l'), t')" "lib' = lib\<lparr>libHosted := s', libLog := l'\<rparr>"
        "a = Some (answer_of (tunnelText h) fd_status_members r)"
      using assms(2) by (auto simp: ApiConnectFd answers_def caelo_connect_fd_def split: prod.splits)
    have "view_of lib' = seen c (\<not> isl r) (view_of lib)"
      using Fd_Start_post [OF fd run(1)] run(2)
      by (cases r) (auto simp: ApiConnectFd view_of_def endpoint_of_def fd_ok_def NewFdSession_def startedFdStatus_def
          zero_FdStatus_def split: option.splits)
    then show ?thesis
      using run(3) proper_answer [of fd_status_members r "tunnelText h", OF proper_members(4)]
      by (intro exI [of _ "answer_of (tunnelText h) fd_status_members r"] exI [of _ "\<not> isl r"]) simp
  next
    case ApiDisconnectFd
    obtain s' where run: "run_state (fd_stopLocked env (libHosted lib)) t = (s', t')" "lib' = lib\<lparr>libHosted := s'\<rparr>"
      using assms(2) by (auto simp: ApiDisconnectFd answers_def caelo_disconnect_fd_def Fd_Stop_def split: prod.splits)
    have "view_of lib' = seen c b (view_of lib)"
      using stop_ok [OF fd run(1)] run(2) by (simp add: ApiDisconnectFd view_of_def NewFdSession_def)
    with p show ?thesis by (intro exI [of _ ans] exI [of _ b]) simp
  next
    case ApiStatusFd
    obtain st s' where run: "run_state (Fd_Status env (libHosted lib)) t = ((st, s'), t')" "lib' = lib\<lparr>libHosted := s'\<rparr>"
      using assms(2) by (auto simp: ApiStatusFd answers_def caelo_status_fd_def split: prod.splits)
    obtain mo where "s' = (libHosted lib)\<lparr>fdMeter := mo\<rparr>" using Fd_Status_session [OF run(1)] by blast
    with run(2) show ?thesis by (intro same view_keeps) (simp_all add: ApiStatusFd)
  qed (rule same, (use assms(2) in \<open>auto intro!: view_keeps simp: answers_def caelo_check_def caelo_probe_def
      caelo_measure_latency_def run_probe_def caelo_clear_log_def caelo_set_verbose_def caelo_socket_fds_def Let_def
      split: prod.splits\<close>)[1], simp)+
qed

text \<open>
  C19: The library refines two tunnels that are down or up to an endpoint.  Each call, from any state
  that calls can lead to, moves them as the specification says for that call and whether its answer
  is good; so an application that reads the answers knows at every moment which tunnels there are
  and where they go, without asking.
\<close>

theorem library_refines:
  assumes "library env h lib t" and "run_state (call_api env h c lib) t = ((a, lib'), t')" and "c \<noteq> ApiVersion"
  shows "\<exists>ans ms b. a = Some ans \<and> json_parse ans = Some (JObject ms) \<and> given ''ok'' ms = {JBool b} \<and>
    view_of lib' = seen c b (view_of lib)"
proof -
  obtain ans b where p: "a = Some ans" "proper b ans" "view_of lib' = seen c b (view_of lib)"
    using api_view [OF library_okay [OF assms(1)] assms(2,3)] by blast
  then obtain ms where ms: "ans = marshal ms" "list_all fine ms" "given ''ok'' ms = {JBool b}"
    by (auto simp: proper_def)
  obtain ms' where "json_parse ans = Some (JObject ms')" "given ''ok'' ms' = wash ` given ''ok'' ms"
    using marshal_reads [OF ms(2)] ms(1) by blast
  with p(1,3) ms(3) show ?thesis by (intro exI [of _ ans] exI [of _ ms'] exI [of _ b]) simp
qed

theorem library_refines_witness:
  "\<exists>lib t b. library served_environment sample_host lib t \<and>
     view_of lib = seen (ApiConnect sample_text) b (None, None) \<and> sessDevice (libSession lib) \<noteq> None"
proof -
  obtain a lib t d where run: "run_state (call_api served_environment sample_host (ApiConnect sample_text) NewLibrary) [] =
     ((a, lib), t)" "sessDevice (libSession lib) = Some d" "fdDevice (libHosted lib) = None"
    by (rule sample_connected)
  have "view_of NewLibrary = (None, None)"
    by (simp add: view_of_def NewLibrary_def NewSession_def NewFdSession_def)
  with library_refines [OF loaded run(1)] run(2) library.called [OF loaded run(1)] show ?thesis by force
qed

end
