(* ===== verification/Service_Windows.thy ===== *)
theory Service_Windows
  imports Service_Process
begin

text \<open>
  \<^verbatim>\<open>core/cmd/caelo-service/service_windows.go\<close>, \<^verbatim>\<open>listen_windows.go\<close>, \<^verbatim>\<open>platform_linux.go\<close> and
  the set-up in \<^verbatim>\<open>main\<close>: installing and removing the service, the loop the Service Control Manager
  talks to, the pipe, and what \<^verbatim>\<open>main\<close> does before and after it serves.  The service manager's
  functions are calls of the environment; a deferred call is made after what it was deferred for.
\<close>

section \<open>Deferred calls\<close>

definition deferring :: "environment \<Rightarrow> call \<Rightarrow> (failure + 'a) io \<Rightarrow> (failure + 'a) io" where
  "deferring env c m = do { r \<leftarrow> m; _ \<leftarrow> ask env c; ret r }"

section \<open>The pipe\<close>

definition PipeName :: string where
  "PipeName = [CHR 0x5C, CHR 0x5C, CHR ''.'', CHR 0x5C] @ ''pipe'' @ CHR 0x5C # ''caelo''"

definition pipeSecurity :: string where
  "pipeSecurity = ''D:P(A;;GA;;;SY)(A;;GA;;;BA)(A;;GRGW;;;IU)''"

text \<open>The listener is never one that was passed; \<^verbatim>\<open>MessageMode\<close> is off.\<close>

definition listen_windows :: "environment \<Rightarrow> (failure + bool) io" where
  "listen_windows env =
     andThen (inContext (''listening on '' @ PipeName) (attempt env (Os ''ListenPipe'' [PipeName, pipeSecurity, ''false''])))
       (\<lambda>_. ret (Inr False))"

definition authorise_windows :: "failure + unit" where "authorise_windows = Inr ()"

definition mustBePrivileged_windows :: "failure + unit" where "mustBePrivileged_windows = Inr ()"

section \<open>The trigger\<close>

definition serviceName :: string where "serviceName = ''Caelo''"

definition pipeTriggerName :: string where "pipeTriggerName = ''caelo''"

record GUID =
  Data1 :: int
  Data2 :: int
  Data3 :: int
  Data4 :: "int list"

definition namedPipeEventGUID :: GUID where
  "namedPipeEventGUID = \<lparr>Data1 = 0x1f81d131, Data2 = 0x3fac, Data3 = 0x4537,
     Data4 = [0x9e, 0x0c, 0x7e, 0x7b, 0x0c, 0x2f, 0x4b, 0x55]\<rparr>"

definition serviceConfigTriggerInfo :: int where "serviceConfigTriggerInfo = 8"
definition serviceTriggerTypeNetworkEndpoint :: int where "serviceTriggerTypeNetworkEndpoint = 6"
definition serviceTriggerActionServiceStart :: int where "serviceTriggerActionServiceStart = 1"
definition serviceTriggerDataTypeString :: int where "serviceTriggerDataTypeString = 2"

record serviceTriggerSpecificDataItem =
  DataType :: int
  DataSize :: int
  Data :: string

record serviceTrigger =
  TriggerType :: int
  TriggerAction :: int
  TriggerSubtype :: GUID
  DataItems :: "serviceTriggerSpecificDataItem list"

text \<open>\<^verbatim>\<open>UTF16FromString\<close> of an ASCII text, as bytes: \<open>None\<close> when there is a zero in it, and a zero
  at the end.\<close>

definition UTF16FromString :: "string \<Rightarrow> string option" where
  "UTF16FromString s =
     (if CHR 0x00 \<in> set s then None
      else Some (concat (map (\<lambda>c. [c, CHR 0x00]) (s @ [CHR 0x00]))))"

definition pipeTrigger :: "string \<Rightarrow> serviceTrigger" where
  "pipeTrigger nameBytes =
     \<lparr>TriggerType = serviceTriggerTypeNetworkEndpoint, TriggerAction = serviceTriggerActionServiceStart,
      TriggerSubtype = namedPipeEventGUID,
      DataItems = [\<lparr>DataType = serviceTriggerDataTypeString, DataSize = int (length nameBytes), Data = nameBytes\<rparr>]\<rparr>"

text \<open>What the call is given: the trigger written out.\<close>

definition trigger_texts :: "serviceTrigger \<Rightarrow> string list" where
  "trigger_texts tr =
     [Itoa (TriggerType tr), Itoa (TriggerAction tr),
      Join (map Itoa (Data1 (TriggerSubtype tr) # Data2 (TriggerSubtype tr) # Data3 (TriggerSubtype tr) #
        Data4 (TriggerSubtype tr))) '','']
     @ concat (map (\<lambda>i. [Itoa (DataType i), Itoa (DataSize i), Data i]) (DataItems tr))"

definition setPipeTrigger :: "environment \<Rightarrow> (failure + unit) io" where
  "setPipeTrigger env =
     (case UTF16FromString pipeTriggerName of
        None \<Rightarrow> ret (Inl (Message ''invalid argument''))
      | Some nameBytes \<Rightarrow>
          andThen (attempt env (Os ''ChangeServiceConfig2''
              (Itoa serviceConfigTriggerInfo # trigger_texts (pipeTrigger nameBytes))))
            (\<lambda>_. ret (Inr ())))"

section \<open>Installing and removing\<close>

definition displayName :: string where "displayName = ''Caelo tunnel service''"

definition serviceDescription :: string where
  "serviceDescription = ''Creates the tunnel adapter and routes this machine through it. Runs only while a tunnel is up.''"

definition connectManager :: "environment \<Rightarrow> (failure + string) io" where
  "connectManager env =
     inContext ''opening the service manager (this needs Administrator)'' (attempt env (Os ''OpenSCManager'' []))"

text \<open>From the created service on.\<close>

definition triggered :: "environment \<Rightarrow> (failure + unit) io" where
  "triggered env = deferring env (Os ''CloseService'' [])
     (inContext ''the service was installed but will not start on demand'' (setPipeTrigger env))"

definition create :: "environment \<Rightarrow> string \<Rightarrow> (failure + unit) io" where
  "create env executable =
     andThen (inContext ''creating the service'' (attempt env (Os ''CreateService''
         [serviceName, executable, displayName, serviceDescription, ''manual''])))
       (\<lambda>_. triggered env)"

definition install :: "environment \<Rightarrow> (failure + unit) io" where
  "install env =
     andThen (attempt env (Os ''Executable'' [])) (\<lambda>executable.
     andThen (connectManager env) (\<lambda>_.
     deferring env (Os ''CloseSCManager'' []) (do {
       existing \<leftarrow> attempt env (Os ''OpenService'' [serviceName]);
       (case existing of
          Inr _ \<Rightarrow> do {
            _ \<leftarrow> ask env (Os ''CloseService'' []);
            ret (Inl (Message (serviceName @ '' is already installed'')))
          }
        | Inl _ \<Rightarrow> create env executable)
     })))"

text \<open>The state of a service: \<open>None\<close> when the query fails.\<close>

definition service_state :: "environment \<Rightarrow> string option io" where
  "service_state env = do {
     a \<leftarrow> attempt env (Os ''QueryService'' []);
     ret (case a of Inl e \<Rightarrow> None | Inr st \<Rightarrow> Some st)
   }"

definition delete_service :: "environment \<Rightarrow> (failure + unit) io" where
  "delete_service env = andThen (attempt env (Os ''DeleteService'' [])) (\<lambda>_. ret (Inr ()))"

definition stop_and_delete :: "environment \<Rightarrow> (failure + unit) io" where
  "stop_and_delete env = do {
     st \<leftarrow> service_state env;
     (if st \<noteq> None \<and> st \<noteq> Some ''stopped''
      then andThen (inContext ''stopping the service'' (attempt env (Os ''ControlService'' [''stop'']))) (\<lambda>_. delete_service env)
      else delete_service env)
   }"

definition uninstall :: "environment \<Rightarrow> (failure + unit) io" where
  "uninstall env =
     andThen (connectManager env) (\<lambda>_.
     deferring env (Os ''CloseSCManager'' []) (do {
       svc \<leftarrow> attempt env (Os ''OpenService'' [serviceName]);
       (case svc of
          Inl _ \<Rightarrow> ret (Inl (Message (serviceName @ '' is not installed'')))
        | Inr _ \<Rightarrow> deferring env (Os ''CloseService'' []) (stop_and_delete env))
     }))"

text \<open>Whether it was a command, and its error.\<close>

definition platformCommand_windows :: "environment \<Rightarrow> string list \<Rightarrow> (bool \<times> (failure + unit)) io" where
  "platformCommand_windows env args =
     (case args of
        _ # arg # _ \<Rightarrow>
          if arg = ''install'' then do { r \<leftarrow> install env; ret (True, r) }
          else if arg = ''uninstall'' then do { r \<leftarrow> uninstall env; ret (True, r) }
          else ret (False, Inr ())
      | _ \<Rightarrow> ret (False, Inr ()))"

definition platformCommand_linux :: "(bool \<times> (failure + unit)) io" where
  "platformCommand_linux = ret (False, Inr ())"

section \<open>The loop of the service manager\<close>

datatype ChangeRequest = Interrogate string | StopRequest | ShutdownRequest | OtherRequest

text \<open>What is told to the manager.\<close>

definition tell :: "environment \<Rightarrow> string \<Rightarrow> unit io" where
  "tell env st = do { _ \<leftarrow> ask env (Os ''status'' [st]); ret () }"

text \<open>
  The requests, until the channel is closed.  Each comes with what the goroutines that serve
  connections have done since the one before: the controller as they leave it and their calls.  A
  stop restores the machine and ends the process inside \<^verbatim>\<open>stopEverything\<close>; the controller is then
  returned as it was left.
\<close>

record Meanwhile =
  leftController :: Controller
  madeCalls :: trace

definition passes :: "Meanwhile \<Rightarrow> unit io" where
  "passes m = State (\<lambda>t. ((), t @ madeCalls m))"

fun answer_requests ::
  "environment \<Rightarrow> string \<Rightarrow> (Meanwhile \<times> ChangeRequest) list \<Rightarrow> Controller option io" where
  "answer_requests env path [] = ret None"
| "answer_requests env path ((m, request) # rs) = do {
     _ \<leftarrow> passes m;
     (case request of
        Interrogate current \<Rightarrow> do { _ \<leftarrow> tell env current; answer_requests env path rs }
      | OtherRequest \<Rightarrow> answer_requests env path rs
      | _ \<Rightarrow> do {
          _ \<leftarrow> tell env ''stop pending'';
          c' \<leftarrow> shutdown env path False (leftController m);
          ret (Some c')
        })
   }"

definition Execute :: "environment \<Rightarrow> string \<Rightarrow> (Meanwhile \<times> ChangeRequest) list \<Rightarrow> Controller option io" where
  "Execute env path requests = do {
     _ \<leftarrow> tell env ''start pending'';
     _ \<leftarrow> ask env (Os ''go'' [''work'']);
     _ \<leftarrow> tell env ''running, accepts stop and shutdown'';
     answer_requests env path requests
   }"

text \<open>Whether the manager started the process, and the error of asking or of running.\<close>

definition runAsService :: "environment \<Rightarrow> (bool \<times> (failure + unit)) io" where
  "runAsService env = do {
     a \<leftarrow> attempt env (Os ''IsWindowsService'' []);
     (case a of
        Inl e \<Rightarrow> ret (False, Inl e)
      | Inr answer \<Rightarrow>
          if answer \<noteq> ''true'' then ret (False, Inr ())
          else do { r \<leftarrow> attempt env (Os ''svc.Run'' [serviceName]); ret (True, map_sum id (\<lambda>_. ()) r) })
   }"

definition runManaged_windows :: "environment \<Rightarrow> (bool \<times> (failure + unit)) io" where
  "runManaged_windows env = runAsService env"

definition runManaged_linux :: "(bool \<times> (failure + unit)) io" where
  "runManaged_linux = ret (False, Inr ())"

section \<open>main\<close>

text \<open>How \<^verbatim>\<open>main\<close> goes: a subcommand was run, it is fatal, or it serves, here or under a manager.\<close>

datatype beginning =
    Commanded
  | Fatal failure
  | Serves bool

definition log_line :: "environment \<Rightarrow> string \<Rightarrow> unit io" where
  "log_line env line = do { _ \<leftarrow> ask env (Os ''log'' [line]); ret () }"

text \<open>
  \<^verbatim>\<open>main\<close> on Linux up to where it accepts connections; the controller and the idler are new.
\<close>

definition main_linux :: "environment \<Rightarrow> (failure \<Rightarrow> string) \<Rightarrow> string \<Rightarrow> (beginning \<times> Process option) io" where
  "main_linux env message path = do {
     (handled, r) \<leftarrow> platformCommand_linux;
     (if handled then ret (case r of Inl e \<Rightarrow> Fatal e | Inr _ \<Rightarrow> Commanded, None)
      else do {
        r \<leftarrow> startup env path;
        (case r of
           Inl e \<Rightarrow> do { _ \<leftarrow> log_line env (message e); ret (Fatal e, None) }
         | Inr act \<Rightarrow> do {
             _ \<leftarrow> ask env (Os ''signal.Notify'' [''interrupt'', ''terminated'']);
             _ \<leftarrow> log_line env (''listening on '' @ describe path act);
             t \<leftarrow> State_Monad.get;
             ret (Serves act, Some (serving t))
           })
      })
   }"

text \<open>
  The loop that accepts returns on any error of \<^verbatim>\<open>Accept\<close>, not only when the listener was closed;
  \<^verbatim>\<open>main\<close> then returns: the socket it made goes, and the process.
\<close>

definition acceptFails :: "environment \<Rightarrow> string \<Rightarrow> bool \<Rightarrow> Process \<Rightarrow> Process" where
  "acceptFails env path act p =
     (let (_, t) = run_state (do {
          _ \<leftarrow> ask env (Os ''Accept'' []);
          (if act then ret () else do { _ \<leftarrow> ask env (RemoveFile path); ret () })
        }) (history p)
      in p\<lparr>history := t, exited := True\<rparr>)"

end
