(* ===== verification/Service_Main_Properties.thy ===== *)
theory Service_Main_Properties
  imports Service_Windows Service_Theorems
begin

text \<open>
  The properties of the service's beginning and end: what the loop of the service manager leaves,
  that the service is not removed while it runs unasked, and what an error of \<^verbatim>\<open>Accept\<close> does.
\<close>

section \<open>An error of Accept\<close>

text \<open>
  C35: An error of \<^verbatim>\<open>Accept\<close> ends the process with the tunnel up.  There is a run, on a machine that
  answers every command, in which somebody has connected and gone and then \<^verbatim>\<open>Accept\<close> fails, as it
  does when the process is out of descriptors: the loop returns, and \<^verbatim>\<open>main\<close> with it, without
  restoring the machine.
\<close>

theorem accept_error_keeps_routes:
  "\<exists>p p'. perform_all sample_build service_environment 52 SocketPath False
       [Accept, Answer True (request_line ''connect'' sample_text), CloseConn] (serving begun_trace) = Some p \<and>
     p' = acceptFails service_environment SocketPath False p \<and>
     exited p' \<and> device (controller p') \<and> unclosed p' = 0 \<and> unanswered p' = 0 \<and>
     (''0.0.0.0/1'', Interface (network (controller p'))) \<in> routes (machine_after sample_machine (history p')) \<and>
     machine_after sample_machine (history p') \<noteq> sample_machine"
proof -
  obtain c t where c: "run_state (serve sample_build service_environment 52 True (request_line ''connect'' sample_text)
      NewController) begun_trace = ((reply (fromStatus (status c)), c), t)" "up sample_machine c t"
    by (rule sample_connects)
  let ?es = "[Accept, Answer True (request_line ''connect'' sample_text), CloseConn]"
  obtain p where p: "perform_all sample_build service_environment 52 SocketPath False ?es (serving begun_trace) = Some p"
      "controller p = c" "history p = t" "unclosed p = 0" "unanswered p = 0"
    using c(1) by (simp add: serving_def newIdler_def busy_def)
  let ?p = "acceptFails service_environment SocketPath False p"
  obtain a b where h: "history ?p = (t @ [(Os ''Accept'' [], a)]) @ [(RemoveFile SocketPath, b)]"
    by (simp add: acceptFails_def p(3))
  have up: "up sample_machine c (history ?p)"
    unfolding h by (intro up_quiet c(2)) (simp_all add: sample_path)
  then obtain st where st: "complete sample_machine st (network c) (history ?p)" "device c"
    by (auto simp: up_def)
  then have r: "(''0.0.0.0/1'', Interface (network c)) \<in> routes (machine_after sample_machine (history ?p))"
    by (auto simp: complete_def our_routes_def defaultHalves_def)
  then have ne: "machine_after sample_machine (history ?p) \<noteq> sample_machine"
    using sample_pristine by (auto simp: pristine_def defaultHalves_def)
  have "exited ?p" "controller ?p = c" "unclosed ?p = 0" "unanswered ?p = 0"
    by (simp_all add: acceptFails_def p)
  with p(1) st(2) r ne show ?thesis by (intro exI [of _ p] exI [of _ ?p]) simp
qed

section \<open>The service manager\<close>

text \<open>
  The goroutines leave the controller up and complete or down, between any two requests: the calls
  made meanwhile, after those made so far.
\<close>

fun served_well :: "machine \<Rightarrow> environment \<Rightarrow> string \<Rightarrow> (Meanwhile \<times> ChangeRequest) list \<Rightarrow> trace \<Rightarrow> bool" where
  "served_well m0 env path [] t \<longleftrightarrow> True"
| "served_well m0 env path ((m, request) # rs) t \<longleftrightarrow>
     safe m0 (leftController m) (t @ madeCalls m) \<and>
     (case request of
        Interrogate current \<Rightarrow> served_well m0 env path rs (snd (run_state (tell env current) (t @ madeCalls m)))
      | OtherRequest \<Rightarrow> served_well m0 env path rs (t @ madeCalls m)
      | _ \<Rightarrow> True)"

lemma tell_run [simp]: "run_state (tell env s) t = ((), t @ [(Os ''status'' [s], env t (Os ''status'' [s]))])"
  by (simp add: tell_def)

lemma shutdown_down:
  assumes "cooperative m0 env" and "path \<noteq> resolvConf" and "safe m0 c t"
    and "run_state (shutdown env path act c) t = (c', t')"
  shows "down m0 c' t'"
proof -
  obtain c1 t1 where r: "run_state (restoreFirst env c) t = (c1, t1)" by fastforce
  obtain s0 c0 t0 where st: "run_state (ControllerStatus env c) t = ((s0, c0), t0)" by (metis prod.exhaust)
  have "safe m0 c0 t0" using status_up_down [OF st] assms(3) by (auto simp: safe_def)
  then have "down m0 c1 t1"
    using tripleD [OF stopLocked_down [OF assms(1)], of c0 t0] r st
    by (fastforce simp: restoreFirst_def Stop_def safe_def split: prod.splits)
  then have "down m0 c1 (snd (run_state (closeSocket env path act) t1))"
    by (rule keepsD [OF closeSocket_keeps(1) [OF assms(2)]])
  with assms(4) r show ?thesis by (auto simp: shutdown_def split: prod.splits)
qed

text \<open>Whatever requests come first, a stop or a shutdown leaves the machine as it was.\<close>

lemma requests_restore:
  assumes "cooperative m0 env" and "path \<noteq> resolvConf"
  shows "served_well m0 env path rs t \<Longrightarrow> run_state (answer_requests env path rs) t = (Some c', t') \<Longrightarrow>
    machine_after m0 t' = m0 \<and> opened t' = (False, False)"
proof (induction rs arbitrary: t)
  case (Cons mr rs)
  obtain m request where mr: "mr = (m, request)" by fastforce
  let ?t = "t @ madeCalls m"
  have stop: "machine_after m0 t' = m0 \<and> opened t' = (False, False)"
    if "run_state (shutdown env path False (leftController m)) (?t @ [(Os ''status'' [s], a)]) = (c', t')" for s a
  proof -
    have "safe m0 (leftController m) (?t @ [(Os ''status'' [s], a)])"
      using Cons.prems(1) by (intro safe_quiet) (simp_all add: mr)
    from shutdown_down [OF assms this that] show ?thesis by (simp add: down_def calm_def)
  qed
  show ?case
    using Cons.prems Cons.IH stop
    by (cases request) (auto simp: mr passes_def split: prod.splits)
qed simp

text \<open>
  A service that says it runs is deleted only after it took the stop, and one that exists is never
  installed over.
\<close>

lemma uninstall_stops_first:
  assumes "run_state (uninstall env) t = (Inr (), t')"
  shows "\<exists>s. t' = t @ s \<and> (\<exists>out. (Os ''DeleteService'' [], Done out) \<in> set s) \<and>
    (\<forall>st. (Os ''QueryService'' [], Done st) \<in> set s \<and> st \<noteq> ''stopped'' \<longrightarrow>
       (\<exists>out. (Os ''ControlService'' [''stop''], Done out) \<in> set s))"
  using assms
  by (auto simp: uninstall_def connectManager_def deferring_def stop_and_delete_def service_state_def
      delete_service_def run_andThen split: answer.splits sum.splits if_splits option.splits)

lemma install_never_over:
  assumes "run_state (install env) t = (r, t')"
  shows "\<exists>s. t' = t @ s \<and>
    ((\<exists>out. (Os ''OpenService'' [serviceName], Done out) \<in> set s) \<longrightarrow>
       isl r \<and> (\<forall>args out. (Os ''CreateService'' args, out) \<notin> set s))"
  using assms
  by (auto simp: install_def connectManager_def deferring_def create_def triggered_def setPipeTrigger_def
      run_andThen split: answer.splits sum.splits if_splits option.splits)

end
