(* ===== verification/Awgtest.thy ===== *)
theory Awgtest
  imports Systunnel Rtt "HOL-Library.Multiset"
begin

text \<open>
  \<^verbatim>\<open>core/internal/awgtest\<close>: the server the tests connect to.  The device layer, its network and
  the random numbers are calls of the environment or arguments; a failed test is an error.  What the
  server writes is the two configurations, and which packets it holds back.
\<close>

section \<open>Configurations\<close>

definition lines_of :: "string list \<Rightarrow> string" where
  "lines_of ls = concat (map (\<lambda>l. l @ [newline]) ls)"

definition TestObfuscation :: string where
  "TestObfuscation = lines_of
     [''Jc = 4'', ''Jmin = 10'', ''Jmax = 50'', ''S1 = 31'', ''S2 = 17'', ''H1 = 1000000-1000100'',
      ''H2 = 2000000-2000100'', ''H3 = 3000000-3000100'', ''H4 = 4000000-4000100'']"

definition TestAddress :: addr where "TestAddress = V4 10 154 1 1"
definition FarAddress :: addr where "FarAddress = V4 10 154 2 1"

record TestOptions =
  ToObfuscation :: string
  ToDelay :: duration
  ToExitDelay :: duration

record TestServer =
  ClientConfig :: string
  ServerURL :: string
  requests :: nat

definition clamp :: "bytes \<Rightarrow> bytes" where
  "clamp key =
     (let k = key[0 := and (key ! 0) 248] in k[31 := or (and (k ! 31) 127) 64])"

text \<open>The random bytes, if there were any, and the public key of a private one.\<close>

definition KeyPair :: "bytes option \<Rightarrow> (bytes \<Rightarrow> bytes option) \<Rightarrow> failure + (string \<times> string)" where
  "KeyPair random x25519 =
     (case random of
        None \<Rightarrow> Inl (Message ''rand'')
      | Some key \<Rightarrow>
          (case x25519 (clamp key) of
             None \<Rightarrow> Inl (Message ''x25519'')
           | Some pub \<Rightarrow> Inr (b64_encode (clamp key), b64_encode pub)))"

definition serverText :: "string \<Rightarrow> string \<Rightarrow> TestOptions \<Rightarrow> string" where
  "serverText serverKey clientPublic opts =
     lines_of [''[Interface]'', ''PrivateKey = '' @ serverKey,
       ''Address = '' @ Addr_String TestAddress @ ''/32, '' @ Addr_String FarAddress @ ''/32'']
     @ ToObfuscation opts
     @ lines_of [''[Peer]'', ''PublicKey = '' @ clientPublic, ''AllowedIPs = 10.154.1.2/32'']"

definition clientText :: "string \<Rightarrow> string \<Rightarrow> int \<Rightarrow> TestOptions \<Rightarrow> string" where
  "clientText clientKey serverPublic port opts =
     lines_of [''[Interface]'', ''PrivateKey = '' @ clientKey, ''Address = 10.154.1.2/32'']
     @ ToObfuscation opts
     @ lines_of [''[Peer]'', ''PublicKey = '' @ serverPublic, ''Endpoint = 127.0.0.1:'' @ Itoa port,
         ''AllowedIPs = 10.154.0.0/16'']"

section \<open>The port\<close>

text \<open>\<^verbatim>\<open>strconv.Atoi\<close> of the first line that states a positive port.\<close>

definition port_line :: "string \<Rightarrow> int option" where
  "port_line line =
     (case CutPrefix line ''listen_port='' of
        None \<Rightarrow> None
      | Some v \<Rightarrow> (case ParseInt64 v of None \<Rightarrow> None | Some p \<Rightarrow> if 0 < p then Some p else None))"

fun first_port :: "string list \<Rightarrow> int option" where
  "first_port [] = None"
| "first_port (l # ls) = (case port_line l of Some p \<Rightarrow> Some p | None \<Rightarrow> first_port ls)"

definition ListenPort :: "environment \<Rightarrow> (failure + int) io" where
  "ListenPort env =
     andThen (attempt env IpcGet) (\<lambda>uapi.
     ret (case first_port (Split newline uapi) of
            Some p \<Rightarrow> Inr p
          | None \<Rightarrow> Inl (Message (''the device reports no listening port:'' @ newline # uapi))))"

definition FreeUDPPort :: "environment \<Rightarrow> (failure + int) io" where
  "FreeUDPPort env = do {
     a \<leftarrow> ask env (Os ''ListenUDP'' [''127.0.0.1'']);
     (case a of
        Handle port \<Rightarrow> do { _ \<leftarrow> ask env (Os ''CloseUDP'' []); ret (Inr port) }
      | _ \<Rightarrow> ret (Inl (OsFailed (Os ''ListenUDP'' [''127.0.0.1'']))))
   }"

section \<open>Packets held back\<close>

definition far_packet :: "bytes \<Rightarrow> bool" where
  "far_packet p \<longleftrightarrow> 20 \<le> length p \<and> drop_bit 4 (p ! 0) = 4 \<and> AddrFrom4 (take 4 (drop 16 p)) = FarAddress"

text \<open>
  \<^verbatim>\<open>farTun.Write\<close>: what is written now, and each packet that is written after the delay, with room
  in front of it as the caller left.
\<close>

fun split_far :: "nat \<Rightarrow> bytes list \<Rightarrow> bytes list \<times> bytes list" where
  "split_far offset [] = ([], [])"
| "split_far offset (buf # bufs) =
     (let (now, late) = split_far offset bufs; p = drop offset buf in
      if far_packet p then (now, (replicate offset 0 @ p) # late) else (buf # now, late))"

definition farTun_Write :: "(bytes list \<Rightarrow> nat \<Rightarrow> failure + int) \<Rightarrow> nat \<Rightarrow> bytes list \<Rightarrow> (failure + int) \<times> bytes list" where
  "farTun_Write write offset bufs =
     (let (now, late) = split_far offset bufs in
      (if now = [] then Inr (int (length bufs))
       else (case write now offset of Inl e \<Rightarrow> Inl e | Inr _ \<Rightarrow> Inr (int (length bufs))), late))"

text \<open>\<^verbatim>\<open>delayedBind.Send\<close>: no error, and copies that are sent after the delay.\<close>

definition delayedBind_Send :: "bytes list \<Rightarrow> (failure + unit) \<times> bytes list" where
  "delayedBind_Send bufs = (Inr (), bufs)"

section \<open>The server\<close>

text \<open>One request of the web server, and its answer.\<close>

definition web_handler :: "TestServer \<Rightarrow> string \<times> TestServer" where
  "web_handler s = ('' '' @ Addr_String TestAddress @ [newline], s\<lparr>requests := requests s + 1\<rparr>)"

definition Requests :: "TestServer \<Rightarrow> int" where "Requests s = int (requests s)"

text \<open>From the device on: its wrappers are made as the options ask.\<close>

definition serve_test ::
  "environment \<Rightarrow> TestOptions \<Rightarrow> Config \<Rightarrow> string \<Rightarrow> string \<Rightarrow> (failure + TestServer) io" where
  "serve_test env opts cfg clientKey serverPublic = do {
     _ \<leftarrow> ask env (Os ''wrap'' [if 0 < ToDelay opts then ''delayedBind'' else [],
       if 0 < ToExitDelay opts then ''farTun'' else []]);
     _ \<leftarrow> ask env NewDevice;
     andThen (attempt env (IpcSet (''listen_port=0'' @ newline # IPC cfg))) (\<lambda>_.
     andThen (attempt env DeviceUp) (\<lambda>_.
     andThen (ListenPort env) (\<lambda>port.
     andThen (attempt env (Os ''ListenTCP'' [Addr_String TestAddress, ''80''])) (\<lambda>_. do {
       _ \<leftarrow> ask env (Os ''go'' [''Serve'']);
       andThen (attempt env (Os ''ListenTCP'' [Addr_String FarAddress, ''80''])) (\<lambda>_. do {
         _ \<leftarrow> ask env (Os ''go'' [''AcceptAndClose'']);
         ret (Inr \<lparr>ClientConfig = clientText clientKey serverPublic port opts,
                   ServerURL = ''http://'' @ Addr_String TestAddress @ ''/'', requests = 0\<rparr>)
       })
     }))))
   }"

definition TestStart ::
  "environment \<Rightarrow> (bytes \<Rightarrow> bytes option) \<Rightarrow> bytes option \<Rightarrow> bytes option \<Rightarrow> (awg_error \<Rightarrow> failure) \<Rightarrow> TestOptions \<Rightarrow>
   (failure + TestServer) io" where
  "TestStart env x25519 random1 random2 bad opts =
     andThen (ret (KeyPair random1 x25519)) (\<lambda>(serverKey, serverPublic).
     andThen (ret (KeyPair random2 x25519)) (\<lambda>(clientKey, clientPublic).
     (case ParseConfig (serverText serverKey clientPublic opts) of
        Inl e \<Rightarrow> ret (Inl (bad e))
      | Inr cfg \<Rightarrow>
          andThen (attempt env (Os ''CreateNetTUN'' [Join (map Addr_String (Addresses cfg)) '','', [], Itoa (MTU cfg)]))
            (\<lambda>_. serve_test env opts cfg clientKey serverPublic))))"

section \<open>Facts\<close>

text \<open>No packet is lost: each is written now or later, in its order.\<close>

lemma split_far_packets:
  "split_far offset bufs = (now, late) \<Longrightarrow>
   now = filter (\<lambda>b. \<not> far_packet (drop offset b)) bufs \<and>
   map (drop offset) late = map (drop offset) (filter (\<lambda>b. far_packet (drop offset b)) bufs)"
  by (induction bufs arbitrary: now late) (auto simp: Let_def split: prod.splits if_splits)

text \<open>The first line that states a port is the port, whatever comes before and after it.\<close>

lemma first_port_append:
  "(\<And>l. l \<in> set ls \<Longrightarrow> port_line l = None) \<Longrightarrow> first_port (ls @ ls') = first_port ls'"
  by (induction ls) simp_all

lemma ListenPort_reads:
  assumes "run_state (ListenPort env) t = (Inr p, t')"
  shows "\<exists>uapi l. t' = t @ [(IpcGet, Done uapi)] \<and> l \<in> set (Split newline uapi) \<and> port_line l = Some p \<and> 0 < p"
proof -
  have "first_port ls = Some p \<Longrightarrow> \<exists>l \<in> set ls. port_line l = Some p" for ls
    by (induction ls) (auto split: option.splits)
  moreover have "port_line l = Some p \<Longrightarrow> 0 < p" for l
    by (auto simp: port_line_def split: option.splits if_splits)
  ultimately show ?thesis
    using assms by (fastforce simp: ListenPort_def run_andThen split: answer.splits option.splits)
qed

end
