(* ===== verification/Spec2Isabelle.thy ===== *)
theory Spec2Isabelle
  imports Awg_Properties Rtt_Properties Diag_Properties Handshake Release Systunnel_Properties Awg_Endpoint_Properties Service_Reply Probe_Properties Fdtun_Properties Darwin_Properties Windows_Properties Subscription_Properties Tools_Properties Libcaelo_Refinement Service_Main_Properties Awgtest
begin

text \<open>
  Caelo's core, the Go code under \<^verbatim>\<open>src/core\<close>: a client for WireGuard and AmneziaWG tunnels.  It
  reads a configuration, hands it to a device (a third-party package), takes over the routing and
  the DNS of a machine and gives them back, and is reached in four ways: as a root service over a
  socket, as a C library in an application, and as two command line tools.  The example server
  that hands out configurations is modelled too.  This library of theories models that code
  function by function and proves what each part promises, and where it does not keep it.

  \<^bold>\<open>How the program is put together.\<close>  A text becomes a \<^verbatim>\<open>Config\<close> (\<^verbatim>\<open>internal/awg\<close>), from a
  \<^verbatim>\<open>.conf\<close> or from a node of a subscription.  A controller turns it into a tunnel: for the whole
  machine (\<^verbatim>\<open>internal/systunnel\<close>, on \<^verbatim>\<open>internal/system\<close> for routes and DNS), inside the process
  (\<^verbatim>\<open>internal/tunnel\<close>, \<^verbatim>\<open>internal/probe\<close>), or over a descriptor the host made
  (\<^verbatim>\<open>internal/fdtun\<close>).  All of them ask the device whether its server has answered
  (\<^verbatim>\<open>internal/handshake\<close>), time connections that pass (\<^verbatim>\<open>internal/rtt\<close>) and keep a log
  (\<^verbatim>\<open>internal/diag\<close>).  \<^verbatim>\<open>cmd/caelo-service\<close> serves the first kind to an application,
  \<^verbatim>\<open>libcaelo\<close> the other two, \<^verbatim>\<open>cmd/caelo-tun\<close> and \<^verbatim>\<open>cmd/caelo-probe\<close> a person.
  \<^verbatim>\<open>internal/release\<close> checks a downloaded file.

  \<^bold>\<open>Foundations.\<close>
  \<^item> \<open>Prelude\<close>: error sums with their combinators, durations and instants, 64-bit wrap-around,
    and two interfaces as locales: \<open>codec\<close> (what was encoded decodes) and \<open>bounded_history\<close> (a
    buffer that drops its oldest entry).  Every interpretation is on functions of the model: the
    UAPI document, hexadecimal, base64, decimal, the service's replies and JSON documents are
    codecs; the log and the meter's samples are bounded histories.
  \<^item> \<open>Go_Text\<close>, \<open>Go_Utf8\<close>, \<open>Go_Encoding\<close>, \<open>Go_Netip\<close>, \<open>Go_Json\<close>: what the code uses of Go's
    \<^verbatim>\<open>strings\<close>, \<^verbatim>\<open>strconv\<close>, \<^verbatim>\<open>utf8\<close>, \<^verbatim>\<open>hex\<close>, \<^verbatim>\<open>base64\<close>, \<^verbatim>\<open>netip\<close> and
    \<^verbatim>\<open>json\<close>, on bytes.  \<open>Go_Json_Codec\<close> and \<open>Go_Json_Nested\<close> show that what is rendered is read
    back, for values of any shape and texts of any bytes.
  \<^item> \<open>World\<close>: the effects.  A call of the operating system, of the device layer or of the clock is a
    value of \<open>call\<close>; an environment, a function of the trace so far, decides its answer, and nothing
    is assumed of it unless a theorem says so.  A function with effects is a computation over the
    trace in the library's state monad; \<open>triple\<close>, \<open>keeps\<close> and \<open>gives\<close> are its proof rules.

  \<^bold>\<open>Theories and sources\<close> (under \<^verbatim>\<open>src/core\<close> unless a path says otherwise).
  \<^item> \<open>Awg_Config\<close>, \<open>Awg_Uapi\<close>, \<open>Awg_Properties\<close>: \<^verbatim>\<open>internal/awg/config.go\<close>.  \<open>ParseConfig\<close> folds
    \<open>parseLine\<close> over the numbered lines; \<open>IPC\<close> writes the UAPI document and \<open>uapi_read\<close> is the
    specification it is read back by.
  \<^item> \<open>Awg_Endpoint\<close>, \<open>Awg_Endpoint_Properties\<close>: \<^verbatim>\<open>internal/awg/endpoint.go\<close>, the same
    configuration from JSON, and the two forms compared.
  \<^item> \<open>Rtt\<close>, \<open>Rtt_Properties\<close>: \<^verbatim>\<open>internal/rtt\<close>, packets as bytes, the meter as a record, any
    sequence of packets, readings and resets as a list of events.
  \<^item> \<open>Handshake\<close>, \<open>Release\<close>, \<open>Diag\<close>, \<open>Diag_Properties\<close>: \<^verbatim>\<open>internal/handshake\<close>,
    \<^verbatim>\<open>internal/release\<close> (the signature scheme is an argument), \<^verbatim>\<open>internal/diag\<close> (with its
    regular expression as a matcher over code points).
  \<^item> \<open>System_Linux\<close>, \<open>Linux_Machine\<close>, \<open>Linux_Properties\<close>: \<^verbatim>\<open>network_linux.go\<close>, with a machine
    (routes, blocked prefixes, DNS, \<^verbatim>\<open>resolv.conf\<close>) the commands change.
    \<open>System_Darwin\<close>, \<open>Darwin_Properties\<close> and \<open>System_Windows\<close>, \<open>Windows_Properties\<close>: the same two
    for macOS and Windows.
  \<^item> \<open>Systunnel\<close>, \<open>Systunnel_Machine\<close>, \<open>Systunnel_Wait\<close>, \<open>Systunnel_Properties\<close>:
    \<^verbatim>\<open>internal/systunnel\<close>.  \<open>up\<close> and \<open>down\<close> are its specification: taken over completely with
    the device open, or exactly as before with nothing open; every operation keeps to the two.
  \<^item> \<open>Tunnel\<close>, \<open>Tunnel_Properties\<close>, \<open>Probe\<close>, \<open>Probe_Properties\<close>, \<open>Fdtun\<close>, \<open>Fdtun_Properties\<close>:
    \<^verbatim>\<open>internal/tunnel\<close> (with calls that overlap, as a step relation), \<^verbatim>\<open>internal/probe\<close>,
    \<^verbatim>\<open>internal/fdtun\<close>.  \<open>devices\<close> counts what a trace has opened and not closed.
  \<^item> \<open>Service\<close>, \<open>Service_Process\<close>, \<open>Service_Reply\<close>, \<open>Service_Properties\<close>, \<open>Service_Theorems\<close>:
    \<^verbatim>\<open>internal/ipc\<close> and \<^verbatim>\<open>cmd/caelo-service\<close>: a request, a connection, the socket, and the
    process as goroutines whose steps may come in any order.  \<open>Service_Windows\<close>,
    \<open>Service_Main_Properties\<close>: \<^verbatim>\<open>service_windows.go\<close>, \<^verbatim>\<open>listen_windows.go\<close> and the two ends of
    \<^verbatim>\<open>main\<close>.
  \<^item> \<open>Libcaelo\<close>, \<open>Libcaelo_Properties\<close>, \<open>Libcaelo_Refinement\<close>: \<^verbatim>\<open>libcaelo\<close>, every exported call
    on one record of state, the calls in any sequence, and the two tunnels an application sees as
    the specification they refine.
  \<^item> \<open>Tools\<close>, \<open>Tools_Properties\<close>: \<^verbatim>\<open>cmd/caelo-tun\<close>, \<^verbatim>\<open>cmd/caelo-probe\<close>,
    \<^verbatim>\<open>internal/version\<close>.  \<open>Awgtest\<close>: \<^verbatim>\<open>internal/awgtest\<close>, the server of the tests.
  \<^item> \<open>Subscription\<close>, \<open>Subscription_Properties\<close>: \<^verbatim>\<open>src/examples/subscription-server/main.go\<close>.

  \<^bold>\<open>What is shown.\<close>
  \<^item> Configurations: what either reader accepts is complete and in range; the rendering reads back
    to exactly the settings; a node and the equivalent \<^verbatim>\<open>.conf\<close> are the same configuration.
  \<^item> Machines: after any part of \<^verbatim>\<open>Apply\<close>, with any command failing, \<^verbatim>\<open>Restore\<close> puts back what
    there was; nothing is routed into the tunnel before the route to its server is.
  \<^item> Controllers: a start leaves all of the tunnel or nothing, in any sequence of operations; no
    device is lost or closed twice, however calls overlap; the same for the library's two tunnels
    together, whose state an application knows from the answers alone; waiting for the server ends.
  \<^item> The service: what reaches the controller; that a process which exits leaves the machine as it
    was, but for the runs named below; that it exits when idle.  The tools: \<^verbatim>\<open>caelo-tun\<close> leaves the
    machine as it was whatever fails.
  \<^item> Messages: replies, documents and the library's answers are read back by their readers.
  \<^item> Figures and logs: each round trip comes from one exchange; labelled keys are never logged;
    buffers stay within their bounds.
  \<^item> The subscription server: a token opens its own part of the file and no other; an expired
    subscriber is as if unknown; what is served is what the client's core reads.

  \<^bold>\<open>What is shown not to hold\<close> of the code as it is; each is a theorem with a run.  The idle goroutine
  gives up for good once it has found a tunnel up; a request handled after the restoring, an error
  of \<^verbatim>\<open>Accept\<close>, and for \<^verbatim>\<open>caelo-tun\<close> a signal before it asks for signals, each end the process
  with the machine routed into its tunnel; a line break in a subscription's text reaches the device
  as lines of its own; a bare base64 key is logged; switching the log's verbosity, which each probe
  does, unbounds it; the exit's figure can be another connection's; \<^verbatim>\<open>Restore\<close> removes a route to
  the server that was there before and makes a manual IPv6 configuration on a Mac automatic; the
  version of a subscription's state leaves out the order of its nodes.

  \<^bold>\<open>Bounds and fuel.\<close>  \<open>json_parse\<close> gives its reader two units for each byte and two more, and each call
  consumes a byte at least every second time, so a document is never refused for fuel; containers
  may nest ten thousand deep, as in Go.  \<open>waitServer\<close> and \<open>Wait\<close> count their rounds: a clock that
  moves by the time slept passes the ten seconds of \<open>HandshakeTimeout\<close> in fewer than 52 rounds of
  \<open>pollEvery\<close>, which is the fuel of the runs, and \<open>Wait_returns\<close> bounds the rounds in general; running
  out is an error of its own, no success.  Every other recursion ends by its measure.  Instants and
  durations are integers with Go's saturation and wrap-around written out; bytes and sequence
  numbers are words.

  \<^bold>\<open>Assumptions.\<close>  The theorems about a Linux machine that is given back assume an environment that is
  \<open>cooperative\<close>: it reports \<^verbatim>\<open>resolv.conf\<close> truthfully, lets what was added be deleted, and had
  nothing of ours before.  A machine and an environment of that kind are given, and the witnesses
  run on them.  The signature scheme, the key exchange, the hash of the subscription server and the
  texts of errors are arguments.

  \<^bold>\<open>Not modelled.\<close>  The device layer, its packets on the wire and its userspace network, which are
  third-party packages: calls of the environment.  Reading command line flags; what the service logs
  beside its first line and a fatal error; setting up the HTTP server of the example in its \<^verbatim>\<open>main\<close>;
  \<^verbatim>\<open>caelo_free\<close>, which gives memory back to C; \<^verbatim>\<open>Scalar.MarshalJSON\<close>, which nothing calls here.
  A mutex is the atomicity of the operation that holds it.  The kernel's own removal of the routes
  of an interface that is gone is not part of the machine: the theorems about a process that ends
  too early name the state at that moment, and for \<^verbatim>\<open>caelo-tun\<close> also the route to the server, which
  stays.  Time passes only where the code reads the clock or sleeps.
\<close>

end
